(* ===== verification/Errors.thy ===== *)
theory Errors
  imports Prelude
begin

text \<open>
  The error taxonomy of \<open>include/pqtls/error.hpp\<close> and \<open>src/common/error.cpp\<close>: the
  categories, the exit codes they map to, the exception class \<open>Error\<close> with its one final
  subclass per category, and the exceptions a call can end with.
\<close>

datatype ErrorCategory =
    None_category | Configuration | Capability | Certificate | TlsPolicy | Handshake
  | Network | Protocol | Timeout | Internal

fun to_string_ErrorCategory :: "ErrorCategory \<Rightarrow> string" where
  "to_string_ErrorCategory None_category = ''none''"
| "to_string_ErrorCategory Configuration = ''configuration''"
| "to_string_ErrorCategory Capability = ''capability''"
| "to_string_ErrorCategory Certificate = ''certificate''"
| "to_string_ErrorCategory TlsPolicy = ''tls-policy''"
| "to_string_ErrorCategory Handshake = ''handshake''"
| "to_string_ErrorCategory Network = ''network''"
| "to_string_ErrorCategory Protocol = ''protocol''"
| "to_string_ErrorCategory Timeout = ''timeout''"
| "to_string_ErrorCategory Internal = ''internal''"

definition error_category_from_string :: "string \<Rightarrow> ErrorCategory" where
  "error_category_from_string name =
     (if name = ''none'' then None_category
      else if name = ''configuration'' then Configuration
      else if name = ''capability'' then Capability
      else if name = ''certificate'' then Certificate
      else if name = ''tls-policy'' then TlsPolicy
      else if name = ''handshake'' then Handshake
      else if name = ''network'' then Network
      else if name = ''protocol'' then Protocol
      else if name = ''timeout'' then Timeout
      else Internal)"

text \<open>\<open>enum class ExitCode : int\<close>, as the process exit status.\<close>

datatype ExitCode =
    Success | ConfigurationError_code | CapabilityError_code | CertificateError_code
  | TlsPolicyError_code | HandshakeError_code | NetworkError_code | ProtocolError_code
  | TimeoutError_code | InternalError_code

fun exit_value :: "ExitCode \<Rightarrow> int" where
  "exit_value Success = 0"
| "exit_value ConfigurationError_code = 2"
| "exit_value CapabilityError_code = 3"
| "exit_value CertificateError_code = 4"
| "exit_value TlsPolicyError_code = 5"
| "exit_value HandshakeError_code = 6"
| "exit_value NetworkError_code = 7"
| "exit_value ProtocolError_code = 8"
| "exit_value TimeoutError_code = 9"
| "exit_value InternalError_code = 70"

fun exit_code_for :: "ErrorCategory \<Rightarrow> ExitCode" where
  "exit_code_for None_category = Success"
| "exit_code_for Configuration = ConfigurationError_code"
| "exit_code_for Capability = CapabilityError_code"
| "exit_code_for Certificate = CertificateError_code"
| "exit_code_for TlsPolicy = TlsPolicyError_code"
| "exit_code_for Handshake = HandshakeError_code"
| "exit_code_for Network = NetworkError_code"
| "exit_code_for Protocol = ProtocolError_code"
| "exit_code_for Timeout = TimeoutError_code"
| "exit_code_for Internal = InternalError_code"

record Error =
  e_category :: ErrorCategory
  e_message :: string
  e_details :: "string list"
  e_what :: string

text \<open>The constructor \<open>Error(category, message, details)\<close>.\<close>

definition mk_Error :: "ErrorCategory \<Rightarrow> string \<Rightarrow> string list \<Rightarrow> Error" where
  "mk_Error category message details =
     \<lparr>e_category = category, e_message = message, e_details = details,
      e_what = ''['' @ to_string_ErrorCategory category @ ''] '' @ message\<rparr>"

text \<open>\<open>Error::format\<close>: the headline, then one indented line per detail.\<close>

definition format_Error :: "Error \<Rightarrow> string" where
  "format_Error e =
     ''error('' @ to_string_ErrorCategory (e_category e) @ ''): '' @ e_message e @
     concat (map (\<lambda>detail. CHR 0x0A # ''  - '' @ detail) (e_details e))"

text \<open>
  What a call can throw.  \<open>Err dyn e\<close> is an \<open>Error\<close>: \<open>dyn = Some c\<close> when the object is
  of the final subclass that \<open>PQTLS_DEFINE_ERROR\<close> declares for category \<open>c\<close>,
  \<open>None\<close> when it is the base class (\<open>openssl_error\<close> returns one).  The distinction
  matters to \<open>catch (const ProtocolError&)\<close>.  \<open>Std what\<close> is any other
  \<open>std::exception\<close>.  One outcome is no C++ exception and no handler sees it:
  \<open>UB why\<close> marks a run in which a library call broke its documented contract (a reply that
  would make the code read or write out of bounds).
\<close>

datatype exn = Err "ErrorCategory option" Error | Std string | UB string

type_synonym 'a result = "exn + 'a"

definition throw_sub :: "ErrorCategory \<Rightarrow> string \<Rightarrow> string list \<Rightarrow> 'a result" where
  "throw_sub c message details = Inl (Err (Some c) (mk_Error c message details))"

abbreviation ConfigurationError :: "string \<Rightarrow> 'a result" where
  "ConfigurationError message \<equiv> throw_sub Configuration message []"

abbreviation ProtocolError :: "string \<Rightarrow> 'a result" where
  "ProtocolError message \<equiv> throw_sub Protocol message []"

text \<open>The category a handler reads off an exception (\<open>Internal\<close> for a foreign one).\<close>

fun exn_category :: "exn \<Rightarrow> ErrorCategory" where
  "exn_category (Err d e) = e_category e"
| "exn_category _ = Internal"

fun exn_message :: "exn \<Rightarrow> string" where
  "exn_message (Err d e) = e_message e"
| "exn_message (Std w) = w"
| "exn_message (UB w) = w"

text \<open>Which exceptions \<open>catch (const ProtocolError&)\<close> catches.\<close>

fun is_ProtocolError :: "exn \<Rightarrow> bool" where
  "is_ProtocolError (Err d e) = (d = Some Protocol)"
| "is_ProtocolError _ = False"

text \<open>Which outcomes are C++ exceptions, i.e. what \<open>catch (const std::exception&)\<close> catches.\<close>

fun catchable :: "exn \<Rightarrow> bool" where
  "catchable (Err d e) = True"
| "catchable (Std w) = True"
| "catchable _ = False"

definition throws :: "ErrorCategory \<Rightarrow> 'a result \<Rightarrow> bool" where
  "throws c r \<longleftrightarrow> (\<exists>m ds. r = throw_sub c m ds)"

lemma throws_throw_sub [simp]: "throws c (throw_sub d m ds) \<longleftrightarrow> c = d"
  by (auto simp: throws_def throw_sub_def mk_Error_def)

lemma not_throws_Inr [simp]: "\<not> throws c (Inr x)"
  by (simp add: throws_def throw_sub_def)

lemma throw_sub_neq_Inr [simp]: "throw_sub c m ds \<noteq> Inr x" "Inr x \<noteq> throw_sub c m ds"
  by (simp_all add: throw_sub_def)

lemma bindE_throw_sub [simp, bind_simps]: "bindE (throw_sub c m ds) f = throw_sub c m ds"
  by (simp add: throw_sub_def)

lemma throws_bindE: "throws c m \<Longrightarrow> throws c (bindE m f)"
  by (metis bindE_throw_sub throws_def)

text \<open>\<open>only_throws c r\<close>: a normal return or the subclass of category \<open>c\<close>, nothing else.\<close>

definition only_throws :: "ErrorCategory \<Rightarrow> 'a result \<Rightarrow> bool" where
  "only_throws c r \<longleftrightarrow> throws c r \<or> (\<exists>x. r = Inr x)"

lemma only_throws_Inr [intro]: "only_throws c (Inr x)"
  by (simp add: only_throws_def)

lemma only_throws_throw_sub [intro]: "only_throws c (throw_sub c m ds)"
  by (simp add: only_throws_def)

lemma only_throws_if [intro]: "only_throws c a \<Longrightarrow> only_throws c b \<Longrightarrow> only_throws c (if p then a else b)"
  by simp

lemma only_throws_option [intro]:
  "only_throws c a \<Longrightarrow> (\<And>x. only_throws c (f x)) \<Longrightarrow> only_throws c (case y of None \<Rightarrow> a | Some x \<Rightarrow> f x)"
  by (simp split: option.split)

lemma only_throws_bindE [intro]:
  "only_throws c m \<Longrightarrow> (\<And>x. only_throws c (f x)) \<Longrightarrow> only_throws c (bindE m f)"
  unfolding only_throws_def by (elim disjE exE) (simp_all add: throws_bindE)

text \<open>A guard that throws: what passing it means.\<close>

lemma guard_eq_Inr_iff [bind_simps]:
  "(if c then throw_sub k m ds else r) = Inr x \<longleftrightarrow> \<not> c \<and> r = Inr x"
  by simp

lemma option_guard_eq_Inr_iff [bind_simps]:
  "(case y of None \<Rightarrow> r | Some z \<Rightarrow> throw_sub k (m z) (ds z)) = Inr x \<longleftrightarrow> y = None \<and> r = Inr x"
  by (simp split: option.split)

lemma exn_category_throw_sub [simp]:
  "throw_sub c m ds = Inl e \<Longrightarrow> exn_category e = c \<and> exn_message e = m"
  by (auto simp: throw_sub_def mk_Error_def)

lemma category_mk_Error [simp]: "e_category (mk_Error c m ds) = c"
  by (simp add: mk_Error_def)

lemma message_mk_Error [simp]: "e_message (mk_Error c m ds) = m"
  by (simp add: mk_Error_def)

lemma UNIV_ErrorCategory:
  "UNIV = {None_category, Configuration, Capability, Certificate, TlsPolicy, Handshake,
           Network, Protocol, Timeout, Internal}"
  by (auto intro: ErrorCategory.exhaust)

lemma category_name_inverse: "error_category_from_string (to_string_ErrorCategory c) = c"
  by (cases c) (simp_all add: error_category_from_string_def)

lemma exit_status_inj: "exit_value (exit_code_for c) = exit_value (exit_code_for d) \<Longrightarrow> c = d"
  by (cases c; cases d) simp_all

text \<open>
  The error taxonomy is a stable identification of outcomes: the printed
  category name reads back as the category, two categories never share a process exit status, and
  the status is 0 for \<open>none\<close> only.
\<close>

theorem error_taxonomy_faithful:
  "error_category_from_string (to_string_ErrorCategory c) = c \<and>
   (exit_value (exit_code_for c) = exit_value (exit_code_for d) \<longleftrightarrow> c = d) \<and>
   (exit_value (exit_code_for c) = 0 \<longleftrightarrow> c = None_category)"
proof (intro conjI)
  show "exit_value (exit_code_for c) = exit_value (exit_code_for d) \<longleftrightarrow> c = d"
    by (blast dest: exit_status_inj)
  show "exit_value (exit_code_for c) = 0 \<longleftrightarrow> c = None_category"
    by (cases c) simp_all
qed (rule category_name_inverse)

end
