(* ===== verification/Framing.thy ===== *)
theory Framing
  imports Errors
begin

text \<open>
  The length-prefixed framing of \<open>namespace framing\<close>
  (\<open>include/pqtls/application_protocol.hpp\<close>, \<open>src/common/application_protocol.cpp\<close>):
  \<open>encode\<close>, \<open>decode_length\<close> and the incremental \<open>Decoder\<close>.  The decoder keeps its
  consumed prefix in the buffer and reclaims it lazily; \<open>pending\<close> abstracts from that to the
  stream of unconsumed bytes, and the locale \<open>frame_stream\<close> is the contract the client's and
  the server's loops use.
\<close>

section \<open>Model\<close>

definition kHeaderSize :: nat where
  "kHeaderSize = 4"

definition kDefaultMaxFrameSize :: u32 where
  "kDefaultMaxFrameSize = 1024 * 1024"

definition kAbsoluteMaxFrameSize :: u32 where
  "kAbsoluteMaxFrameSize = 64 * 1024 * 1024"

definition encode :: "string \<Rightarrow> u32 \<Rightarrow> byte list result" where
  "encode payload max_frame_size =
     (if max_frame_size > kAbsoluteMaxFrameSize then
        ProtocolError (''configured maximum frame size exceeds the absolute ceiling of '' @
                       dec_nat (unat kAbsoluteMaxFrameSize) @ '' bytes'')
      else if payload = [] then ProtocolError ''refusing to encode a zero-length frame''
      else if length payload > unat max_frame_size then
        ProtocolError (''payload of '' @ dec_nat (length payload) @
                       '' bytes exceeds the maximum frame size of '' @
                       dec_nat (unat max_frame_size) @ '' bytes'')
      else
        let len = word_of_nat (length payload) :: u32 in
        Inr ([ucast (drop_bit 24 len AND 0xFF), ucast (drop_bit 16 len AND 0xFF),
              ucast (drop_bit 8 len AND 0xFF), ucast (len AND 0xFF)] @ bytes_of payload))"

definition decode_length :: "byte list \<Rightarrow> u32 \<Rightarrow> u32 result" where
  "decode_length header max_frame_size =
     (if length header \<noteq> kHeaderSize then
        ProtocolError (''frame header must be exactly '' @ dec_nat kHeaderSize @
                       '' bytes, got '' @ dec_nat (length header))
      else
        let len = push_bit 24 (ucast (header ! 0)) OR push_bit 16 (ucast (header ! 1)) OR
                  push_bit 8 (ucast (header ! 2)) OR ucast (header ! 3) :: u32 in
        if len = 0 then
          ProtocolError ''frame announces a zero-length payload, which is never valid''
        else if len > max_frame_size then
          ProtocolError (''frame announces '' @ dec_nat (unat len) @
                         '' bytes, exceeding the maximum frame size of '' @
                         dec_nat (unat max_frame_size) @ '' bytes'')
        else Inr len)"

record Decoder =
  max_frame_size :: u32
  buffer :: "byte list"
  consumed :: nat

definition mk_Decoder :: "u32 \<Rightarrow> Decoder result" where
  "mk_Decoder max_size =
     (if max_size = 0 \<or> max_size > kAbsoluteMaxFrameSize then
        ProtocolError (''invalid maximum frame size '' @ dec_nat (unat max_size) @ ''; must be in [1, '' @
                       dec_nat (unat kAbsoluteMaxFrameSize) @ '']'')
      else Inr \<lparr>max_frame_size = max_size, buffer = [], consumed = 0\<rparr>)"

text \<open>
  \<open>feed\<close> and \<open>next_frame\<close> return the outcome together with the decoder they leave
  behind: \<open>feed\<close> has already appended the bytes when it throws.
\<close>

definition reclaim :: "Decoder \<Rightarrow> Decoder" where
  "reclaim d =
     (if consumed d > 0 \<and> consumed d = length (buffer d) then d\<lparr>buffer := [], consumed := 0\<rparr>
      else if consumed d > kHeaderSize + unat (max_frame_size d) then
        d\<lparr>buffer := drop (consumed d) (buffer d), consumed := 0\<rparr>
      else d)"

definition feed :: "Decoder \<Rightarrow> byte list \<Rightarrow> unit result \<times> Decoder" where
  "feed d data =
     (let d1 = reclaim d;
          d2 = d1\<lparr>buffer := buffer d1 @ data\<rparr> in
      if length (buffer d2) - consumed d2 \<ge> kHeaderSize then
        (bindE (decode_length (take kHeaderSize (drop (consumed d2) (buffer d2)))
                              (max_frame_size d2)) (\<lambda>_. Inr ()), d2)
      else (Inr (), d2))"

definition next_frame :: "Decoder \<Rightarrow> string option result \<times> Decoder" where
  "next_frame d =
     (let available = length (buffer d) - consumed d in
      if available < kHeaderSize then (Inr None, d)
      else
        case decode_length (take kHeaderSize (drop (consumed d) (buffer d))) (max_frame_size d) of
          Inl e \<Rightarrow> (Inl e, d)
        | Inr len \<Rightarrow>
            if available < kHeaderSize + unat len then (Inr None, d)
            else
              let payload = string_of (take (unat len) (drop (consumed d + kHeaderSize) (buffer d)));
                  d1 = d\<lparr>consumed := consumed d + kHeaderSize + unat len\<rparr>;
                  d2 = (if consumed d1 = length (buffer d1) then d1\<lparr>buffer := [], consumed := 0\<rparr>
                        else d1) in
              (Inr (Some payload), d2))"

definition buffered_bytes :: "Decoder \<Rightarrow> nat" where
  "buffered_bytes d = length (buffer d)"

definition reset_decoder :: "Decoder \<Rightarrow> Decoder" where
  "reset_decoder d = d\<lparr>buffer := [], consumed := 0\<rparr>"

section \<open>The big-endian prefix\<close>

lemma be32_roundtrip:
  "push_bit 24 (ucast (ucast (drop_bit 24 w AND 0xFF :: u32) :: byte)) OR
   push_bit 16 (ucast (ucast (drop_bit 16 w AND 0xFF :: u32) :: byte)) OR
   push_bit 8 (ucast (ucast (drop_bit 8 w AND 0xFF :: u32) :: byte)) OR
   ucast (ucast (w AND 0xFF :: u32) :: byte) = (w :: u32)"
proof (rule bit_word_eqI)
  have ff: "(0xFF :: u32) = mask 8" by (simp add: mask_eq_exp_minus_1)
  fix n :: nat
  assume n: "n < LENGTH(32)"
  consider "n < 8" | "8 \<le> n \<and> n < 16" | "16 \<le> n \<and> n < 24" | "24 \<le> n" by linarith
  then show "bit (push_bit 24 (ucast (ucast (drop_bit 24 w AND 0xFF :: u32) :: byte)) OR
     push_bit 16 (ucast (ucast (drop_bit 16 w AND 0xFF :: u32) :: byte)) OR
     push_bit 8 (ucast (ucast (drop_bit 8 w AND 0xFF :: u32) :: byte)) OR
     ucast (ucast (w AND 0xFF :: u32) :: byte) :: u32) n \<longleftrightarrow> bit w n"
    unfolding ff by cases (use n in \<open>auto simp: bit_simps\<close>)
qed

lemma unat_lt2p_32: "unat (w :: u32) < 2 ^ 32"
  by (rule order_less_le_trans [OF unsigned_less]) simp

lemma decode_length_eq_Inr_iff:
  "decode_length h m = Inr n \<longleftrightarrow>
   length h = 4 \<and>
   n = push_bit 24 (ucast (h ! 0)) OR push_bit 16 (ucast (h ! 1)) OR
       push_bit 8 (ucast (h ! 2)) OR ucast (h ! 3) \<and> n \<noteq> 0 \<and> n \<le> m"
  by (auto simp: decode_length_def kHeaderSize_def Let_def not_less)

lemma decode_length_bounds: "decode_length h m = Inr n \<Longrightarrow> 0 < unat n \<and> unat n \<le> unat m"
  by (auto simp: decode_length_eq_Inr_iff word_le_nat_alt unat_gt_0)

lemma decode_length_cases: "throws Protocol (decode_length h m) \<or> (\<exists>n. decode_length h m = Inr n)"
  by (simp add: decode_length_def Let_def)

text \<open>What \<open>encode\<close> puts on the wire, as a function of the payload alone.\<close>

definition frame_of :: "string \<Rightarrow> byte list" where
  "frame_of payload =
     (let len = word_of_nat (length payload) :: u32 in
      [ucast (drop_bit 24 len AND 0xFF), ucast (drop_bit 16 len AND 0xFF),
       ucast (drop_bit 8 len AND 0xFF), ucast (len AND 0xFF)] @ bytes_of payload)"

definition encodable :: "u32 \<Rightarrow> string \<Rightarrow> bool" where
  "encodable m payload \<longleftrightarrow>
     m \<le> kAbsoluteMaxFrameSize \<and> payload \<noteq> [] \<and> length payload \<le> unat m"

lemma encode_eq: "encode payload m = Inr bs \<longleftrightarrow> encodable m payload \<and> bs = frame_of payload"
  by (auto simp: encode_def encodable_def frame_of_def Let_def not_less)

lemma encode_throws: "\<not> encodable m payload \<Longrightarrow> throws Protocol (encode payload m)"
  by (auto simp: encode_def encodable_def Let_def not_less)

lemma length_frame_of [simp]: "length (frame_of p) = 4 + length p"
  by (simp add: frame_of_def Let_def)

lemma drop_frame_of [simp]: "drop 4 (frame_of p) = bytes_of p"
  by (simp add: frame_of_def Let_def)

lemma decode_frame_of:
  assumes "encodable m p"
  shows "decode_length (take 4 (frame_of p @ r)) m = Inr (word_of_nat (length p))"
proof -
  let ?n = "word_of_nat (length p) :: u32"
  have "length p < 2 ^ LENGTH(32)"
    using assms unat_lt2p_32 [of m] by (simp add: encodable_def)
  then have u: "unat ?n = length p" by (simp add: unat_of_nat)
  have "?n \<noteq> 0" using assms u by (metis encodable_def length_0_conv unat_0)
  moreover have "?n \<le> m" using assms u by (simp add: encodable_def word_le_nat_alt)
  ultimately show ?thesis
    by (simp add: decode_length_eq_Inr_iff frame_of_def Let_def be32_roundtrip)
qed

lemma unat_frame_length:
  assumes "encodable m p"
  shows "unat (word_of_nat (length p) :: u32) = length p"
proof -
  have "length p < 2 ^ LENGTH(32)"
    using assms unat_lt2p_32 [of m] by (simp add: encodable_def)
  then show ?thesis by (simp add: unat_of_nat)
qed

section \<open>The stream contract\<close>

text \<open>
  The abstract reader: on the unconsumed bytes, either the header is still incomplete, or it
  is illegal, or the body is still incomplete, or the first frame splits off.
\<close>

definition split_frame :: "u32 \<Rightarrow> byte list \<Rightarrow> (string \<times> byte list) option result" where
  "split_frame m s =
     (if length s < 4 then Inr None
      else bindE (decode_length (take 4 s) m) (\<lambda>len.
        if length s < 4 + unat len then Inr None
        else Inr (Some (string_of (take (unat len) (drop 4 s)), drop (4 + unat len) s))))"

definition check_header :: "u32 \<Rightarrow> byte list \<Rightarrow> unit result" where
  "check_header m s =
     (if length s < 4 then Inr () else bindE (decode_length (take 4 s) m) (\<lambda>_. Inr ()))"

lemma split_frame_frame_of:
  "encodable m p \<Longrightarrow> split_frame m (frame_of p @ r) = Inr (Some (p, r))"
  using decode_frame_of [of m p r]
  by (simp add: split_frame_def unat_frame_length flip: drop_drop)

lemma split_frame_None_length:
  "split_frame m s = Inr None \<Longrightarrow> length s < 4 + unat m"
  by (auto simp: split_frame_def bindE_eq_Inr_iff dest!: decode_length_bounds split: if_splits)

lemma split_frame_SomeE:
  assumes "split_frame m s = Inr (Some (p, r))"
  obtains n where "decode_length (take 4 s) m = Inr n" "4 + unat n \<le> length s"
    "p = string_of (take (unat n) (drop 4 s))" "r = drop (4 + unat n) s" "0 < unat n" "unat n \<le> unat m"
  using assms decode_length_bounds [of "take 4 s" m]
  by (auto simp: split_frame_def bindE_eq_Inr_iff not_less split: if_splits)

lemma split_frame_Some_length:
  assumes "split_frame m s = Inr (Some (p, r))"
  shows "length s = 4 + length p + length r" "0 < length p" "length p \<le> unat m"
  using assms by (elim split_frame_SomeE; simp)+

lemma split_frame_prefix:
  assumes "split_frame m s = Inr (Some (p, r))"
  shows "split_frame m (s @ t) = Inr (Some (p, r @ t))"
  using assms by (rule split_frame_SomeE) (simp add: split_frame_def)

lemma split_frame_error_prefix:
  "split_frame m s = Inl e \<Longrightarrow> split_frame m (s @ t) = Inl e"
  by (auto simp: split_frame_def bindE_eq_Inl_iff split: if_splits)

text \<open>
  The contract of an incremental frame reader over a state type \<open>'s\<close>, in terms of the
  bytes it still has to deliver.
\<close>

locale frame_stream =
  fixes feed_op :: "'s \<Rightarrow> byte list \<Rightarrow> unit result \<times> 's"
    and next_op :: "'s \<Rightarrow> string option result \<times> 's"
    and pending_of :: "'s \<Rightarrow> byte list"
    and limit :: "'s \<Rightarrow> u32"
    and invar :: "'s \<Rightarrow> bool"
  assumes feed_result: "invar s \<Longrightarrow> fst (feed_op s bs) = check_header (limit s) (pending_of s @ bs)"
    and feed_pending: "invar s \<Longrightarrow> pending_of (snd (feed_op s bs)) = pending_of s @ bs"
    and feed_invar: "invar s \<Longrightarrow> invar (snd (feed_op s bs))"
    and feed_limit: "limit (snd (feed_op s bs)) = limit s"
    and next_result: "invar s \<Longrightarrow>
      fst (next_op s) = bindE (split_frame (limit s) (pending_of s)) (\<lambda>f. Inr (map_option fst f))"
    and next_pending: "invar s \<Longrightarrow> split_frame (limit s) (pending_of s) = Inr (Some (p, r)) \<Longrightarrow>
      pending_of (snd (next_op s)) = r"
    and next_keep: "invar s \<Longrightarrow> fst (next_op s) = Inr None \<Longrightarrow> snd (next_op s) = s"
    and next_invar: "invar s \<Longrightarrow> invar (snd (next_op s))"
    and next_limit: "limit (snd (next_op s)) = limit s"
begin

lemma next_NoneD: "invar s \<Longrightarrow> next_op s = (Inr None, t) \<Longrightarrow>
  t = s \<and> length (pending_of s) < 4 + unat (limit s)"
  using next_result [of s] next_keep [of s]
  by (auto simp: bindE_eq_Inr_iff dest!: sym [of "Inr _"] split_frame_None_length)

lemma next_SomeE:
  assumes "invar s" "next_op s = (Inr (Some p), t)"
  obtains r where "split_frame (limit s) (pending_of s) = Inr (Some (p, r))"
    "pending_of t = r" "invar t" "limit t = limit s"
proof -
  from next_result [OF assms(1)] assms(2)
  obtain r where r: "split_frame (limit s) (pending_of s) = Inr (Some (p, r))"
    by (auto simp: bindE_eq_Inr_iff dest!: sym [of "Inr _"])
  then show thesis
    using that next_pending [OF assms(1) r] next_invar [OF assms(1)] next_limit [of s] assms(2)
    by simp
qed

lemma next_delivers:
  assumes "invar s" "encodable (limit s) p" "pending_of s = frame_of p @ r"
  shows "fst (next_op s) = Inr (Some p)" "pending_of (snd (next_op s)) = r"
proof -
  have sp: "split_frame (limit s) (pending_of s) = Inr (Some (p, r))"
    using assms by (simp add: split_frame_frame_of)
  then show "fst (next_op s) = Inr (Some p)"
    by (simp add: next_result [OF assms(1)])
  show "pending_of (snd (next_op s)) = r"
    by (rule next_pending [OF assms(1) sp])
qed

text \<open>Progress: a delivered frame frees at least five bytes, an incomplete one bounds the rest.\<close>

lemma next_Some_shrinks:
  "invar s \<Longrightarrow> next_op s = (Inr (Some p), t) \<Longrightarrow> length (pending_of t) + 5 \<le> length (pending_of s)"
  by (erule (1) next_SomeE) (frule split_frame_Some_length(1), drule split_frame_Some_length(2), simp add: Suc_le_eq)

end

section \<open>The decoder refines the contract\<close>

definition pending :: "Decoder \<Rightarrow> byte list" where
  "pending d = drop (consumed d) (buffer d)"

definition wf_decoder :: "Decoder \<Rightarrow> bool" where
  "wf_decoder d \<longleftrightarrow> consumed d \<le> length (buffer d)"

lemma reclaim_props:
  "wf_decoder d \<Longrightarrow> wf_decoder (reclaim d)"
  "pending (reclaim d) = pending d"
  "max_frame_size (reclaim d) = max_frame_size d"
  "wf_decoder d \<Longrightarrow> consumed (reclaim d) \<le> 4 + unat (max_frame_size d)"
  by (auto simp: reclaim_def pending_def wf_decoder_def kHeaderSize_def)

lemma feed_pending_eq:
  assumes "wf_decoder d"
  shows "pending (snd (feed d bs)) = pending d @ bs" "wf_decoder (snd (feed d bs))"
    "max_frame_size (snd (feed d bs)) = max_frame_size d"
proof -
  have *: "drop (consumed (reclaim d)) (buffer (reclaim d)) = pending d"
    "consumed (reclaim d) \<le> length (buffer (reclaim d))"
    using reclaim_props [of d] assms by (simp_all add: pending_def wf_decoder_def)
  then show "pending (snd (feed d bs)) = pending d @ bs" "wf_decoder (snd (feed d bs))"
    by (simp_all add: feed_def Let_def pending_def wf_decoder_def)
  show "max_frame_size (snd (feed d bs)) = max_frame_size d"
    by (simp add: feed_def Let_def reclaim_props)
qed

lemma feed_result_eq:
  assumes "wf_decoder d"
  shows "fst (feed d bs) = check_header (max_frame_size d) (pending d @ bs)"
proof -
  let ?r = "reclaim d"
  have "drop (consumed ?r) (buffer ?r) = pending d" "consumed ?r \<le> length (buffer ?r)"
    using reclaim_props [of d] assms by (simp_all add: pending_def wf_decoder_def)
  then have p: "drop (consumed ?r) (buffer ?r @ bs) = pending d @ bs" by simp
  then have "length (buffer ?r @ bs) - consumed ?r = length (pending d @ bs)"
    by (metis length_drop)
  then show ?thesis
    using p by (simp add: feed_def Let_def check_header_def kHeaderSize_def reclaim_props
        del: drop_append take_append)
qed

lemma next_frame_eq:
  assumes "wf_decoder d"
  shows "fst (next_frame d) =
      bindE (split_frame (max_frame_size d) (pending d)) (\<lambda>f. Inr (map_option fst f))"
proof -
  have "length (buffer d) - consumed d = length (pending d)" by (simp add: pending_def)
  then show ?thesis
    by (auto simp: next_frame_def split_frame_def Let_def pending_def kHeaderSize_def
        add.commute split: sum.split)
qed

lemma next_frame_state:
  assumes "wf_decoder d"
  shows "wf_decoder (snd (next_frame d))" "max_frame_size (snd (next_frame d)) = max_frame_size d"
    "split_frame (max_frame_size d) (pending d) = Inr (Some (p, r)) \<Longrightarrow>
       pending (snd (next_frame d)) = r"
    "fst (next_frame d) = Inr None \<Longrightarrow> snd (next_frame d) = d"
proof -
  show "wf_decoder (snd (next_frame d))" "max_frame_size (snd (next_frame d)) = max_frame_size d"
    using assms by (auto simp: next_frame_def Let_def wf_decoder_def split: sum.split)
  show "fst (next_frame d) = Inr None \<Longrightarrow> snd (next_frame d) = d"
    by (auto simp: next_frame_def Let_def split: sum.splits if_splits)
  assume "split_frame (max_frame_size d) (pending d) = Inr (Some (p, r))"
  then show "pending (snd (next_frame d)) = r"
    by (rule split_frame_SomeE)
       (auto simp: next_frame_def Let_def pending_def kHeaderSize_def not_less add.commute add.left_commute)
qed

interpretation dec: frame_stream feed next_frame pending max_frame_size wf_decoder
proof unfold_locales
  show "max_frame_size (snd (feed s bs)) = max_frame_size s" for s bs
    by (simp add: feed_def Let_def reclaim_props)
  show "max_frame_size (snd (next_frame s)) = max_frame_size s" for s
    by (simp add: next_frame_def Let_def split: sum.split)
qed (simp_all add: feed_result_eq feed_pending_eq next_frame_eq next_frame_state)

section \<open>Reading a chunked stream\<close>

text \<open>
  The reference reader splits a whole byte stream into frames: the frames, whether the stream
  became illegal, and the bytes of the unfinished last frame.
\<close>

function frames_of :: "u32 \<Rightarrow> byte list \<Rightarrow> string list \<times> unit result \<times> byte list" where
  "frames_of m s =
     (case split_frame m s of
        Inl e \<Rightarrow> ([], Inl e, s)
      | Inr None \<Rightarrow> ([], Inr (), s)
      | Inr (Some (p, r)) \<Rightarrow> (case frames_of m r of (ps, e, t) \<Rightarrow> (p # ps, e, t)))"
  by pat_completeness auto
termination
  by (relation "measure (\<lambda>(m, s). length s)") (auto dest: split_frame_Some_length)

declare frames_of.simps [simp del]

text \<open>
  The loop of the decoder's users (\<open>while (auto frame = decoder.next_frame())\<close>), and a
  whole connection's worth of reads: feed a chunk, drain, feed the next.
\<close>

lemma next_frame_Some_wf: "next_frame d = (Inr (Some p), t) \<Longrightarrow> wf_decoder d"
  by (auto simp: next_frame_def Let_def wf_decoder_def kHeaderSize_def
      split: if_splits sum.splits)

function drain :: "Decoder \<Rightarrow> string list \<times> unit result \<times> Decoder" where
  "drain d =
     (case next_frame d of
        (Inl e, d') \<Rightarrow> ([], Inl e, d')
      | (Inr None, d') \<Rightarrow> ([], Inr (), d')
      | (Inr (Some p), d') \<Rightarrow> (case drain d' of (ps, e, t) \<Rightarrow> (p # ps, e, t)))"
  by pat_completeness auto
termination
proof (relation "measure (length \<circ> pending)")
  fix d r d' f p
  assume "(r, d') = next_frame d" "r = Inr f" "f = Some p"
  then have *: "next_frame d = (Inr (Some p), d')" by simp
  show "(d', d) \<in> measure (length \<circ> pending)"
    using dec.next_Some_shrinks [OF next_frame_Some_wf [OF *] *] by simp
qed simp

declare drain.simps [simp del]

fun receive :: "Decoder \<Rightarrow> byte list list \<Rightarrow> string list \<times> unit result \<times> Decoder" where
  "receive d [] = ([], Inr (), d)"
| "receive d (c # cs) =
     (case feed d c of
        (Inl e, d') \<Rightarrow> ([], Inl e, d')
      | (Inr _, d') \<Rightarrow>
          (case drain d' of
             (ps, Inl e, t) \<Rightarrow> (ps, Inl e, t)
           | (ps, Inr _, t) \<Rightarrow> (case receive t cs of (qs, e, u) \<Rightarrow> (ps @ qs, e, u))))"

lemma frames_of_append:
  assumes "frames_of m s = (ps, r, u)"
  shows "frames_of m (s @ t) =
    (case r of Inl e \<Rightarrow> (ps, Inl e, u @ t)
     | Inr _ \<Rightarrow> (case frames_of m (u @ t) of (qs, e, v) \<Rightarrow> (ps @ qs, e, v)))"
  using assms
proof (induction m s arbitrary: ps r u rule: frames_of.induct)
  case (1 m s)
  show ?case
  proof (cases "split_frame m s")
    case (Inl e)
    then have "ps = []" "r = Inl e" "u = s" using "1.prems" by (simp_all add: frames_of.simps [of m s])
    then show ?thesis using split_frame_error_prefix [OF Inl, of t]
      by (simp add: frames_of.simps [of m "s @ t"])
  next
    case (Inr f)
    show ?thesis
    proof (cases f)
      case None
      then show ?thesis using Inr "1.prems" by (auto simp: frames_of.simps [of m s] split: prod.split)
    next
      case (Some pr)
      obtain p q where pr: "pr = (p, q)" by (cases pr)
      obtain qs r' u' where q: "frames_of m q = (qs, r', u')" by (cases "frames_of m q") auto
      have sp: "split_frame m s = Inr (Some (p, q))" using Inr Some pr by simp
      have "ps = p # qs" "r = r'" "u = u'" using "1.prems" sp q by (simp_all add: frames_of.simps [of m s])
      then show ?thesis
        using "1.IH" [OF Inr Some pr [symmetric] q] split_frame_prefix [OF sp, of t]
        by (simp add: frames_of.simps [of m "s @ t"] split: sum.split prod.split)
    qed
  qed
qed

lemma frames_of_rest:
  assumes "frames_of m s = (ps, r, u)"
  shows "split_frame m u = bindE r (\<lambda>_. Inr None)"
  using assms
  by (induction m s arbitrary: ps r u rule: frames_of.induct)
     (subst (asm) (2) frames_of.simps, auto split: sum.splits option.splits prod.splits)

lemma drain_eq_frames:
  assumes "wf_decoder d"
  shows "case frames_of (max_frame_size d) (pending d) of (ps, r, u) \<Rightarrow>
    \<exists>t. drain d = (ps, r, t) \<and> wf_decoder t \<and> max_frame_size t = max_frame_size d \<and>
        (r = Inr () \<longrightarrow> pending t = u)"
  using assms
proof (induction d rule: drain.induct)
  case (1 d)
  let ?m = "max_frame_size d"
  note nx = dec.next_result [OF "1.prems"]
  note st = dec.next_invar [OF "1.prems"] dec.next_limit [of d]
  obtain o' d' where nd: "next_frame d = (o', d')" by (cases "next_frame d")
  show ?case
  proof (cases "split_frame ?m (pending d)")
    case (Inl e)
    then show ?thesis using nx nd st by (simp add: drain.simps [of d] frames_of.simps [of ?m])
  next
    case (Inr f)
    show ?thesis
    proof (cases f)
      case None
      then show ?thesis using Inr nx nd st dec.next_keep [OF "1.prems"]
        by (simp add: drain.simps [of d] frames_of.simps [of ?m])
    next
      case (Some pr)
      obtain p q where pr: "pr = (p, q)" by (cases pr)
      then have sp: "split_frame ?m (pending d) = Inr (Some (p, q))" using Inr Some by simp
      have o': "o' = Inr (Some p)" using nx nd sp by simp
      have d': "wf_decoder d'" "max_frame_size d' = ?m" "pending d' = q"
        using st nd dec.next_pending [OF "1.prems" sp] by simp_all
      have "case frames_of ?m q of (ps, r, u) \<Rightarrow>
          \<exists>t. drain d' = (ps, r, t) \<and> wf_decoder t \<and> max_frame_size t = ?m \<and>
              (r = Inr () \<longrightarrow> pending t = u)"
        using "1.IH" [OF nd [symmetric] o' refl d'(1)] d' by simp
      then show ?thesis using nd o' sp
        by (auto simp: drain.simps [of d] frames_of.simps [of ?m "pending d"] split: prod.splits)
    qed
  qed
qed

lemma check_header_split_frame:
  "check_header m s = Inl e \<longleftrightarrow> split_frame m s = Inl e"
  by (auto simp: check_header_def split_frame_def bindE_eq_Inl_iff split: if_splits)

lemma feed_eq:
  assumes "wf_decoder d"
  obtains r t where "feed d c = (r, t)" "r = check_header (max_frame_size d) (pending d @ c)"
    "wf_decoder t" "pending t = pending d @ c" "max_frame_size t = max_frame_size d"
  using dec.feed_result [OF assms, of c] dec.feed_pending [OF assms, of c]
    dec.feed_invar [OF assms, of c] dec.feed_limit [of d c]
  by (cases "feed d c") auto

lemma receive_frames_of:
  assumes "wf_decoder d" and "split_frame (max_frame_size d) (pending d) = Inr None"
  shows "case frames_of (max_frame_size d) (pending d @ concat cs) of (ps, r, u) \<Rightarrow>
    \<exists>t. receive d cs = (ps, r, t) \<and> (r = Inr () \<longrightarrow> wf_decoder t \<and> pending t = u)"
  using assms
proof (induction cs arbitrary: d)
  case Nil
  then show ?case by (simp add: frames_of.simps [of _ "pending d"])
next
  case (Cons c cs)
  let ?m = "max_frame_size d" and ?s = "pending d @ c"
  obtain r0 d1 where f: "feed d c = (r0, d1)" "r0 = check_header ?m ?s"
    and d1: "wf_decoder d1" "pending d1 = ?s" "max_frame_size d1 = ?m"
    by (rule feed_eq [OF Cons.prems(1)])
  show ?case
  proof (cases r0)
    case (Inl e)
    then have "split_frame ?m (?s @ concat cs) = Inl e"
      using f(2) check_header_split_frame split_frame_error_prefix by metis
    then show ?thesis using Inl f(1) by (simp add: frames_of.simps [of ?m "pending d @ c @ concat cs"])
  next
    case (Inr un)
    obtain ps r u where fr: "frames_of ?m ?s = (ps, r, u)" by (cases "frames_of ?m ?s") auto
    obtain d2 where d2: "drain d1 = (ps, r, d2)" "wf_decoder d2" "max_frame_size d2 = ?m"
      "r = Inr () \<longrightarrow> pending d2 = u"
      using drain_eq_frames [OF d1(1)] fr d1 by auto
    note ap = frames_of_append [OF fr, of "concat cs"]
    show ?thesis
    proof (cases r)
      case (Inl e)
      then show ?thesis using f(1) \<open>r0 = Inr un\<close> d2 ap by simp
    next
      case (Inr x)
      have "split_frame ?m u = Inr None" using frames_of_rest [OF fr] Inr by simp
      then show ?thesis
        using Cons.IH [OF d2(2)] d2 Inr f(1) \<open>r0 = Inr un\<close> ap by (auto split: prod.splits)
    qed
  qed
qed

section \<open>Properties\<close>

text \<open>The value of a big-endian byte sequence, as an ordinary number.\<close>

definition be_value :: "byte list \<Rightarrow> nat" where
  "be_value bs = foldl (\<lambda>n b. 256 * n + unat b) 0 bs"

lemma unat_be32:
  "unat (push_bit 24 (ucast a) OR push_bit 16 (ucast b) OR push_bit 8 (ucast c) OR ucast d :: u32) =
   be_value [a, b, c, d]" for a b c d :: byte
proof -
  have bnd: "unat x < 256" for x :: byte
    using unsigned_less [of x] by simp
  have uc: "unat (ucast x :: u32) = unat x" for x :: byte
    using bnd [of x] by (simp add: unsigned_ucast_eq take_bit_nat_eq_self)
  have or: "push_bit 24 (ucast a) OR push_bit 16 (ucast b) OR push_bit 8 (ucast c) OR ucast d =
    (push_bit 24 (ucast a) + (push_bit 16 (ucast b) + (push_bit 8 (ucast c) + ucast d)) :: u32)"
    by (subst disjunctive_add_eq_or, rule bit_word_eqI, force simp: bit_simps
        dest: bit_imp_le_length)+ simp
  show ?thesis
    unfolding or using bnd [of a] bnd [of b] bnd [of c] bnd [of d]
    by (simp add: be_value_def push_bit_eq_mult unat_word_ariths uc)
qed

lemma decode_length_be_value:
  "decode_length h m = Inr n \<longleftrightarrow>
     length h = 4 \<and> be_value h = unat n \<and> 0 < be_value h \<and> be_value h \<le> unat m"
proof (cases "length h = 4")
  case True
  then have h: "h = [h ! 0, h ! 1, h ! 2, h ! 3]"
    by (auto intro!: nth_equalityI simp: less_Suc_eq numeral_eq_Suc)
  define w :: u32 where "w = push_bit 24 (ucast (h ! 0)) OR push_bit 16 (ucast (h ! 1)) OR
      push_bit 8 (ucast (h ! 2)) OR ucast (h ! 3)"
  have v: "be_value h = unat w"
    unfolding w_def unat_be32 by (rule arg_cong [OF h])
  show ?thesis
    unfolding decode_length_eq_Inr_iff w_def [symmetric] v
    using True by (auto simp: word_le_nat_alt word_unat_eq_iff)
next
  case False
  then show ?thesis by (simp add: decode_length_eq_Inr_iff)
qed

lemma be_value_inj:
  assumes "length g = 4" "length h = 4" "be_value g = be_value h"
  shows "g = h"
proof -
  have split4: "xs = [xs ! 0, xs ! 1, xs ! 2, xs ! 3]" if "length xs = 4" for xs :: "byte list"
    using that by (auto intro!: nth_equalityI simp: less_Suc_eq numeral_eq_Suc)
  have digits: "(256 * a + b) = 256 * a' + b' \<longleftrightarrow> a = a' \<and> b = b'"
    if "b < 256" "b' < 256" for a b a' b' :: nat
  proof -
    have "(256 * x + y) div 256 = x" "(256 * x + y) mod 256 = y" if "y < 256" for x y :: nat
      using that by simp_all
    then show ?thesis using that by metis
  qed
  have bnd: "unat x < 256" for x :: byte
    using unsigned_less [of x] by simp
  have v: "be_value xs =
      256 * (256 * (256 * unat (xs ! 0) + unat (xs ! 1)) + unat (xs ! 2)) + unat (xs ! 3)"
    if "length xs = 4" for xs :: "byte list"
    by (subst split4 [OF that]) (simp add: be_value_def)
  have "g ! 0 = h ! 0" "g ! 1 = h ! 1" "g ! 2 = h ! 2" "g ! 3 = h ! 3"
    using assms(3) unfolding v [OF assms(1)] v [OF assms(2)] word_unat_eq_iff
    by (simp_all only: digits [OF bnd bnd])
  then show ?thesis
    using split4 [OF assms(1)] split4 [OF assms(2)] by metis
qed

lemma frame_of_iff:
  assumes "encodable m p"
  shows "bs = frame_of p \<longleftrightarrow>
    length bs = 4 + length p \<and> be_value (take 4 bs) = length p \<and> drop 4 bs = bytes_of p"
proof
  assume "bs = frame_of p"
  then show "length bs = 4 + length p \<and> be_value (take 4 bs) = length p \<and> drop 4 bs = bytes_of p"
    using decode_frame_of [OF assms, of "[]"] unat_frame_length [OF assms]
    by (simp add: decode_length_be_value)
next
  assume a: "length bs = 4 + length p \<and> be_value (take 4 bs) = length p \<and> drop 4 bs = bytes_of p"
  have "take 4 bs = take 4 (frame_of p)"
    using a decode_frame_of [OF assms, of "[]"] unat_frame_length [OF assms]
    by (intro be_value_inj) (simp_all add: decode_length_be_value)
  then show "bs = frame_of p"
    using a by (metis append_take_drop_id drop_frame_of)
qed

text \<open>
  The wire format of \<open>encode\<close>: it succeeds exactly when the configured maximum respects the
  64 MiB ceiling and the payload has between 1 and that many bytes, and its result is then the
  payload behind a four-byte big-endian count of the payload bytes; every other call throws a
  \<open>ProtocolError\<close>.
\<close>

theorem encode_wire_format:
  "(encode payload m = Inr bs \<longleftrightarrow>
     m \<le> kAbsoluteMaxFrameSize \<and> 0 < length payload \<and> length payload \<le> unat m \<and>
     length bs = 4 + length payload \<and> be_value (take 4 bs) = length payload \<and>
     drop 4 bs = bytes_of payload) \<and>
   (throws Protocol (encode payload m) \<longleftrightarrow>
     m > kAbsoluteMaxFrameSize \<or> payload = [] \<or> length payload > unat m)"
proof (cases "encodable m payload")
  case True
  then have "encode payload m = Inr (frame_of payload)" by (simp add: encode_eq)
  then show ?thesis using True frame_of_iff [OF True, of bs]
    by (auto simp: encodable_def)
next
  case False
  then show ?thesis using encode_throws [OF False] encode_eq [of payload m bs]
    by (auto simp: encodable_def not_le)
qed

text \<open>
  C10.  Reassembly: whatever way the bytes of a sequence of encoded messages are cut into reads, a
  fresh decoder that is fed the reads one after the other and drained after each delivers exactly
  those messages, in order, without an error, and is left with nothing pending.
\<close>

theorem decoder_reassembles:
  assumes "mk_Decoder m = Inr d" and "map (\<lambda>p. encode p m) ps = map Inr fs"
    and "concat reads = concat fs"
  shows "\<exists>t. receive d reads = (ps, Inr (), t) \<and> pending t = []"
proof -
  have d: "wf_decoder d" "max_frame_size d = m" "pending d = []"
    using assms(1) by (auto simp: mk_Decoder_def wf_decoder_def pending_def split: if_splits)
  have fs: "frames_of m (concat fs) = (ps, Inr (), [])"
    using assms(2)
  proof (induction ps arbitrary: fs)
    case Nil
    then show ?case by (simp add: frames_of.simps [of m "[]"] split_frame_def)
  next
    case (Cons p ps)
    then obtain gs where "fs = frame_of p # gs" "encodable m p" "map (\<lambda>p. encode p m) ps = map Inr gs"
      by (cases fs) (auto simp: encode_eq)
    then show ?case using Cons.IH [of gs]
      by (simp add: frames_of.simps [of m "frame_of p @ concat gs"] split_frame_frame_of)
  qed
  show ?thesis
    using receive_frames_of [OF d(1), of reads] d fs assms(3) by (auto simp: split_frame_def)
qed

theorem decoder_reassembles_witness:
  "\<exists>d t. mk_Decoder 16 = Inr d \<and>
     receive d [[0, 0], [0, 2, 104], [105, 0, 0, 0, 1], [33]] = ([''hi'', ''!''], Inr (), t) \<and>
     pending t = []"
proof -
  define d where "d = \<lparr>max_frame_size = 16, buffer = [], consumed = 0\<rparr>"
  have 1: "mk_Decoder 16 = Inr d"
    by (simp add: mk_Decoder_def kAbsoluteMaxFrameSize_def d_def)
  have 2: "map (\<lambda>p. encode p 16) [''hi'', ''!''] = map Inr [[0, 0, 0, 2, 104, 105], [0, 0, 0, 1, 33]]"
    by code_simp
  show ?thesis
    using 1 decoder_reassembles [OF 1 2, of "[[0, 0], [0, 2, 104], [105, 0, 0, 0, 1], [33]]"]
    by simp
qed

text \<open>
  C28.  Reading is independent of how the stream is cut: for any bytes at all, well-formed or not,
  the chunked reader delivers the frames of the concatenated stream and ends in the same outcome
  as the reference reader on the whole stream, so an illegal header stops it with the same error
  however the bytes arrive.
\<close>

theorem decoder_chunking_independent:
  assumes "mk_Decoder m = Inr d"
  shows "fst (receive d reads) = fst (frames_of m (concat reads)) \<and>
    fst (snd (receive d reads)) = fst (snd (frames_of m (concat reads)))"
proof -
  have d: "wf_decoder d" "max_frame_size d = m" "pending d = []"
    using assms by (auto simp: mk_Decoder_def wf_decoder_def pending_def split: if_splits)
  then show ?thesis
    using receive_frames_of [OF d(1), of reads] by (auto simp: split_frame_def split: prod.splits)
qed

theorem decoder_chunking_independent_witness:
  "\<exists>d. mk_Decoder 4 = Inr d \<and> fst (receive d [[0, 0, 0, 1], [65, 0, 0], [0, 9, 1]]) = [''A''] \<and>
     throws Protocol (fst (snd (receive d [[0, 0, 0, 1], [65, 0, 0], [0, 9, 1]])))"
proof -
  define d where "d = \<lparr>max_frame_size = 4, buffer = [], consumed = 0\<rparr>"
  have 1: "mk_Decoder 4 = Inr d"
    by (simp add: mk_Decoder_def kAbsoluteMaxFrameSize_def d_def)
  have h: "decode_length [0, 0, 0, 1] 4 = Inr 1"
    by (simp add: decode_length_be_value be_value_def)
  have s1: "split_frame 4 [0, 0, 0, 1, 65, 0, 0, 0, 9, 1] = Inr (Some (''A'', [0, 0, 0, 9, 1]))"
    by (simp add: split_frame_def h string_of_def) code_simp
  have s2: "throws Protocol (decode_length [0, 0, 0, 9] 4)"
    using decode_length_cases [of "[0, 0, 0, 9]" 4] by (auto simp: decode_length_be_value be_value_def)
  then obtain e where e: "decode_length [0, 0, 0, 9] 4 = Inl e" "throws Protocol (Inl e :: unit result)"
    by (auto simp: throws_def throw_sub_def)
  have "frames_of 4 [0, 0, 0, 9, 1] = ([], Inl e, [0, 0, 0, 9, 1])"
    using e by (subst frames_of.simps) (simp add: split_frame_def)
  then have "frames_of 4 (concat [[0, 0, 0, 1], [65, 0, 0], [0, 9, 1]]) = ([''A''], Inl e, [0, 0, 0, 9, 1])"
    by (subst frames_of.simps) (simp add: s1)
  then show ?thesis
    using 1 e(2) decoder_chunking_independent [OF 1, of "[[0, 0, 0, 1], [65, 0, 0], [0, 9, 1]]"]
    by simp
qed

text \<open>
  A hostile header is refused on its four bytes alone: as soon as the unconsumed bytes hold a
  complete header, \<open>feed\<close> throws a \<open>ProtocolError\<close> exactly when the announced length is
  zero or above the configured maximum, however little of the body has arrived.
\<close>

theorem feed_rejects_illegal_header:
  assumes "wf_decoder d" and "4 \<le> length (pending d @ data)"
  shows "throws Protocol (fst (feed d data)) \<longleftrightarrow>
    be_value (take 4 (pending d @ data)) = 0 \<or>
    unat (max_frame_size d) < be_value (take 4 (pending d @ data))"
proof -
  let ?h = "take 4 (pending d @ data)"
  have r: "fst (feed d data) = bindE (decode_length ?h (max_frame_size d)) (\<lambda>_. Inr ())"
    using assms by (simp add: dec.feed_result check_header_def)
  have l: "length ?h = 4" using assms(2) by simp
  show ?thesis
  proof (cases "be_value ?h = 0 \<or> unat (max_frame_size d) < be_value ?h")
    case True
    then have "throws Protocol (decode_length ?h (max_frame_size d))"
      using decode_length_cases [of ?h "max_frame_size d"] by (auto simp: decode_length_be_value)
    then have "throws Protocol (fst (feed d data))" by (simp add: r throws_bindE)
    then show ?thesis using True by blast
  next
    case False
    then have "be_value ?h < 2 ^ 32"
      using unat_lt2p_32 [of "max_frame_size d"] by linarith
    then have "decode_length ?h (max_frame_size d) = Inr (word_of_nat (be_value ?h))"
      using False l by (auto simp: decode_length_be_value unat_of_nat)
    then show ?thesis using r False by simp
  qed
qed

theorem feed_rejects_illegal_header_witness:
  "throws Protocol (fst (feed \<lparr>max_frame_size = 1024, buffer = [7, 0], consumed = 1\<rparr> [0x10, 0, 0]))"
proof -
  let ?d = "\<lparr>max_frame_size = 1024, buffer = [7, 0], consumed = 1\<rparr> :: Decoder"
  have "wf_decoder ?d" "4 \<le> length (pending ?d @ [0x10, 0, 0])"
    by (simp_all add: wf_decoder_def pending_def)
  from feed_rejects_illegal_header [OF this] show ?thesis
    by (simp add: pending_def be_value_def)
qed



section \<open>Progress of a reading loop\<close>

text \<open>
  The room left before the next frame must be complete.  It shrinks with every read that follows an
  unsuccessful \<open>next_frame\<close>, so a loop that alternates the two ends.
\<close>

definition decoder_room :: "Decoder \<Rightarrow> nat" where
  "decoder_room d = kHeaderSize + unat (max_frame_size d) + consumed d - length (buffer d)"

lemma decode_length_bound: "decode_length h m = Inr len \<Longrightarrow> unat len \<le> unat m"
  by (auto simp: decode_length_def Let_def word_le_nat_alt [symmetric] throw_sub_def split: if_splits)

lemma next_frame_None:
  assumes "next_frame d = (Inr None, d')"
  shows "d' = d \<and> length (buffer d) < kHeaderSize + unat (max_frame_size d) + consumed d"
  using assms decode_length_bound [of "take kHeaderSize (drop (consumed d) (buffer d))" "max_frame_size d"]
  by (fastforce simp: next_frame_def Let_def split: if_splits sum.splits)

lemma feed_keeps_max: "feed d data = (r, d') \<Longrightarrow> max_frame_size d' = max_frame_size d"
  by (auto simp: feed_def reclaim_def Let_def split: if_splits)

lemma feed_progress:
  assumes "next_frame d = (Inr None, d1)" and "feed d1 data = (r, d2)" and "data \<noteq> []"
  shows "decoder_room d2 < decoder_room d"
proof -
  obtain n where len: "length data = Suc n" using assms(3) by (cases data) auto
  have d2: "d2 = (reclaim d)\<lparr>buffer := buffer (reclaim d) @ data\<rparr>"
    using next_frame_None [OF assms(1)] assms(2) by (auto simp: feed_def Let_def split: if_splits)
  show ?thesis using next_frame_None [OF assms(1)] len unfolding d2 reclaim_def decoder_room_def kHeaderSize_def
    by (auto split: if_splits)
qed

end
