(* ===== verification/Utf8.thy ===== *)
theory Utf8
  imports Prelude
begin

text \<open>
  \<open>is_valid_utf8\<close> of \<open>src/common/application_protocol.cpp\<close>, the gate every received
  message passes before the JSON parser sees it, and its correctness against the encoding form
  UTF-8 of the Unicode standard: the accepted strings are exactly the concatenations of the
  encodings of Unicode scalar values, so no overlong form, surrogate or out-of-range code point
  gets through.
\<close>

section \<open>Model\<close>

text \<open>The lead byte: number of continuation bytes and the payload bits it carries.\<close>

definition lead_info :: "byte \<Rightarrow> (nat \<times> u32) option" where
  "lead_info first =
     (if (ucast first :: u32) AND 0xE0 = 0xC0 then Some (1, ucast first AND 0x1F)
      else if (ucast first :: u32) AND 0xF0 = 0xE0 then Some (2, ucast first AND 0x0F)
      else if (ucast first :: u32) AND 0xF8 = 0xF0 then Some (3, ucast first AND 0x07)
      else None)"

text \<open>The inner loop over the continuation bytes.\<close>

fun continue_code_point :: "u32 \<Rightarrow> byte list \<Rightarrow> u32 option" where
  "continue_code_point code_point [] = Some code_point"
| "continue_code_point code_point (cont # conts) =
     (if (ucast cont :: u32) AND 0xC0 \<noteq> 0x80 then None
      else continue_code_point (push_bit 6 code_point OR (ucast cont AND 0x3F)) conts)"

definition bad_code_point :: "nat \<Rightarrow> u32 \<Rightarrow> bool" where
  "bad_code_point extra code_point \<longleftrightarrow>
     extra = 1 \<and> code_point < 0x80 \<or> extra = 2 \<and> code_point < 0x800 \<or>
     extra = 3 \<and> code_point < 0x10000 \<or> code_point > 0x10FFFF \<or>
     code_point \<ge> 0xD800 \<and> code_point \<le> 0xDFFF"

text \<open>The outer loop, on the bytes from the cursor to the end.\<close>

function valid_from :: "byte list \<Rightarrow> bool" where
  "valid_from [] = True"
| "valid_from (first # rest) =
     (if first < 0x80 then valid_from rest
      else case lead_info first of
        None \<Rightarrow> False
      | Some (extra, code_point) \<Rightarrow>
          if extra \<ge> length (first # rest) then False
          else case continue_code_point code_point (take extra rest) of
            None \<Rightarrow> False
          | Some cp \<Rightarrow> if bad_code_point extra cp then False else valid_from (drop extra rest))"
  by pat_completeness auto
termination
  by (relation "measure length") auto

declare valid_from.simps(2) [simp del]

definition is_valid_utf8 :: "string \<Rightarrow> bool" where
  "is_valid_utf8 bytes = valid_from (bytes_of bytes)"

section \<open>The encoding form UTF-8\<close>

definition scalar_value :: "nat \<Rightarrow> bool" where
  "scalar_value c \<longleftrightarrow> c \<le> 0x10FFFF \<and> \<not> (0xD800 \<le> c \<and> c \<le> 0xDFFF)"

definition utf8_encode :: "nat \<Rightarrow> nat list" where
  "utf8_encode c =
     (if c < 0x80 then [c]
      else if c < 0x800 then [192 + c div 64, 128 + c mod 64]
      else if c < 0x10000 then [224 + c div 4096, 128 + c div 64 mod 64, 128 + c mod 64]
      else [240 + c div 262144, 128 + c div 4096 mod 64, 128 + c div 64 mod 64, 128 + c mod 64])"

section \<open>Bytes as numbers\<close>

lemma byte_bound: "unat (b :: byte) < 256"
  using unsigned_less [of b] by simp

lemma unat_ucast_byte: "unat (ucast (b :: byte) :: u32) = unat b"
  using byte_bound [of b] by (simp add: unsigned_ucast_eq take_bit_nat_eq_self)

lemma unat_and_mask: "unat (w AND mask k) = unat w mod 2 ^ k" for w :: "'a::len word"
proof -
  have "unat (take_bit k w) = take_bit k (unat w)" by (rule unsigned_take_bit_eq)
  then show ?thesis unfolding take_bit_eq_mask [of k w] by (simp add: take_bit_eq_mod)
qed

lemma payload_bits:
  fixes b :: byte
  shows "unat (ucast b AND 0x1F :: u32) = unat b mod 32" "unat (ucast b AND 0x0F :: u32) = unat b mod 16"
    "unat (ucast b AND 0x07 :: u32) = unat b mod 8" "unat (ucast b AND 0x3F :: u32) = unat b mod 64"
  using unat_and_mask [of "ucast b :: u32" 5] unat_and_mask [of "ucast b :: u32" 4]
    unat_and_mask [of "ucast b :: u32" 3] unat_and_mask [of "ucast b :: u32" 6]
  by (simp_all add: mask_eq_exp_minus_1 unat_ucast_byte)

lemma unat_and_high:
  fixes b :: byte and hi lo :: u32
  assumes "hi AND lo = 0" and "hi OR lo = mask 8"
  shows "unat (ucast b AND hi) = unat b - unat (ucast b AND lo)"
proof -
  have "(ucast b AND hi) AND (ucast b AND lo) = 0"
    using assms(1) by (metis (no_types) and.assoc and.commute and.left_commute and_zero_eq)
  then have "(ucast b AND hi) + (ucast b AND lo) = ucast b AND (hi OR lo)"
    by (simp add: disjunctive_add_eq_or bit.conj_disj_distrib)
  also have "\<dots> = ucast b"
    unfolding assms(2) by (rule bit_word_eqI) (auto simp: bit_simps dest: bit_imp_le_length)
  finally have sum: "ucast b AND hi = ucast b - (ucast b AND lo)"
    by (simp add: algebra_simps)
  have "(ucast b AND lo :: u32) \<le> ucast b" by (rule word_and_le2)
  then show ?thesis by (simp add: sum unat_sub unat_ucast_byte)
qed

lemma byte_table:
  fixes b :: byte
  shows "(ucast b :: u32) AND 0xE0 = 0xC0 \<longleftrightarrow> unat b div 32 = 6"
    "(ucast b :: u32) AND 0xF0 = 0xE0 \<longleftrightarrow> unat b div 16 = 14"
    "(ucast b :: u32) AND 0xF8 = 0xF0 \<longleftrightarrow> unat b div 8 = 30"
    "(ucast b :: u32) AND 0xC0 = 0x80 \<longleftrightarrow> unat b div 64 = 2"
proof -
  have split: "x - x mod k = v * k \<longleftrightarrow> x div k = v" if "0 < k" for x k v :: nat
    using that by (metis div_mult_self_is_m minus_mod_eq_mult_div mult.commute)
  have m: "mask 8 = (0xFF :: u32)" by (simp add: mask_eq_exp_minus_1)
  have w: "unat ((ucast b :: u32) AND 0xE0) = unat b - unat b mod 32"
    "unat ((ucast b :: u32) AND 0xF0) = unat b - unat b mod 16"
    "unat ((ucast b :: u32) AND 0xF8) = unat b - unat b mod 8"
    "unat ((ucast b :: u32) AND 0xC0) = unat b - unat b mod 64"
    using unat_and_high [of "0xE0" "0x1F" b] unat_and_high [of "0xF0" "0x0F" b]
      unat_and_high [of "0xF8" "0x07" b] unat_and_high [of "0xC0" "0x3F" b]
    by (simp_all add: m payload_bits)
  show "(ucast b :: u32) AND 0xE0 = 0xC0 \<longleftrightarrow> unat b div 32 = 6"
    "(ucast b :: u32) AND 0xF0 = 0xE0 \<longleftrightarrow> unat b div 16 = 14"
    "(ucast b :: u32) AND 0xF8 = 0xF0 \<longleftrightarrow> unat b div 8 = 30"
    "(ucast b :: u32) AND 0xC0 = 0x80 \<longleftrightarrow> unat b div 64 = 2"
    using split [of 32 "unat b" 6] split [of 16 "unat b" 14] split [of 8 "unat b" 30]
      split [of 64 "unat b" 2]
    by (simp_all only: word_unat_eq_iff w) simp_all
qed

lemma shift_or:
  fixes cp :: u32 and b :: byte
  assumes "unat cp < 2 ^ 20"
  shows "unat (push_bit 6 cp OR (ucast b AND 0x3F)) = 64 * unat cp + unat b mod 64"
proof -
  have ff: "(0x3F :: u32) = mask 6" by (simp add: mask_eq_exp_minus_1)
  have "push_bit 6 cp AND (ucast b AND 0x3F) = 0"
    unfolding ff by (rule bit_word_eqI) (auto simp: bit_simps)
  then have "push_bit 6 cp OR (ucast b AND 0x3F) = push_bit 6 cp + (ucast b AND 0x3F)"
    by (simp add: disjunctive_add_eq_or)
  moreover have "unat (push_bit 6 cp + (ucast b AND 0x3F)) = 64 * unat cp + unat b mod 64"
    using assms by (simp add: push_bit_eq_mult unat_word_ariths payload_bits)
  ultimately show ?thesis by simp
qed

section \<open>One encoded character\<close>

lemma lead_info_cases:
  "lead_info b =
     (if unat b div 32 = 6 then Some (1, ucast b AND 0x1F)
      else if unat b div 16 = 14 then Some (2, ucast b AND 0x0F)
      else if unat b div 8 = 30 then Some (3, ucast b AND 0x07)
      else None)"
  by (simp only: lead_info_def byte_table)

abbreviation extend :: "nat \<Rightarrow> byte list \<Rightarrow> nat" where
  "extend \<equiv> foldl (\<lambda>n b. 64 * n + unat b mod 64)"

lemma continue_code_point_Some:
  assumes "\<forall>b \<in> set bs. unat b div 64 = 2" and "(unat cp + 1) * 64 ^ length bs \<le> 2 ^ 26"
  shows "\<exists>cp'. continue_code_point cp bs = Some cp' \<and> unat cp' = extend (unat cp) bs"
  using assms
proof (induction bs arbitrary: cp)
  case Nil
  then show ?case by simp
next
  case (Cons b bs)
  let ?cp = "push_bit 6 cp OR (ucast b AND 0x3F)" and ?k = "64 ^ length bs :: nat"
  have k: "(unat cp + 1) * 64 * ?k \<le> 2 ^ 26" using Cons.prems(2) by (simp add: algebra_simps)
  then have "(unat cp + 1) * 64 \<le> 2 ^ 26"
    by (metis dual_order.trans mult_le_mono2 nat_mult_1_right one_le_numeral one_le_power)
  then have cp: "unat ?cp = 64 * unat cp + unat b mod 64" by (intro shift_or) simp
  have "(unat ?cp + 1) * ?k \<le> (unat cp + 1) * 64 * ?k"
    unfolding cp by (intro mult_right_mono) simp_all
  then have "(unat ?cp + 1) * ?k \<le> 2 ^ 26" using k by linarith
  moreover have "\<forall>b \<in> set bs. unat b div 64 = 2" "unat b div 64 = 2" using Cons.prems(1) by simp_all
  ultimately show ?case using Cons.IH [of ?cp] cp by (simp add: byte_table)
qed

lemma continue_code_point_None:
  "\<not> (\<forall>b \<in> set bs. unat b div 64 = 2) \<Longrightarrow> continue_code_point cp bs = None"
  by (induction bs arbitrary: cp) (auto simp: byte_table)

definition bad_value :: "nat \<Rightarrow> nat \<Rightarrow> bool" where
  "bad_value k c \<longleftrightarrow> k = 1 \<and> c < 0x80 \<or> k = 2 \<and> c < 0x800 \<or> k = 3 \<and> c < 0x10000 \<or> \<not> scalar_value c"

lemma bad_code_point_nat: "bad_code_point k cp \<longleftrightarrow> bad_value k (unat cp)"
  by (auto simp: bad_code_point_def bad_value_def scalar_value_def word_less_nat_alt word_le_nat_alt)

lemma valid_from_multi:
  assumes "\<not> b < 0x80" and "lead_info b = Some (k, cp)" and "k \<le> length rest"
    and "(unat cp + 1) * 64 ^ k \<le> 2 ^ 26"
  shows "valid_from (b # rest) \<longleftrightarrow>
    (\<forall>x \<in> set (take k rest). unat x div 64 = 2) \<and> \<not> bad_value k (extend (unat cp) (take k rest)) \<and>
    valid_from (drop k rest)"
proof (cases "\<forall>x \<in> set (take k rest). unat x div 64 = 2")
  case True
  have "(unat cp + 1) * 64 ^ length (take k rest) \<le> 2 ^ 26" using assms(3,4) by simp
  from continue_code_point_Some [OF True this]
  obtain cp' where "continue_code_point cp (take k rest) = Some cp'"
    "unat cp' = extend (unat cp) (take k rest)" by blast
  then show ?thesis using True assms(1,2,3) by (simp add: valid_from.simps(2) bad_code_point_nat)
next
  case False
  then have "continue_code_point cp (take k rest) = None" by (rule continue_code_point_None)
  then show ?thesis using False assms(1,2,3) by (simp add: valid_from.simps(2))
qed

definition value2 :: "byte \<Rightarrow> byte \<Rightarrow> nat" where
  "value2 b x = 64 * (unat b mod 32) + unat x mod 64"

definition value3 :: "byte \<Rightarrow> byte \<Rightarrow> byte \<Rightarrow> nat" where
  "value3 b x y = 64 * (64 * (unat b mod 16) + unat x mod 64) + unat y mod 64"

definition value4 :: "byte \<Rightarrow> byte \<Rightarrow> byte \<Rightarrow> byte \<Rightarrow> nat" where
  "value4 b x y z = 64 * (64 * (64 * (unat b mod 8) + unat x mod 64) + unat y mod 64) + unat z mod 64"

text \<open>The accepted encoding of one character, read off the list of byte values.\<close>

lemma valid_from_lead:
  assumes "\<not> b < 0x80"
  shows "valid_from (b # rest) \<longleftrightarrow>
    (\<exists>x r. unat b div 32 = 6 \<and> rest = x # r \<and> unat x div 64 = 2 \<and>
       \<not> bad_value 1 (value2 b x) \<and> valid_from r) \<or>
    (\<exists>x y r. unat b div 16 = 14 \<and> rest = x # y # r \<and> unat x div 64 = 2 \<and> unat y div 64 = 2 \<and>
       \<not> bad_value 2 (value3 b x y) \<and> valid_from r) \<or>
    (\<exists>x y z r. unat b div 8 = 30 \<and> rest = x # y # z # r \<and> unat x div 64 = 2 \<and> unat y div 64 = 2 \<and>
       unat z div 64 = 2 \<and> \<not> bad_value 3 (value4 b x y z) \<and> valid_from r)"
proof -
  have excl: "unat b div 32 = 6 \<Longrightarrow> unat b div 16 \<noteq> 14" "unat b div 32 = 6 \<Longrightarrow> unat b div 8 \<noteq> 30"
    "unat b div 16 = 14 \<Longrightarrow> unat b div 8 \<noteq> 30"
    by auto
  have short: "valid_from (b # rest) = False" if "lead_info b = Some (k, cp)" "length rest < k" for k cp
    using that assms by (simp add: valid_from.simps(2))
  consider (two) "unat b div 32 = 6" | (three) "unat b div 16 = 14" | (four) "unat b div 8 = 30"
    | (none) "unat b div 32 \<noteq> 6" "unat b div 16 \<noteq> 14" "unat b div 8 \<noteq> 30" by blast
  then show ?thesis
  proof cases
    case two
    then have li: "lead_info b = Some (1, ucast b AND 0x1F)" by (simp add: lead_info_cases)
    show ?thesis
    proof (cases "1 \<le> length rest")
      case True
      then obtain x r where "rest = x # r" by (cases rest) auto
      then show ?thesis using valid_from_multi [OF assms li True] two excl
        by (simp add: payload_bits value2_def)
    next
      case False
      then have "rest = []" by (cases rest) auto
      then show ?thesis using short [OF li] two excl by simp
    qed
  next
    case three
    then have li: "lead_info b = Some (2, ucast b AND 0x0F)" using excl by (auto simp: lead_info_cases)
    show ?thesis
    proof (cases "2 \<le> length rest")
      case True
      then obtain x y r where "rest = x # y # r" by (auto simp: numeral_2_eq_2 Suc_le_length_iff)
      then show ?thesis using valid_from_multi [OF assms li True] three excl
        by (auto simp: payload_bits value3_def)
    next
      case False
      then show ?thesis using short [OF li] three excl by auto
    qed
  next
    case four
    then have li: "lead_info b = Some (3, ucast b AND 0x07)" using excl by (auto simp: lead_info_cases)
    show ?thesis
    proof (cases "3 \<le> length rest")
      case True
      then obtain x y z r where "rest = x # y # z # r" by (auto simp: numeral_3_eq_3 Suc_le_length_iff)
      then show ?thesis using valid_from_multi [OF assms li True] four excl
        by (auto simp: payload_bits value4_def)
    next
      case False
      then show ?thesis using short [OF li] four excl by auto
    qed
  next
    case none
    then show ?thesis using assms by (simp add: valid_from.simps(2) lead_info_cases)
  qed
qed

lemma valid_from_exact:
  assumes "\<not> b < 0x80"
  shows "unat b div 32 = 6 \<Longrightarrow> unat x div 64 = 2 \<Longrightarrow> \<not> bad_value 1 (value2 b x) \<Longrightarrow>
      valid_from (b # x # r) = valid_from r"
    and "unat b div 16 = 14 \<Longrightarrow> unat x div 64 = 2 \<Longrightarrow> unat y div 64 = 2 \<Longrightarrow> \<not> bad_value 2 (value3 b x y) \<Longrightarrow>
      valid_from (b # x # y # r) = valid_from r"
    and "unat b div 8 = 30 \<Longrightarrow> unat x div 64 = 2 \<Longrightarrow> unat y div 64 = 2 \<Longrightarrow> unat z div 64 = 2 \<Longrightarrow>
      \<not> bad_value 3 (value4 b x y z) \<Longrightarrow> valid_from (b # x # y # z # r) = valid_from r"
proof -
  have excl: "unat b div 32 = 6 \<Longrightarrow> unat b div 16 \<noteq> 14" "unat b div 32 = 6 \<Longrightarrow> unat b div 8 \<noteq> 30"
    "unat b div 16 = 14 \<Longrightarrow> unat b div 8 \<noteq> 30"
    by auto
  note lead = valid_from_lead [OF assms]
  show "unat b div 32 = 6 \<Longrightarrow> unat x div 64 = 2 \<Longrightarrow> \<not> bad_value 1 (value2 b x) \<Longrightarrow>
      valid_from (b # x # r) = valid_from r"
    using lead [of "x # r"] excl(1,2) by blast
  show "unat b div 16 = 14 \<Longrightarrow> unat x div 64 = 2 \<Longrightarrow> unat y div 64 = 2 \<Longrightarrow> \<not> bad_value 2 (value3 b x y) \<Longrightarrow>
      valid_from (b # x # y # r) = valid_from r"
    using lead [of "x # y # r"] excl(1,3) by blast
  show "unat b div 8 = 30 \<Longrightarrow> unat x div 64 = 2 \<Longrightarrow> unat y div 64 = 2 \<Longrightarrow> unat z div 64 = 2 \<Longrightarrow>
      \<not> bad_value 3 (value4 b x y z) \<Longrightarrow> valid_from (b # x # y # z # r) = valid_from r"
    using lead [of "x # y # z # r"] excl(2,3) by blast
qed

lemma digit_offset:
  fixes p m k :: nat
  assumes "p < m"
  shows "(k * m + p) mod m = p" "(k * m + p) div m = k"
  using assms by simp_all

lemma continuation_digit:
  fixes x n :: nat
  assumes "x = 128 + n mod 64"
  shows "x mod 64 = n mod 64" "x div 64 = 2"
  using assms digit_offset [of "n mod 64" 64 2] by simp_all

lemma digit_recombine: "x div m = k \<Longrightarrow> x = k * m + x mod m" for x :: nat
  by (metis div_mult_mod_eq)

lemma base64_split:
  fixes c :: nat
  shows "c = 64 * (c div 64) + c mod 64"
    "c = 64 * (64 * (c div 4096) + c div 64 mod 64) + c mod 64"
    "c = 64 * (64 * (64 * (c div 262144) + c div 4096 mod 64) + c div 64 mod 64) + c mod 64"
proof -
  have 1: "n = 64 * (n div 64) + n mod 64" for n :: nat by (metis mult_div_mod_eq)
  have 2: "c div 64 div 64 = c div 4096" "c div 4096 div 64 = c div 262144"
    by (simp_all add: div_mult2_eq [symmetric])
  show "c = 64 * (c div 64) + c mod 64" by (rule 1)
  show "c = 64 * (64 * (c div 4096) + c div 64 mod 64) + c mod 64"
    using 1 [of c] 1 [of "c div 64"] 2 by metis
  show "c = 64 * (64 * (64 * (c div 262144) + c div 4096 mod 64) + c div 64 mod 64) + c mod 64"
    using 1 [of c] 1 [of "c div 64"] 1 [of "c div 4096"] 2 by metis
qed

lemma base64_digits:
  fixes p q s t c :: nat
  shows "c = 64 * p + q \<Longrightarrow> q < 64 \<Longrightarrow> c div 64 = p \<and> c mod 64 = q"
    "c = 64 * (64 * p + q) + s \<Longrightarrow> q < 64 \<Longrightarrow> s < 64 \<Longrightarrow>
       c div 4096 = p \<and> c div 64 mod 64 = q \<and> c mod 64 = s"
    "c = 64 * (64 * (64 * p + q) + s) + t \<Longrightarrow> q < 64 \<Longrightarrow> s < 64 \<Longrightarrow> t < 64 \<Longrightarrow>
       c div 262144 = p \<and> c div 4096 mod 64 = q \<and> c div 64 mod 64 = s \<and> c mod 64 = t"
proof -
  have 1: "n div 64 = x" "n mod 64 = y" if "n = 64 * x + y" "y < 64" for n x y :: nat using that by simp_all
  have 2: "n div 4096 = n div 64 div 64" "n div 262144 = n div 64 div 64 div 64" for n :: nat
    by (simp_all add: div_mult2_eq [symmetric])
  show "c = 64 * p + q \<Longrightarrow> q < 64 \<Longrightarrow> c div 64 = p \<and> c mod 64 = q" using 1 by blast
  show "c = 64 * (64 * p + q) + s \<Longrightarrow> q < 64 \<Longrightarrow> s < 64 \<Longrightarrow>
      c div 4096 = p \<and> c div 64 mod 64 = q \<and> c mod 64 = s"
    unfolding 2 using 1 by metis
  show "c = 64 * (64 * (64 * p + q) + s) + t \<Longrightarrow> q < 64 \<Longrightarrow> s < 64 \<Longrightarrow> t < 64 \<Longrightarrow>
      c div 262144 = p \<and> c div 4096 mod 64 = q \<and> c div 64 mod 64 = s \<and> c mod 64 = t"
    unfolding 2 using 1 by metis
qed

lemma map_unat_eq_iff: "map unat xs = map unat ys \<longleftrightarrow> xs = (ys :: byte list)"
  by (rule inj_map_eq_map) (simp add: inj_def word_unat_eq_iff)

lemma scalar_encode_valid:
  assumes "scalar_value c" and "map unat bs = utf8_encode c @ map unat r"
  shows "valid_from bs \<longleftrightarrow> valid_from r"
proof -
  consider (one) "c < 0x80" | (two) "0x80 \<le> c" "c < 0x800" | (three) "0x800 \<le> c" "c < 0x10000"
    | (four) "0x10000 \<le> c" by linarith
  then show ?thesis
  proof cases
    case one
    then obtain b where "bs = b # r" "unat b = c" using assms(2)
      by (auto simp: utf8_encode_def map_eq_Cons_conv map_unat_eq_iff)
    then show ?thesis using one by (simp add: valid_from.simps(2) word_less_nat_alt)
  next
    case two
    then obtain b x where b: "bs = b # x # r" "unat b = 192 + c div 64" "unat x = 128 + c mod 64"
      using assms(2) by (auto simp: utf8_encode_def map_eq_Cons_conv map_unat_eq_iff)
    then have nb: "\<not> b < 0x80" by (simp add: word_less_nat_alt)
    have f: "unat b mod 32 = c div 64" "unat b div 32 = 6" "unat x mod 64 = c mod 64" "unat x div 64 = 2"
      using b(2,3) two(2) digit_offset [of "c div 64" 32 6] digit_offset [of "c mod 64" 64 2] by simp_all
    have bv: "\<not> bad_value 1 c" using two assms(1) by (simp add: bad_value_def)
    have v: "value2 b x = c" unfolding value2_def f(1,3) by (rule base64_split(1) [symmetric])
    show ?thesis unfolding b(1) by (rule valid_from_exact(1) [OF nb f(2,4)]) (simp only: v bv not_False_eq_True)
  next
    case three
    then obtain b x y where b: "bs = b # x # y # r" "unat b = 224 + c div 4096"
      "unat x = 128 + c div 64 mod 64" "unat y = 128 + c mod 64"
      using assms(2) by (auto simp: utf8_encode_def map_eq_Cons_conv map_unat_eq_iff)
    then have nb: "\<not> b < 0x80" by (simp add: word_less_nat_alt)
    have f: "unat b mod 16 = c div 4096" "unat b div 16 = 14"
      using b(2) three(2) digit_offset [of "c div 4096" 16 14] by simp_all
    have g: "unat x mod 64 = c div 64 mod 64" "unat x div 64 = 2" "unat y mod 64 = c mod 64" "unat y div 64 = 2"
      by (fact continuation_digit [OF b(3)] continuation_digit [OF b(4)])+
    have bv: "\<not> bad_value 2 c" using three assms(1) by (simp add: bad_value_def)
    have v: "value3 b x y = c" unfolding value3_def f(1) g(1,3) by (rule base64_split(2) [symmetric])
    show ?thesis unfolding b(1) by (rule valid_from_exact(2) [OF nb f(2) g(2,4)]) (simp only: v bv not_False_eq_True)
  next
    case four
    have c: "c < 0x110000" using assms(1) by (simp add: scalar_value_def)
    obtain b x y z where b: "bs = b # x # y # z # r" "unat b = 240 + c div 262144"
      "unat x = 128 + c div 4096 mod 64" "unat y = 128 + c div 64 mod 64" "unat z = 128 + c mod 64"
      using four assms(2) by (auto simp: utf8_encode_def map_eq_Cons_conv map_unat_eq_iff)
    then have nb: "\<not> b < 0x80" by (simp add: word_less_nat_alt)
    have f: "unat b mod 8 = c div 262144" "unat b div 8 = 30"
      using b(2) c digit_offset [of "c div 262144" 8 30] by simp_all
    have g: "unat x mod 64 = c div 4096 mod 64" "unat x div 64 = 2"
      "unat y mod 64 = c div 64 mod 64" "unat y div 64 = 2" "unat z mod 64 = c mod 64" "unat z div 64 = 2"
      by (fact continuation_digit [OF b(3)] continuation_digit [OF b(4)] continuation_digit [OF b(5)])+
    have bv: "\<not> bad_value 3 c" using four assms(1) by (simp add: bad_value_def)
    have v: "value4 b x y z = c" unfolding value4_def f(1) g(1,3,5) by (rule base64_split(3) [symmetric])
    show ?thesis unfolding b(1) by (rule valid_from_exact(3) [OF nb f(2) g(2,4,6)]) (simp only: v bv not_False_eq_True)
  qed
qed

lemma valid_from_step:
  assumes "valid_from (b # rest)"
  shows "\<exists>c r. scalar_value c \<and> map unat (b # rest) = utf8_encode c @ map unat r \<and> valid_from r \<and>
    length r < length (b # rest)"
proof (cases "b < 0x80")
  case True
  then have "unat b < 0x80" by (simp add: word_less_nat_alt)
  then show ?thesis using True assms
    by (intro exI [of _ "unat b"] exI [of _ rest])
       (simp add: valid_from.simps(2) scalar_value_def utf8_encode_def)
next
  case False
  from assms valid_from_lead [OF False, of rest] consider
    (two) x r where "unat b div 32 = 6" "rest = x # r" "unat x div 64 = 2"
       "\<not> bad_value 1 (value2 b x)" "valid_from r"
  | (three) x y r where "unat b div 16 = 14" "rest = x # y # r" "unat x div 64 = 2" "unat y div 64 = 2"
       "\<not> bad_value 2 (value3 b x y)" "valid_from r"
  | (four) x y z r where "unat b div 8 = 30" "rest = x # y # z # r" "unat x div 64 = 2"
       "unat y div 64 = 2" "unat z div 64 = 2"
       "\<not> bad_value 3 (value4 b x y z)"
       "valid_from r"
    by blast
  then show ?thesis
  proof cases
    case two
    define p q c where "p = unat b mod 32" and "q = unat x mod 64" and "c = 64 * p + q"
    have v: "unat b = 192 + p" "unat x = 128 + q" "p < 32" "q < 64"
      using digit_recombine [OF two(1)] digit_recombine [OF two(3)] by (simp_all add: p_def q_def)
    have "0x80 \<le> c" "scalar_value c" using two(4) by (simp_all add: bad_value_def c_def p_def q_def not_less value2_def)
    then have "scalar_value c \<and> map unat (b # rest) = utf8_encode c @ map unat r"
      using v two(2) base64_digits(1) [OF c_def v(4)] by (simp add: utf8_encode_def c_def)
    then show ?thesis using two(2,5) by (intro exI [of _ c] exI [of _ r]) simp
  next
    case three
    define p q s c where "p = unat b mod 16" and "q = unat x mod 64" and "s = unat y mod 64"
      and "c = 64 * (64 * p + q) + s"
    have v: "unat b = 224 + p" "unat x = 128 + q" "unat y = 128 + s" "p < 16" "q < 64" "s < 64"
      using digit_recombine [OF three(1)] digit_recombine [OF three(3)] digit_recombine [OF three(4)]
      by (simp_all add: p_def q_def s_def)
    have c: "c < 0x10000" "c div 4096 = p \<and> c div 64 mod 64 = q \<and> c mod 64 = s"
      using v base64_digits(2) [OF c_def v(5,6)] by (simp_all add: c_def)
    have "0x800 \<le> c" "scalar_value c"
      using three(5) by (simp_all add: bad_value_def c_def p_def q_def s_def not_less value3_def)
    then have "scalar_value c \<and> map unat (b # rest) = utf8_encode c @ map unat r"
      using v three(2) c by (simp add: utf8_encode_def)
    then show ?thesis using three(2,6) by (intro exI [of _ c] exI [of _ r]) simp
  next
    case four
    define p q s t c where "p = unat b mod 8" and "q = unat x mod 64" and "s = unat y mod 64"
      and "t = unat z mod 64" and "c = 64 * (64 * (64 * p + q) + s) + t"
    have v: "unat b = 240 + p" "unat x = 128 + q" "unat y = 128 + s" "unat z = 128 + t"
      "p < 8" "q < 64" "s < 64" "t < 64"
      using digit_recombine [OF four(1)] digit_recombine [OF four(3)] digit_recombine [OF four(4)]
        digit_recombine [OF four(5)]
      by (simp_all add: p_def q_def s_def t_def)
    note c = base64_digits(3) [OF c_def v(6,7,8)]
    have "0x10000 \<le> c" "scalar_value c"
      using four(6) by (simp_all add: bad_value_def c_def p_def q_def s_def t_def not_less value4_def)
    then have "scalar_value c \<and> map unat (b # rest) = utf8_encode c @ map unat r"
      using v four(2) c by (simp add: utf8_encode_def)
    then show ?thesis using four(2,7) by (intro exI [of _ c] exI [of _ r]) simp
  qed
qed

section \<open>Properties\<close>

text \<open>
  C29.  UTF-8 gate: \<open>is_valid_utf8\<close> accepts a byte string if and only if it is the concatenation
  of the UTF-8 encodings of a sequence of Unicode scalar values.
\<close>

theorem is_valid_utf8_correct:
  "is_valid_utf8 s \<longleftrightarrow>
    (\<exists>cs. list_all scalar_value cs \<and> map unat (bytes_of s) = concat (map utf8_encode cs))"
proof -
  have "valid_from bs \<longleftrightarrow>
      (\<exists>cs. list_all scalar_value cs \<and> map unat bs = concat (map utf8_encode cs))" for bs :: "byte list"
  proof
    assume "valid_from bs"
    then show "\<exists>cs. list_all scalar_value cs \<and> map unat bs = concat (map utf8_encode cs)"
    proof (induction bs rule: length_induct)
      case (1 bs)
      show ?case
      proof (cases bs)
        case Nil
        then show ?thesis by (intro exI [of _ "[]"]) simp
      next
        case (Cons b rest)
        with 1 obtain c r where c: "scalar_value c" "map unat bs = utf8_encode c @ map unat r"
          "valid_from r" "length r < length bs" using valid_from_step [of b rest] by auto
        with 1 obtain cs where "list_all scalar_value cs" "map unat r = concat (map utf8_encode cs)"
          by blast
        with c show ?thesis by (intro exI [of _ "c # cs"]) simp
      qed
    qed
  next
    assume "\<exists>cs. list_all scalar_value cs \<and> map unat bs = concat (map utf8_encode cs)"
    then obtain cs where "list_all scalar_value cs" "map unat bs = concat (map utf8_encode cs)" by blast
    then show "valid_from bs"
    proof (induction cs arbitrary: bs)
      case Nil
      then show ?case by simp
    next
      case (Cons c cs)
      then have len: "map unat bs = utf8_encode c @ concat (map utf8_encode cs)" by simp
      define r where "r = drop (length (utf8_encode c)) bs"
      have r: "map unat r = concat (map utf8_encode cs)" by (simp add: r_def drop_map [symmetric] len)
      then have "valid_from r" using Cons by simp
      moreover have "map unat bs = utf8_encode c @ map unat r" using len r by simp
      ultimately show ?case using scalar_encode_valid [of c bs r] Cons.prems(1) by simp
    qed
  qed
  then show ?thesis by (simp add: is_valid_utf8_def)
qed

lemma is_valid_utf8_ascii: "\<forall>c \<in> set s. of_char c < (128 :: nat) \<Longrightarrow> is_valid_utf8 s"
  unfolding is_valid_utf8_def
  by (induction s) (simp_all add: bytes_of_def valid_from.simps(2) word_less_nat_alt)

end
