(* ===== verification/Profile.thy ===== *)
theory Profile
  imports Errors
begin

text \<open>
  Security profiles: \<open>include/pqtls/security_profile.hpp\<close> and the non-YAML part of
  \<open>src/common/security_profile.cpp\<close>.  \<open>Definition\<close> is the struct
  \<open>SecurityProfile::Definition\<close>, \<open>SecurityProfile\<close> the class around it (its only
  constructor is private, so values of it come from \<open>create\<close>), \<open>ProfileRegistry\<close> the
  vector of profiles.  The registry is presented to its clients through the locale
  \<open>profile_store\<close>.
\<close>

section \<open>Group names\<close>

definition kHybridGroups :: "string list" where
  "kHybridGroups = [''X25519MLKEM768'', ''SecP256r1MLKEM768'', ''SecP384r1MLKEM1024'']"

definition kPureMlKemGroups :: "string list" where
  "kPureMlKemGroups = [''MLKEM512'', ''MLKEM768'', ''MLKEM1024'']"

text \<open>The per-character folding of \<open>iequals\<close>, on \<open>unsigned char\<close> values.\<close>

definition lower_byte :: "byte \<Rightarrow> byte" where
  "lower_byte c = (if c \<ge> 65 \<and> c \<le> 90 then c + 32 else c)"

fun iequals_loop :: "string \<Rightarrow> string \<Rightarrow> bool" where
  "iequals_loop (x # a) (y # b) =
     (if lower_byte (byte_of_char x) \<noteq> lower_byte (byte_of_char y) then False else iequals_loop a b)"
| "iequals_loop _ _ = True"

definition iequals :: "string \<Rightarrow> string \<Rightarrow> bool" where
  "iequals a b = (if length a \<noteq> length b then False else iequals_loop a b)"

definition contains_group :: "string list \<Rightarrow> string \<Rightarrow> bool" where
  "contains_group haystack needle = list_ex (\<lambda>candidate. iequals candidate needle) haystack"

fun join_from :: "string list \<Rightarrow> char \<Rightarrow> string \<Rightarrow> string" where
  "join_from [] separator out = out"
| "join_from (v # vs) separator out = join_from vs separator (out @ [separator] @ v)"

text \<open>\<open>join\<close>: the separator goes before every element but the first.\<close>

definition join :: "string list \<Rightarrow> char \<Rightarrow> string" where
  "join values separator = (case values of [] \<Rightarrow> '''' | v # vs \<Rightarrow> join_from vs separator v)"

definition is_hybrid_group :: "string \<Rightarrow> bool" where
  "is_hybrid_group g = list_ex (\<lambda>known. iequals known g) kHybridGroups"

definition is_post_quantum_group :: "string \<Rightarrow> bool" where
  "is_post_quantum_group g =
     (if is_hybrid_group g then True else list_ex (\<lambda>known. iequals known g) kPureMlKemGroups)"

section \<open>Versions, authentication types and suites\<close>

datatype TlsVersion = Tls13

fun to_string_TlsVersion :: "TlsVersion \<Rightarrow> string" where
  "to_string_TlsVersion Tls13 = ''TLS1.3''"

definition tls_version_from_string :: "string \<Rightarrow> TlsVersion option" where
  "tls_version_from_string name =
     (if name = ''TLS1.3'' \<or> name = ''TLSv1.3'' \<or> name = ''1.3'' then Some Tls13 else None)"

datatype AuthenticationType = EcdsaP256 | EcdsaP384 | MlDsa65

fun to_string_AuthenticationType :: "AuthenticationType \<Rightarrow> string" where
  "to_string_AuthenticationType EcdsaP256 = ''ecdsa-p256''"
| "to_string_AuthenticationType EcdsaP384 = ''ecdsa-p384''"
| "to_string_AuthenticationType MlDsa65 = ''ml-dsa-65''"

definition authentication_type_from_string :: "string \<Rightarrow> AuthenticationType option" where
  "authentication_type_from_string name =
     (if name = ''ecdsa-p256'' \<or> name = ''ECDSA-P256'' then Some EcdsaP256
      else if name = ''ecdsa-p384'' \<or> name = ''ECDSA-P384'' then Some EcdsaP384
      else if name = ''ml-dsa-65'' \<or> name = ''ML-DSA-65'' then Some MlDsa65
      else None)"

definition is_post_quantum_authentication :: "AuthenticationType \<Rightarrow> bool" where
  "is_post_quantum_authentication type \<longleftrightarrow> type = MlDsa65"

definition default_cipher_suites :: "string list" where
  "default_cipher_suites =
     [''TLS_AES_256_GCM_SHA384'', ''TLS_CHACHA20_POLY1305_SHA256'', ''TLS_AES_128_GCM_SHA256'']"

section \<open>Profiles\<close>

record Definition =
  d_id :: string
  d_description :: string
  d_minimum_version :: TlsVersion
  d_maximum_version :: TlsVersion
  d_groups :: "string list"
  d_cipher_suites :: "string list"
  d_authentication :: AuthenticationType
  d_require_client_certificate :: bool
  d_allow_classical_fallback :: bool
  d_experimental :: bool

text \<open>The default member initialisers of the struct.\<close>

definition Definition_default :: Definition where
  "Definition_default =
     \<lparr>d_id = '''', d_description = '''', d_minimum_version = Tls13, d_maximum_version = Tls13,
      d_groups = [], d_cipher_suites = [], d_authentication = EcdsaP256,
      d_require_client_certificate = False, d_allow_classical_fallback = False,
      d_experimental = False\<rparr>"

datatype SecurityProfile = mk_SecurityProfile (def_of: Definition)

abbreviation profile_id :: "SecurityProfile \<Rightarrow> string" where
  "profile_id p \<equiv> d_id (def_of p)"

abbreviation profile_groups :: "SecurityProfile \<Rightarrow> string list" where
  "profile_groups p \<equiv> d_groups (def_of p)"

text \<open>\<open>SecurityProfile::create\<close>: every check in source order.\<close>

definition create :: "Definition \<Rightarrow> SecurityProfile result" where
  "create definition0 =
    (if d_id definition0 = '''' then
       ConfigurationError (''security profile is missing an '' @ quoted ''id'')
     else if d_groups definition0 = [] then
       ConfigurationError (''profile '' @ quoted (d_id definition0) @
         '' defines no TLS groups; an empty group list would let OpenSSL choose its own defaults, which defeats the purpose of a profile'')
     else if card (set (d_groups definition0)) \<noteq> length (d_groups definition0) then
       ConfigurationError (''profile '' @ quoted (d_id definition0) @ '' lists a TLS group more than once'')
     else
       let definition1 = (if d_cipher_suites definition0 = []
              then definition0\<lparr>d_cipher_suites := default_cipher_suites\<rparr> else definition0) in
       (case find (\<lambda>suite. \<not> starts_with suite ''TLS_'') (d_cipher_suites definition1) of
          Some suite \<Rightarrow>
            ConfigurationError (''profile '' @ quoted (d_id definition1) @ '' lists '' @ quoted suite @
              '' as a cipher suite. TLS 1.3 cipher suites are named TLS_*; note that TLS groups (key establishment) and cipher suites (record protection) are different things.'')
        | None \<Rightarrow>
       (case find (\<lambda>g. starts_with g ''TLS_'') (d_groups definition1) of
          Some g \<Rightarrow>
            ConfigurationError (''profile '' @ quoted (d_id definition1) @ '' lists '' @ quoted g @
              '' as a TLS group, but that is a cipher suite name. Groups control key establishment; cipher suites control record protection.'')
        | None \<Rightarrow>
       if d_minimum_version definition1 \<noteq> Tls13 \<or> d_maximum_version definition1 \<noteq> Tls13 then
         ConfigurationError (''profile '' @ quoted (d_id definition1) @
           '' requests a TLS version other than 1.3; this project negotiates TLS 1.3 only'')
       else
         let has_pq = list_ex is_post_quantum_group (d_groups definition1);
             has_classical = list_ex (\<lambda>g. \<not> is_post_quantum_group g) (d_groups definition1) in
       if has_pq \<and> has_classical \<and> \<not> d_allow_classical_fallback definition1 then
         ConfigurationError (''profile '' @ quoted (d_id definition1) @
           '' offers both post-quantum and classical groups while setting fallback.allow_classical=false. That combination would advertise a classical group we would then refuse after the handshake. Either remove the classical groups or set allow_classical=true and accept the weaker guarantee.'')
       else
         let has_pure_pq = list_ex (\<lambda>g. is_post_quantum_group g \<and> \<not> is_hybrid_group g) (d_groups definition1) in
       if has_pure_pq \<and> \<not> d_experimental definition1 then
         ConfigurationError (''profile '' @ quoted (d_id definition1) @
           '' uses a pure ML-KEM group but is not marked experimental. Standalone ML-KEM groups are not covered by a finalised TLS specification; mark the profile experimental to acknowledge that.'')
       else if d_authentication definition1 = MlDsa65 \<and> \<not> d_experimental definition1 then
         ConfigurationError (''profile '' @ quoted (d_id definition1) @
           '' requests ML-DSA authentication but is not marked experimental. Post-quantum certificate authentication is a capability-gated experiment in this project.'')
       else
         let definition2 = (if d_description definition1 = ''''
                then definition1\<lparr>d_description := d_id definition1\<rparr> else definition1) in
         Inr (mk_SecurityProfile definition2))))"

definition openssl_groups_list :: "SecurityProfile \<Rightarrow> string" where
  "openssl_groups_list p = join (profile_groups p) CHR '':''"

definition openssl_ciphersuites_list :: "SecurityProfile \<Rightarrow> string" where
  "openssl_ciphersuites_list p = join (d_cipher_suites (def_of p)) CHR '':''"

definition offers_post_quantum_key_establishment :: "SecurityProfile \<Rightarrow> bool" where
  "offers_post_quantum_key_establishment p = list_ex is_post_quantum_group (profile_groups p)"

definition permits_negotiated_group :: "SecurityProfile \<Rightarrow> string \<Rightarrow> bool" where
  "permits_negotiated_group p negotiated_group =
     (if negotiated_group = '''' then False
      else if \<not> contains_group (profile_groups p) negotiated_group then False
      else if \<not> d_allow_classical_fallback (def_of p) \<and> \<not> is_post_quantum_group negotiated_group \<and>
              offers_post_quantum_key_establishment p then False
      else True)"

definition explain_group_rejection :: "SecurityProfile \<Rightarrow> string \<Rightarrow> string" where
  "explain_group_rejection p negotiated_group =
     (if negotiated_group = '''' then
        ''the negotiated TLS group could not be determined; profile '' @ quoted (profile_id p) @
        '' requires one of ['' @ join (profile_groups p) CHR '' '' @
        ''] and cannot confirm the connection satisfies its policy''
      else if \<not> contains_group (profile_groups p) negotiated_group then
        ''negotiated TLS group '' @ quoted negotiated_group @ '' is not permitted by profile '' @
        quoted (profile_id p) @ '', which allows only ['' @ join (profile_groups p) CHR '' '' @ '']''
      else
        ''negotiated TLS group '' @ quoted negotiated_group @
        '' provides classical key establishment only, and profile '' @ quoted (profile_id p) @
        '' sets fallback.allow_classical=false'')"

section \<open>The registry\<close>

type_synonym ProfileRegistry = "SecurityProfile list"

text \<open>The lambda \<open>add\<close> of \<open>builtin\<close>: create and push back.\<close>

definition builtin_add :: "Definition \<Rightarrow> ProfileRegistry \<Rightarrow> ProfileRegistry result" where
  "builtin_add def registry = bindE (create def) (\<lambda>p. Inr (registry @ [p]))"

definition builtin_definitions :: "Definition list" where
  "builtin_definitions =
    [Definition_default\<lparr>d_id := ''classical-x25519'',
       d_description := ''Classical TLS 1.3 baseline using X25519 key establishment'',
       d_groups := [''X25519''], d_cipher_suites := default_cipher_suites,
       d_authentication := EcdsaP256, d_allow_classical_fallback := True, d_experimental := False\<rparr>,
     Definition_default\<lparr>d_id := ''classical-p256'',
       d_description := ''Classical TLS 1.3 baseline using NIST P-256 key establishment'',
       d_groups := [''secp256r1''], d_cipher_suites := default_cipher_suites,
       d_authentication := EcdsaP256, d_allow_classical_fallback := True, d_experimental := False\<rparr>,
     Definition_default\<lparr>d_id := ''hybrid-x25519-mlkem768'',
       d_description := ''Primary profile: hybrid X25519 + ML-KEM-768 key establishment, ECDSA P-256 authentication'',
       d_groups := [''X25519MLKEM768''], d_cipher_suites := default_cipher_suites,
       d_authentication := EcdsaP256, d_allow_classical_fallback := False, d_experimental := False\<rparr>,
     Definition_default\<lparr>d_id := ''hybrid-p256-mlkem768'',
       d_description := ''Secondary profile: hybrid NIST P-256 + ML-KEM-768 key establishment'',
       d_groups := [''SecP256r1MLKEM768''], d_cipher_suites := default_cipher_suites,
       d_authentication := EcdsaP256, d_allow_classical_fallback := False, d_experimental := False\<rparr>,
     Definition_default\<lparr>d_id := ''hybrid-p384-mlkem1024'',
       d_description := ''High-security experiment: hybrid P-384 + ML-KEM-1024, ECDSA P-384'',
       d_groups := [''SecP384r1MLKEM1024''], d_cipher_suites := [''TLS_AES_256_GCM_SHA384''],
       d_authentication := EcdsaP384, d_allow_classical_fallback := False, d_experimental := False\<rparr>,
     Definition_default\<lparr>d_id := ''pure-mlkem768'',
       d_description := ''EXPERIMENTAL: standalone ML-KEM-768 key establishment, no classical component. Disabled by default.'',
       d_groups := [''MLKEM768''], d_cipher_suites := default_cipher_suites,
       d_authentication := EcdsaP256, d_allow_classical_fallback := False, d_experimental := True\<rparr>,
     Definition_default\<lparr>d_id := ''hybrid-pq-auth'',
       d_description := ''EXPERIMENTAL: hybrid X25519 + ML-KEM-768 key establishment with ML-DSA-65 authentication. Capability-gated.'',
       d_groups := [''X25519MLKEM768''], d_cipher_suites := default_cipher_suites,
       d_authentication := MlDsa65, d_allow_classical_fallback := False, d_experimental := True\<rparr>]"

definition builtin :: "ProfileRegistry result" where
  "builtin = foldE builtin_add builtin_definitions []"

definition find_profile :: "ProfileRegistry \<Rightarrow> string \<Rightarrow> SecurityProfile option" where
  "find_profile profiles key = find (\<lambda>p. profile_id p = key) profiles"

definition ids :: "ProfileRegistry \<Rightarrow> string list" where
  "ids profiles = map profile_id profiles"

definition get_profile :: "ProfileRegistry \<Rightarrow> string \<Rightarrow> SecurityProfile result" where
  "get_profile profiles key =
     (case find_profile profiles key of
        Some profile \<Rightarrow> Inr profile
      | None \<Rightarrow> ConfigurationError (''unknown security profile '' @ quoted key @
          ''. Available profiles: '' @ join (ids profiles) CHR '' ''))"

fun replace_first :: "SecurityProfile \<Rightarrow> ProfileRegistry \<Rightarrow> ProfileRegistry" where
  "replace_first profile [] = []"
| "replace_first profile (p # ps) =
     (if profile_id p = profile_id profile then profile # ps else p # replace_first profile ps)"

definition add_or_replace :: "SecurityProfile \<Rightarrow> ProfileRegistry \<Rightarrow> ProfileRegistry" where
  "add_or_replace profile profiles =
     (if find (\<lambda>p. profile_id p = profile_id profile) profiles = None
      then profiles @ [profile] else replace_first profile profiles)"

section \<open>Group name comparison\<close>

definition fold_case :: "string \<Rightarrow> byte list" where
  "fold_case s = map lower_byte (bytes_of s)"

lemma iequals_loop_iff: "length a = length b \<Longrightarrow> iequals_loop a b \<longleftrightarrow> fold_case a = fold_case b"
  by (induction a b rule: iequals_loop.induct) (auto simp: fold_case_def bytes_of_def)

lemma iequals_iff: "iequals a b \<longleftrightarrow> fold_case a = fold_case b"
proof (cases "length a = length b")
  case True
  then show ?thesis by (simp add: iequals_def iequals_loop_iff)
next
  case False
  then have "fold_case a \<noteq> fold_case b" by (metis fold_case_def length_bytes_of length_map)
  with False show ?thesis by (simp add: iequals_def)
qed

lemma fold_case_Nil_iff [simp]: "fold_case s = [] \<longleftrightarrow> s = []"
  by (simp add: fold_case_def)

lemma list_ex_iequals: "list_ex (\<lambda>c. iequals c g) gs \<longleftrightarrow> fold_case g \<in> fold_case ` set gs"
  by (simp add: list_ex_iff iequals_iff image_iff eq_commute)

lemma contains_group_iff: "contains_group gs g \<longleftrightarrow> fold_case g \<in> fold_case ` set gs"
  by (simp add: contains_group_def list_ex_iequals)

lemma is_hybrid_group_iff: "is_hybrid_group g \<longleftrightarrow> fold_case g \<in> fold_case ` set kHybridGroups"
  by (simp add: is_hybrid_group_def list_ex_iequals)

lemma is_post_quantum_group_iff:
  "is_post_quantum_group g \<longleftrightarrow> fold_case g \<in> fold_case ` set (kHybridGroups @ kPureMlKemGroups)"
  by (simp add: is_post_quantum_group_def list_ex_iequals is_hybrid_group_iff image_Un)

lemma group_class_fold_case:
  assumes "fold_case g = fold_case h"
  shows "is_post_quantum_group g = is_post_quantum_group h" "is_hybrid_group g = is_hybrid_group h"
  using assms by (simp_all add: is_post_quantum_group_iff is_hybrid_group_iff)

section \<open>What a validated profile is\<close>

text \<open>The policy \<open>create\<close> enforces, and the two defaults it fills in.\<close>

definition acceptable :: "Definition \<Rightarrow> bool" where
  "acceptable d \<longleftrightarrow>
     d_id d \<noteq> '''' \<and> d_groups d \<noteq> [] \<and> distinct (d_groups d) \<and>
     (\<forall>s \<in> set (d_cipher_suites d). starts_with s ''TLS_'') \<and>
     (\<forall>g \<in> set (d_groups d). \<not> starts_with g ''TLS_'') \<and>
     (d_allow_classical_fallback d \<or>
        (\<forall>g \<in> set (d_groups d). is_post_quantum_group g) \<or>
        (\<forall>g \<in> set (d_groups d). \<not> is_post_quantum_group g)) \<and>
     (d_experimental d \<or>
        (\<forall>g \<in> set (d_groups d). is_post_quantum_group g \<longrightarrow> is_hybrid_group g) \<and>
        d_authentication d \<noteq> MlDsa65)"

definition with_defaults :: "Definition \<Rightarrow> Definition" where
  "with_defaults d =
     d\<lparr>d_cipher_suites := (if d_cipher_suites d = [] then default_cipher_suites else d_cipher_suites d),
       d_description := (if d_description d = '''' then d_id d else d_description d)\<rparr>"

lemma default_cipher_suites_TLS: "\<forall>s \<in> set default_cipher_suites. starts_with s ''TLS_''"
  by (simp add: default_cipher_suites_def starts_with_def)

lemma card_set_neq_iff: "card (set xs) \<noteq> length xs \<longleftrightarrow> \<not> distinct xs"
  by (metis card_distinct distinct_card)

lemma create_accepts:
  assumes "acceptable d"
  shows "create d = Inr (mk_SecurityProfile (with_defaults d))"
proof -
  define e where "e = (if d_cipher_suites d = [] then d\<lparr>d_cipher_suites := default_cipher_suites\<rparr> else d)"
  have s: "find (\<lambda>suite. \<not> starts_with suite ''TLS_'') (d_cipher_suites e) = None"
    using assms default_cipher_suites_TLS by (simp add: find_eq_None_iff e_def acceptable_def)
  have g: "find (\<lambda>g. starts_with g ''TLS_'') (d_groups e) = None"
    using assms by (simp add: find_eq_None_iff e_def acceptable_def)
  have e: "d_groups e = d_groups d" "d_allow_classical_fallback e = d_allow_classical_fallback d"
    "d_experimental e = d_experimental d" "d_authentication e = d_authentication d"
    by (simp_all add: e_def)
  have v: "d_minimum_version e = Tls13" "d_maximum_version e = Tls13"
    using TlsVersion.exhaust by blast+
  have 1: "\<not> (list_ex is_post_quantum_group (d_groups e) \<and>
      list_ex (\<lambda>g. \<not> is_post_quantum_group g) (d_groups e) \<and> \<not> d_allow_classical_fallback e)"
    using assms unfolding acceptable_def e by (auto simp: list_ex_iff)
  have 2: "\<not> (list_ex (\<lambda>g. is_post_quantum_group g \<and> \<not> is_hybrid_group g) (d_groups e) \<and> \<not> d_experimental e)"
    "\<not> (d_authentication e = MlDsa65 \<and> \<not> d_experimental e)"
    using assms unfolding acceptable_def e by (auto simp: list_ex_iff)
  have 3: "(if d_description e = '''' then e\<lparr>d_description := d_id e\<rparr> else e) = with_defaults d"
    by (simp add: e_def with_defaults_def)
  show ?thesis
    unfolding create_def e_def [symmetric] Let_def
    using assms 1 2 by (simp add: s g v 3 acceptable_def card_set_neq_iff)
qed

lemma create_InrD:
  assumes "create d = Inr p"
  shows "acceptable d"
proof -
  define e where "e = (if d_cipher_suites d = [] then d\<lparr>d_cipher_suites := default_cipher_suites\<rparr> else d)"
  have e: "d_groups e = d_groups d" "d_allow_classical_fallback e = d_allow_classical_fallback d"
    "d_experimental e = d_experimental d" "d_authentication e = d_authentication d"
    by (simp_all add: e_def)
  have r: "d_id d \<noteq> []" "d_groups d \<noteq> []" "distinct (d_groups d)"
    "find (\<lambda>suite. \<not> starts_with suite ''TLS_'') (d_cipher_suites e) = None"
    "find (\<lambda>g. starts_with g ''TLS_'') (d_groups e) = None"
    "\<not> (list_ex is_post_quantum_group (d_groups e) \<and>
      list_ex (\<lambda>g. \<not> is_post_quantum_group g) (d_groups e) \<and> \<not> d_allow_classical_fallback e)"
    "\<not> (list_ex (\<lambda>g. is_post_quantum_group g \<and> \<not> is_hybrid_group g) (d_groups e) \<and> \<not> d_experimental e)"
    "\<not> (d_authentication e = MlDsa65 \<and> \<not> d_experimental e)"
    using assms [unfolded create_def e_def [symmetric] Let_def bind_simps card_set_neq_iff] by blast+
  have "\<forall>s \<in> set (d_cipher_suites d). starts_with s ''TLS_''"
    using r(4) by (auto simp: find_eq_None_iff e_def split: if_splits)
  then show ?thesis using r unfolding acceptable_def e
    by (auto simp: find_eq_None_iff list_ex_iff)
qed

lemma create_total: "only_throws Configuration (create d)"
  unfolding create_def Let_def
  by (intro only_throws_if only_throws_option only_throws_throw_sub only_throws_Inr)

lemma create_rejects: "\<not> acceptable d \<Longrightarrow> throws Configuration (create d)"
  using create_total [of d] create_InrD [of d] unfolding only_throws_def by blast

lemma create_eq: "create d = Inr p \<longleftrightarrow> acceptable d \<and> p = mk_SecurityProfile (with_defaults d)"
  using create_accepts create_rejects not_throws_Inr by (metis sum.inject(2))

definition valid_profile :: "SecurityProfile \<Rightarrow> bool" where
  "valid_profile p \<longleftrightarrow> acceptable (def_of p) \<and> d_cipher_suites (def_of p) \<noteq> []"

lemma with_defaults_fields [simp]:
  "d_id (with_defaults d) = d_id d" "d_groups (with_defaults d) = d_groups d"
  "d_authentication (with_defaults d) = d_authentication d"
  "d_require_client_certificate (with_defaults d) = d_require_client_certificate d"
  "d_allow_classical_fallback (with_defaults d) = d_allow_classical_fallback d"
  "d_experimental (with_defaults d) = d_experimental d"
  by (simp_all add: with_defaults_def)

lemma create_valid:
  assumes "create d = Inr p"
  shows "valid_profile p"
proof -
  have "default_cipher_suites \<noteq> []" by (simp add: default_cipher_suites_def)
  then show ?thesis using assms default_cipher_suites_TLS
    by (auto simp: create_eq valid_profile_def acceptable_def with_defaults_def)
qed

lemma permits_valid_iff:
  assumes "valid_profile p"
  shows "permits_negotiated_group p g \<longleftrightarrow> g \<noteq> '''' \<and> fold_case g \<in> fold_case ` set (profile_groups p)"
proof -
  have "is_post_quantum_group g"
    if h: "h \<in> set (profile_groups p)" "fold_case g = fold_case h" and n: "\<not> d_allow_classical_fallback (def_of p)"
      and o: "offers_post_quantum_key_establishment p" for h
  proof -
    have "is_post_quantum_group h"
      using assms n o h(1) by (auto simp: valid_profile_def acceptable_def
          offers_post_quantum_key_establishment_def list_ex_iff)
    with h(2) show ?thesis using group_class_fold_case(1) by blast
  qed
  then show ?thesis
    by (auto simp: permits_negotiated_group_def contains_group_iff)
qed

section \<open>The registry as a map\<close>

text \<open>
  What clients of a registry rely on: a lookup after an insertion, and the invariant that an id
  names at most one profile.  The client lemma is the behaviour of a sequence of insertions, as
  \<open>from_yaml_file\<close> performs one: the last definition of an id wins and ids never listed keep
  their profile.
\<close>

locale profile_store =
  fixes lookup :: "'r \<Rightarrow> string \<Rightarrow> 'p option"
    and insert_p :: "'p \<Rightarrow> 'r \<Rightarrow> 'r"
    and key :: "'p \<Rightarrow> string"
    and wf :: "'r \<Rightarrow> bool"
  assumes lookup_insert: "lookup (insert_p p r) k = (if k = key p then Some p else lookup r k)"
    and lookup_key: "lookup r k = Some p \<Longrightarrow> key p = k"
    and wf_insert: "wf r \<Longrightarrow> wf (insert_p p r)"
begin

definition insert_all :: "'p list \<Rightarrow> 'r \<Rightarrow> 'r" where
  "insert_all ps r = fold insert_p ps r"

lemma wf_insert_all: "wf r \<Longrightarrow> wf (insert_all ps r)"
  unfolding insert_all_def by (induction ps arbitrary: r) (simp_all add: wf_insert)

lemma lookup_insert_all:
  "lookup (insert_all ps r) k =
     (case find (\<lambda>p. key p = k) (rev ps) of Some p \<Rightarrow> Some p | None \<Rightarrow> lookup r k)"
proof (induction ps rule: rev_induct)
  case Nil
  then show ?case by (simp add: insert_all_def)
next
  case (snoc p ps)
  then show ?case by (simp add: insert_all_def lookup_insert)
qed

lemma lookup_insert_all_mono: "lookup r k \<noteq> None \<Longrightarrow> lookup (insert_all ps r) k \<noteq> None"
  by (simp add: lookup_insert_all split: option.split)

lemma lookup_insert_all_invariant:
  assumes "\<And>k p. lookup r k = Some p \<Longrightarrow> Q p" and "\<forall>p \<in> set ps. Q p"
    and "lookup (insert_all ps r) k = Some p"
  shows "Q p"
  using assms find_eq_Some_set [of _ "rev ps"]
  by (fastforce simp: lookup_insert_all split: option.splits)

end

lemma find_append: "find P (xs @ ys) = (case find P xs of Some x \<Rightarrow> Some x | None \<Rightarrow> find P ys)"
  by (induction xs) simp_all

lemma find_replace_first:
  "profile_id p \<in> profile_id ` set ps \<Longrightarrow>
   find (\<lambda>q. profile_id q = k) (replace_first p ps) =
     (if k = profile_id p then Some p else find (\<lambda>q. profile_id q = k) ps)"
  by (induction ps) auto

lemma ids_replace_first: "map profile_id (replace_first p ps) = map profile_id ps"
  by (induction ps) auto

lemma find_id_None_iff: "find (\<lambda>q. profile_id q = k) ps = None \<longleftrightarrow> k \<notin> set (ids ps)"
  by (auto simp: find_eq_None_iff ids_def)

lemma find_profile_add_or_replace:
  "find_profile (add_or_replace p ps) k = (if k = profile_id p then Some p else find_profile ps k)"
proof (cases "find (\<lambda>q. profile_id q = profile_id p) ps = None")
  case True
  then show ?thesis
    by (auto simp: find_profile_def add_or_replace_def find_append split: option.split)
next
  case False
  then have "profile_id p \<in> profile_id ` set ps" by (simp add: find_id_None_iff ids_def)
  with False show ?thesis by (simp only: find_profile_def add_or_replace_def if_False find_replace_first)
qed

lemma ids_add_or_replace:
  "ids (add_or_replace p ps) = (if profile_id p \<in> set (ids ps) then ids ps else ids ps @ [profile_id p])"
  by (simp add: add_or_replace_def find_id_None_iff ids_replace_first) (simp add: ids_def ids_replace_first)

definition wf_registry :: "ProfileRegistry \<Rightarrow> bool" where
  "wf_registry ps \<longleftrightarrow> distinct (ids ps)"

interpretation reg: profile_store find_profile add_or_replace profile_id wf_registry
proof
  show "find_profile (add_or_replace p r) k = (if k = profile_id p then Some p else find_profile r k)" for p r k
    by (rule find_profile_add_or_replace)
  show "find_profile r k = Some p \<Longrightarrow> profile_id p = k" for r k p
    unfolding find_profile_def using find_eq_Some_set by fastforce
  show "wf_registry r \<Longrightarrow> wf_registry (add_or_replace p r)" for r p
    by (simp add: wf_registry_def ids_add_or_replace)
qed

text \<open>With distinct ids, membership and lookup coincide.\<close>

lemma find_profile_member:
  "wf_registry ps \<Longrightarrow> p \<in> set ps \<longleftrightarrow> find_profile ps (profile_id p) = Some p"
proof
  assume "wf_registry ps" "p \<in> set ps"
  then show "find_profile ps (profile_id p) = Some p"
    unfolding wf_registry_def ids_def find_profile_def
    by (induction ps) (auto simp: image_iff)
qed (auto simp: find_profile_def dest: find_eq_Some_set)

lemma join_from_eq: "join_from vs c out = out @ concat (map (\<lambda>v. c # v) vs)"
  by (induction vs arbitrary: out) simp_all

text \<open>Splitting a string at a separator, to read back what \<open>join\<close> printed.\<close>

fun split_on :: "char \<Rightarrow> string \<Rightarrow> string list" where
  "split_on c [] = [[]]"
| "split_on c (x # s) = (if x = c then [] # split_on c s else
     (case split_on c s of [] \<Rightarrow> [[x]] | w # ws \<Rightarrow> (x # w) # ws))"

lemma split_on_word: "c \<notin> set v \<Longrightarrow> split_on c v = [v]"
  by (induction v) auto

lemma split_on_append: "c \<notin> set v \<Longrightarrow> split_on c (v @ c # s) = v # split_on c s"
  by (induction v) auto

lemma split_on_join:
  assumes "vs \<noteq> []" and "\<forall>v \<in> set vs. c \<notin> set v"
  shows "split_on c (join vs c) = vs"
proof -
  have "split_on c (v @ concat (map ((#) c) vs)) = v # vs"
    if "c \<notin> set v" "\<forall>v \<in> set vs. c \<notin> set v" for v vs
    using that by (induction vs arbitrary: v) (simp_all add: split_on_word split_on_append)
  with assms show ?thesis by (cases vs) (simp_all add: join_def join_from_eq)
qed

definition builtin_registry :: ProfileRegistry where
  "builtin_registry = map (\<lambda>d. mk_SecurityProfile (with_defaults d)) builtin_definitions"

lemma builtin_eq: "builtin = Inr builtin_registry"
  by code_simp

section \<open>Properties\<close>


text \<open>What the group policy of a validated profile lets through.\<close>

lemma permits_post_quantum_only:
  assumes "create d = Inr p" and "\<not> d_allow_classical_fallback d"
    and "offers_post_quantum_key_establishment p" and "permits_negotiated_group p g"
  shows "is_post_quantum_group g \<and> g \<noteq> '''' \<and> (is_hybrid_group g \<or> d_experimental d)"
proof -
  have p: "acceptable d" "profile_groups p = d_groups d" using assms(1) by (auto simp: create_eq)
  obtain h where h: "h \<in> set (d_groups d)" "fold_case g = fold_case h" "g \<noteq> ''''"
    using assms(4) p(2) permits_valid_iff [OF create_valid [OF assms(1)]] by auto
  have "is_post_quantum_group h"
    using assms(2,3) p h(1)
    by (auto simp: offers_post_quantum_key_establishment_def list_ex_iff acceptable_def)
  moreover from this have "is_hybrid_group h \<or> d_experimental d"
    using p(1) h(1) by (auto simp: acceptable_def)
  ultimately show ?thesis using h(3) group_class_fold_case [OF h(2)] by simp
qed

text \<open>
  C8.  No silent downgrade: a profile that passed validation, offers post-quantum key establishment
  and forbids classical fallback permits no negotiated group but post-quantum ones, and never an
  undetermined one; if it is not experimental the group is even a hybrid one.
\<close>

theorem no_silent_downgrade:
  assumes "create d = Inr p" and "\<not> d_allow_classical_fallback d"
    and "offers_post_quantum_key_establishment p" and "permits_negotiated_group p g"
  shows "is_post_quantum_group g \<and> g \<noteq> '''' \<and> (is_hybrid_group g \<or> d_experimental d)"
  by (rule permits_post_quantum_only [OF assms])

definition hybrid_definition :: Definition where
  "hybrid_definition = Definition_default\<lparr>d_id := ''h'', d_groups := [''X25519MLKEM768'']\<rparr>"

lemma hybrid_definition_created:
  "create hybrid_definition = Inr (mk_SecurityProfile (with_defaults hybrid_definition))"
  by code_simp

lemma hybrid_definition_offers:
  "offers_post_quantum_key_establishment (mk_SecurityProfile (with_defaults hybrid_definition))"
  "\<not> d_allow_classical_fallback hybrid_definition"
  by code_simp+

theorem no_silent_downgrade_witness:
  "is_post_quantum_group ''x25519mlkem768'' \<and> ''x25519mlkem768'' \<noteq> '''' \<and>
   (is_hybrid_group ''x25519mlkem768'' \<or> d_experimental hybrid_definition)"
proof (rule no_silent_downgrade [OF hybrid_definition_created])
  show "permits_negotiated_group (mk_SecurityProfile (with_defaults hybrid_definition)) ''x25519mlkem768''"
    by code_simp
qed (fact hybrid_definition_offers)+

text \<open>
  Group policy: for a validated profile the post-handshake check accepts exactly the names that
  equal one of the configured groups up to ASCII case, and fails closed on the empty name.
\<close>

theorem permits_iff_configured:
  assumes "create d = Inr p"
  shows "permits_negotiated_group p g \<longleftrightarrow> g \<noteq> '''' \<and> (\<exists>h \<in> set (d_groups d). iequals h g)"
proof -
  have "profile_groups p = d_groups d" using assms by (auto simp: create_eq)
  then show ?thesis
    using permits_valid_iff [OF create_valid [OF assms]] by (simp add: iequals_iff image_iff eq_commute)
qed

theorem permits_iff_configured_witness:
  "permits_negotiated_group (mk_SecurityProfile (with_defaults hybrid_definition)) ''X25519'' \<longleftrightarrow>
     ''X25519'' \<noteq> '''' \<and> (\<exists>h \<in> set (d_groups hybrid_definition). iequals h ''X25519'')"
  by (rule permits_iff_configured [OF hybrid_definition_created])

text \<open>
  What OpenSSL is told: reading the colon-separated lists back gives exactly the groups and the
  cipher suites of the profile, in preference order, when no name contains a colon.
\<close>

theorem openssl_lists_faithful:
  assumes "create d = Inr p"
    and "\<forall>v \<in> set (profile_groups p) \<union> set (d_cipher_suites (def_of p)). CHR '':'' \<notin> set v"
  shows "split_on CHR '':'' (openssl_groups_list p) = profile_groups p \<and>
         split_on CHR '':'' (openssl_ciphersuites_list p) = d_cipher_suites (def_of p)"
proof -
  have "profile_groups p \<noteq> []" "d_cipher_suites (def_of p) \<noteq> []"
    using create_valid [OF assms(1)] by (auto simp: valid_profile_def acceptable_def)
  with assms(2) show ?thesis
    by (simp add: openssl_groups_list_def openssl_ciphersuites_list_def split_on_join)
qed

theorem openssl_lists_faithful_witness:
  "split_on CHR '':'' (openssl_groups_list (mk_SecurityProfile (with_defaults hybrid_definition)))
     = profile_groups (mk_SecurityProfile (with_defaults hybrid_definition)) \<and>
   split_on CHR '':'' (openssl_ciphersuites_list (mk_SecurityProfile (with_defaults hybrid_definition)))
     = d_cipher_suites (def_of (mk_SecurityProfile (with_defaults hybrid_definition)))"
  by (rule openssl_lists_faithful [OF hybrid_definition_created]) code_simp

text \<open>
  C39.  The registry is a map from ids to profiles: after \<open>add_or_replace\<close> the new profile is
  found under its id, every other id finds what it found before, an id already present keeps its
  position and no id is ever listed twice.
\<close>

theorem registry_is_map:
  "find_profile (add_or_replace p r) k = (if k = profile_id p then Some p else find_profile r k) \<and>
   get_profile (add_or_replace p r) (profile_id p) = Inr p \<and>
   ids (add_or_replace p r) = (if profile_id p \<in> set (ids r) then ids r else ids r @ [profile_id p]) \<and>
   (distinct (ids (add_or_replace p r)) \<longleftrightarrow> distinct (ids r))"
  by (simp add: reg.lookup_insert get_profile_def ids_add_or_replace)

text \<open>
  The built-in catalogue: \<open>builtin\<close> never throws, lists seven profiles under distinct
  ids, all of them valid; classical fallback is allowed by the two classical baselines only, and
  exactly the pure ML-KEM and the ML-DSA profiles are experimental.
\<close>

theorem builtin_catalogue:
  "\<exists>r. builtin = Inr r \<and>
    ids r = [''classical-x25519'', ''classical-p256'', ''hybrid-x25519-mlkem768'',
      ''hybrid-p256-mlkem768'', ''hybrid-p384-mlkem1024'', ''pure-mlkem768'', ''hybrid-pq-auth''] \<and>
    distinct (ids r) \<and> list_all valid_profile r \<and>
    ids (filter (\<lambda>p. d_allow_classical_fallback (def_of p)) r) = [''classical-x25519'', ''classical-p256''] \<and>
    ids (filter (\<lambda>p. \<not> offers_post_quantum_key_establishment p) r) = [''classical-x25519'', ''classical-p256''] \<and>
    ids (filter (\<lambda>p. d_experimental (def_of p)) r) = [''pure-mlkem768'', ''hybrid-pq-auth'']"
  by (intro exI [of _ builtin_registry] conjI; code_simp)

end
