(* ===== verification/Yaml.thy ===== *)
theory Yaml
  imports Errors
begin

text \<open>
  The part of yaml-cpp the sources use, as a record of operations on an abstract node type
  \<open>'n\<close>: the library is not part of the repository, so every definition that reads YAML takes
  the record as an argument.  A node stands for a \<open>const YAML::Node\<close>, undefined nodes included;
  a conversion or a subscript that throws a \<open>YAML::Exception\<close> is \<open>Inl\<close> with its
  \<open>what()\<close>.  \<open>ynode\<close> and \<open>yaml_reference\<close> are a concrete instance that the
  witnesses evaluate.
\<close>

datatype yaml_load_error = BadFile string | YamlException string

fun yaml_what :: "yaml_load_error \<Rightarrow> string" where
  "yaml_what (BadFile w) = w"
| "yaml_what (YamlException w) = w"

record 'n yaml_api =
  y_load :: "string \<Rightarrow> yaml_load_error + 'n"
  y_bool :: "'n \<Rightarrow> bool"
  y_is_map :: "'n \<Rightarrow> bool"
  y_is_sequence :: "'n \<Rightarrow> bool"
  y_entry_keys :: "'n \<Rightarrow> 'n list"
  y_items :: "'n \<Rightarrow> 'n list"
  y_index :: "'n \<Rightarrow> string \<Rightarrow> string + 'n"
  y_as_string :: "'n \<Rightarrow> string + string"
  y_as_bool :: "'n \<Rightarrow> string + bool"
  y_as_int :: "'n \<Rightarrow> string + int"
  y_as_uint32 :: "'n \<Rightarrow> string + u32"

text \<open>A library exception propagates as a foreign exception.\<close>

definition foreign :: "string + 'a \<Rightarrow> 'a result" where
  "foreign r = (case r of Inl w \<Rightarrow> Inl (Std w) | Inr x \<Rightarrow> Inr x)"

lemma foreign_simps [simp]: "foreign (Inl w) = Inl (Std w)" "foreign (Inr x) = Inr x"
  by (simp_all add: foreign_def)

lemma foreign_eq_Inr_iff [simp]: "foreign r = Inr x \<longleftrightarrow> r = Inr x"
  by (cases r) simp_all

abbreviation y_at :: "('n, 'z) yaml_api_scheme \<Rightarrow> 'n \<Rightarrow> string \<Rightarrow> 'n result" where
  "y_at Y node key \<equiv> foreign (y_index Y node key)"

text \<open>\<open>if (node[key]) { body }\<close>: the body runs on the subnode when it is defined.\<close>

definition if_key ::
  "('n, 'z) yaml_api_scheme \<Rightarrow> 'n \<Rightarrow> string \<Rightarrow> ('n \<Rightarrow> 's \<Rightarrow> 's result) \<Rightarrow> 's \<Rightarrow> 's result" where
  "if_key Y node key body s = bindE (y_at Y node key) (\<lambda>v. if y_bool Y v then body v s else Inr s)"

lemma if_key_absent: "y_at Y node key = Inr v \<Longrightarrow> \<not> y_bool Y v \<Longrightarrow> if_key Y node key body s = Inr s"
  by (simp add: if_key_def)

lemma if_key_cases:
  assumes "if_key Y node key body s = Inr t"
  obtains v where "y_index Y node key = Inr v" "y_bool Y v" "body v s = Inr t"
  | v where "y_index Y node key = Inr v" "\<not> y_bool Y v" "t = s"
  using assms by (auto simp: if_key_def bindE_eq_Inr_iff split: if_splits)

text \<open>The loop \<open>for (x : seq) out.push_back(x.as<std::string>())\<close>.\<close>

definition push_strings :: "('n, 'z) yaml_api_scheme \<Rightarrow> 'n list \<Rightarrow> string list \<Rightarrow> string list result" where
  "push_strings Y = foldE (\<lambda>g out. bindE (foreign (y_as_string Y g)) (\<lambda>v. Inr (out @ [v])))"

lemma push_strings_eq:
  "push_strings Y gs out = Inr vs \<longleftrightarrow>
     (\<exists>ws. vs = out @ ws \<and> list_all2 (\<lambda>g v. y_as_string Y g = Inr v) gs ws)"
proof (induction gs arbitrary: out)
  case Nil
  then show ?case by (auto simp: push_strings_def)
next
  case (Cons g gs)
  have "push_strings Y (g # gs) out = Inr vs \<longleftrightarrow>
      (\<exists>v. y_as_string Y g = Inr v \<and> push_strings Y gs (out @ [v]) = Inr vs)"
    by (auto simp: push_strings_def bindE_eq_Inr_iff)
  with Cons.IH show ?case by (fastforce simp: list_all2_Cons1)
qed

section \<open>A reference instance\<close>

datatype ynode = YUndefined | YNull | YScalar string | YSeq "ynode list" | YMap "(string \<times> ynode) list"

fun yref_index :: "ynode \<Rightarrow> string \<Rightarrow> string + ynode" where
  "yref_index (YMap m) k = Inr (case map_of m k of Some v \<Rightarrow> v | None \<Rightarrow> YUndefined)"
| "yref_index (YScalar s) k = Inl ''operator[] call on a scalar''"
| "yref_index n k = Inr YUndefined"

fun yref_string :: "ynode \<Rightarrow> string + string" where
  "yref_string (YScalar s) = Inr s"
| "yref_string n = Inl ''bad conversion''"

definition yref_bool :: "ynode \<Rightarrow> string + bool" where
  "yref_bool n = (if n = YScalar ''true'' then Inr True
     else if n = YScalar ''false'' then Inr False else Inl ''bad conversion'')"

text \<open>Decimal digits, as \<open>std::stringstream\<close> extraction reads them.\<close>

fun nat_of_digits :: "nat \<Rightarrow> string \<Rightarrow> nat option" where
  "nat_of_digits n [] = Some n"
| "nat_of_digits n (c # s) = (if 48 \<le> (of_char c :: nat) \<and> (of_char c :: nat) \<le> 57
     then nat_of_digits (10 * n + (of_char c - 48)) s else None)"

fun yref_int :: "ynode \<Rightarrow> string + int" where
  "yref_int (YScalar s) = (case nat_of_digits 0 s of
      Some n \<Rightarrow> if s \<noteq> [] \<and> n < 2147483648 then Inr (int n) else Inl ''bad conversion''
    | None \<Rightarrow> Inl ''bad conversion'')"
| "yref_int n = Inl ''bad conversion''"

fun yref_uint32 :: "ynode \<Rightarrow> string + u32" where
  "yref_uint32 (YScalar s) = (case nat_of_digits 0 s of
      Some n \<Rightarrow> if s \<noteq> [] \<and> n < 4294967296 then Inr (of_nat n) else Inl ''bad conversion''
    | None \<Rightarrow> Inl ''bad conversion'')"
| "yref_uint32 n = Inl ''bad conversion''"

text \<open>An instance whose file system holds one document.\<close>

definition yaml_reference :: "string \<Rightarrow> ynode \<Rightarrow> ynode yaml_api" where
  "yaml_reference file doc =
     \<lparr>y_load = (\<lambda>path. if path = file then Inr doc else Inl (BadFile ''bad file'')),
      y_bool = (\<lambda>n. n \<noteq> YUndefined),
      y_is_map = (\<lambda>n. case n of YMap m \<Rightarrow> True | _ \<Rightarrow> False),
      y_is_sequence = (\<lambda>n. case n of YSeq xs \<Rightarrow> True | _ \<Rightarrow> False),
      y_entry_keys = (\<lambda>n. case n of YMap m \<Rightarrow> map (\<lambda>e. YScalar (fst e)) m | _ \<Rightarrow> []),
      y_items = (\<lambda>n. case n of YSeq xs \<Rightarrow> xs | _ \<Rightarrow> []),
      y_index = yref_index, y_as_string = yref_string, y_as_bool = yref_bool,
      y_as_int = yref_int, y_as_uint32 = yref_uint32\<rparr>"

end
