(* ===== verification/ProfileYaml.thy ===== *)
theory ProfileYaml
  imports Profile Yaml
begin

text \<open>
  Loading profiles from YAML: \<open>reject_unknown_keys\<close>, \<open>parse_profile_node\<close> and
  \<open>ProfileRegistry::from_yaml_file\<close> of \<open>src/common/security_profile.cpp\<close>.
\<close>

definition reject_unknown_keys ::
  "('n, 'z) yaml_api_scheme \<Rightarrow> 'n \<Rightarrow> string list \<Rightarrow> string \<Rightarrow> unit result" where
  "reject_unknown_keys Y node known context0 =
     (if \<not> y_is_map Y node then Inr ()
      else foldE (\<lambda>entry u. bindE (foreign (y_as_string Y entry)) (\<lambda>k.
             if \<not> k \<in> set known
             then ConfigurationError (''unknown key '' @ quoted k @ '' in '' @ context0 @
               ''. Remove it or correct the spelling; unknown keys are rejected so that a typo cannot silently weaken a policy.'')
             else Inr ()))
           (y_entry_keys Y node) ())"

definition profile_keys :: "string list" where
  "profile_keys = [''id'', ''description'', ''tls'', ''groups'', ''cipher_suites'', ''authentication'',
     ''fallback'', ''experimental'']"

definition parse_tls_version ::
  "('n, 'z) yaml_api_scheme \<Rightarrow> string \<Rightarrow> string \<Rightarrow> 'n \<Rightarrow> TlsVersion result" where
  "parse_tls_version Y ident key v =
     bindE (foreign (y_as_string Y v)) (\<lambda>raw.
       case tls_version_from_string raw of
         None \<Rightarrow> ConfigurationError (''profile '' @ quoted ident @ '': unsupported tls.'' @ key @ '' '' @
           quoted raw @ ''. Only TLS1.3 is supported.'')
       | Some parsed \<Rightarrow> Inr parsed)"

definition parse_tls_section ::
  "('n, 'z) yaml_api_scheme \<Rightarrow> 'n \<Rightarrow> Definition \<Rightarrow> Definition result" where
  "parse_tls_section Y tls def =
     bindE (reject_unknown_keys Y tls [''minimum_version'', ''maximum_version'']
             (''profile '' @ quoted (d_id def) @ '' tls section'')) (\<lambda>_.
     bindE (if_key Y tls ''minimum_version'' (\<lambda>v d.
             bindE (parse_tls_version Y (d_id d) ''minimum_version'' v) (\<lambda>p. Inr (d\<lparr>d_minimum_version := p\<rparr>))) def)
       (if_key Y tls ''maximum_version'' (\<lambda>v d.
             bindE (parse_tls_version Y (d_id d) ''maximum_version'' v) (\<lambda>p. Inr (d\<lparr>d_maximum_version := p\<rparr>)))))"

definition parse_groups_section ::
  "('n, 'z) yaml_api_scheme \<Rightarrow> 'n \<Rightarrow> Definition \<Rightarrow> Definition result" where
  "parse_groups_section Y groups def =
     (if \<not> y_is_sequence Y groups
      then ConfigurationError (''profile '' @ quoted (d_id def) @ '': '' @ quoted ''groups'' @ '' must be a list'')
      else bindE (push_strings Y (y_items Y groups) (d_groups def)) (\<lambda>gs. Inr (def\<lparr>d_groups := gs\<rparr>)))"

definition parse_suites_section ::
  "('n, 'z) yaml_api_scheme \<Rightarrow> 'n \<Rightarrow> Definition \<Rightarrow> Definition result" where
  "parse_suites_section Y suites def =
     (if \<not> y_is_sequence Y suites
      then ConfigurationError (''profile '' @ quoted (d_id def) @ '': '' @ quoted ''cipher_suites'' @ '' must be a list'')
      else bindE (push_strings Y (y_items Y suites) (d_cipher_suites def)) (\<lambda>ss. Inr (def\<lparr>d_cipher_suites := ss\<rparr>)))"

definition parse_auth_section ::
  "('n, 'z) yaml_api_scheme \<Rightarrow> 'n \<Rightarrow> Definition \<Rightarrow> Definition result" where
  "parse_auth_section Y auth def =
     bindE (reject_unknown_keys Y auth [''type'', ''require_client_certificate'']
             (''profile '' @ quoted (d_id def) @ '' authentication section'')) (\<lambda>_.
     bindE (if_key Y auth ''type'' (\<lambda>v d.
             bindE (foreign (y_as_string Y v)) (\<lambda>raw.
               case authentication_type_from_string raw of
                 None \<Rightarrow> ConfigurationError (''profile '' @ quoted (d_id d) @
                   '': unknown authentication.type '' @ quoted raw)
               | Some parsed \<Rightarrow> Inr (d\<lparr>d_authentication := parsed\<rparr>))) def)
       (if_key Y auth ''require_client_certificate'' (\<lambda>v d.
             bindE (foreign (y_as_bool Y v)) (\<lambda>b. Inr (d\<lparr>d_require_client_certificate := b\<rparr>)))))"

definition parse_fallback_section ::
  "('n, 'z) yaml_api_scheme \<Rightarrow> 'n \<Rightarrow> Definition \<Rightarrow> Definition result" where
  "parse_fallback_section Y fallback def =
     bindE (reject_unknown_keys Y fallback [''allow_classical'']
             (''profile '' @ quoted (d_id def) @ '' fallback section'')) (\<lambda>_.
       if_key Y fallback ''allow_classical'' (\<lambda>v d.
             bindE (foreign (y_as_bool Y v)) (\<lambda>b. Inr (d\<lparr>d_allow_classical_fallback := b\<rparr>))) def)"

text \<open>\<open>parse_profile_node\<close> up to its final call of \<open>create\<close>.\<close>

definition parse_profile_fields :: "('n, 'z) yaml_api_scheme \<Rightarrow> 'n \<Rightarrow> Definition result" where
  "parse_profile_fields Y node =
     bindE (reject_unknown_keys Y node profile_keys ''profile definition'') (\<lambda>_.
     bindE (y_at Y node ''id'') (\<lambda>id_node.
     if \<not> y_bool Y id_node
     then ConfigurationError (''profile definition is missing the mandatory '' @ quoted ''id'' @ '' key'')
     else
     bindE (foreign (y_as_string Y id_node)) (\<lambda>ident.
     bindE (if_key Y node ''description'' (\<lambda>v d.
             bindE (foreign (y_as_string Y v)) (\<lambda>s. Inr (d\<lparr>d_description := s\<rparr>)))
             (Definition_default\<lparr>d_id := ident\<rparr>)) (\<lambda>def1.
     bindE (if_key Y node ''tls'' (parse_tls_section Y) def1) (\<lambda>def2.
     bindE (if_key Y node ''groups'' (parse_groups_section Y) def2) (\<lambda>def3.
     bindE (if_key Y node ''cipher_suites'' (parse_suites_section Y) def3) (\<lambda>def4.
     bindE (if_key Y node ''authentication'' (parse_auth_section Y) def4) (\<lambda>def5.
     bindE (if_key Y node ''fallback'' (parse_fallback_section Y) def5) (\<lambda>def6.
       if_key Y node ''experimental'' (\<lambda>v d.
         bindE (foreign (y_as_bool Y v)) (\<lambda>b. Inr (d\<lparr>d_experimental := b\<rparr>))) def6)))))))))"

definition parse_profile_node :: "('n, 'z) yaml_api_scheme \<Rightarrow> 'n \<Rightarrow> SecurityProfile result" where
  "parse_profile_node Y node = bindE (parse_profile_fields Y node) create"

definition from_yaml_file :: "('n, 'z) yaml_api_scheme \<Rightarrow> string \<Rightarrow> ProfileRegistry result" where
  "from_yaml_file Y path =
     bindE builtin (\<lambda>registry.
     case y_load Y path of
       Inl e \<Rightarrow> ConfigurationError (''failed to parse profiles file '' @ quoted path @ '': '' @ yaml_what e)
     | Inr root \<Rightarrow>
       bindE (reject_unknown_keys Y root [''profiles'', ''schema_version'']
               (''profiles file '' @ quoted path)) (\<lambda>_.
       bindE (y_at Y root ''profiles'') (\<lambda>profiles.
       if \<not> y_bool Y profiles \<or> \<not> y_is_sequence Y profiles
       then ConfigurationError (''profiles file '' @ quoted path @
              '' must contain a top-level '' @ quoted ''profiles'' @ '' list'')
       else foldE (\<lambda>node r. bindE (parse_profile_node Y node) (\<lambda>p. Inr (add_or_replace p r)))
              (y_items Y profiles) registry)))"

section \<open>Lemmas\<close>

lemma reject_unknown_keys_eq:
  "reject_unknown_keys Y node known ctxt = Inr u \<longleftrightarrow>
     (y_is_map Y node \<longrightarrow>
        (\<forall>e \<in> set (y_entry_keys Y node). \<exists>k. y_as_string Y e = Inr k \<and> k \<in> set known))"
proof -
  have "foldE (\<lambda>entry u. bindE (foreign (y_as_string Y entry)) (\<lambda>k.
             if \<not> k \<in> set known then ConfigurationError (m k) else Inr ())) es () = Inr u \<longleftrightarrow>
        (\<forall>e \<in> set es. \<exists>k. y_as_string Y e = Inr k \<and> k \<in> set known)" for es m
    by (induction es) (auto simp: bindE_eq_Inr_iff)
  then show ?thesis by (simp add: reject_unknown_keys_def)
qed

lemma if_key_frame:
  assumes "if_key Y n k body s = Inr t" and "\<And>v d e. body v d = Inr e \<Longrightarrow> f e = f d"
  shows "f t = f s"
  using assms(1) by (rule if_key_cases) (simp_all add: assms(2))

text \<open>Which fields the sections leave alone.\<close>

lemma parse_tls_section_frame:
  assumes "parse_tls_section Y tls d = Inr e"
  shows "d_id e = d_id d \<and> d_groups e = d_groups d \<and>
    d_allow_classical_fallback e = d_allow_classical_fallback d \<and> d_experimental e = d_experimental d"
proof -
  define f where "f x = (d_id x, d_groups x, d_allow_classical_fallback x, d_experimental x)" for x :: Definition
  from assms obtain m where
    m: "if_key Y tls ''minimum_version'' (\<lambda>v d.
          bindE (parse_tls_version Y (d_id d) ''minimum_version'' v) (\<lambda>p. Inr (d\<lparr>d_minimum_version := p\<rparr>))) d = Inr m"
       "if_key Y tls ''maximum_version'' (\<lambda>v d.
          bindE (parse_tls_version Y (d_id d) ''maximum_version'' v) (\<lambda>p. Inr (d\<lparr>d_maximum_version := p\<rparr>))) m = Inr e"
    by (auto simp: parse_tls_section_def bindE_eq_Inr_iff)
  have "f m = f d" by (rule if_key_frame [OF m(1)]) (auto simp: bindE_eq_Inr_iff f_def)
  moreover have "f e = f m" by (rule if_key_frame [OF m(2)]) (auto simp: bindE_eq_Inr_iff f_def)
  ultimately show ?thesis by (simp add: f_def)
qed

lemma parse_groups_section_eq:
  "parse_groups_section Y groups d = Inr e \<longleftrightarrow>
     y_is_sequence Y groups \<and> (\<exists>gs. push_strings Y (y_items Y groups) (d_groups d) = Inr gs \<and> e = d\<lparr>d_groups := gs\<rparr>)"
  by (auto simp: parse_groups_section_def bindE_eq_Inr_iff)

lemma parse_suites_section_frame:
  "parse_suites_section Y suites d = Inr e \<Longrightarrow> \<exists>ss. e = d\<lparr>d_cipher_suites := ss\<rparr>"
  by (auto simp: parse_suites_section_def bindE_eq_Inr_iff split: if_splits)

lemma parse_auth_section_frame:
  assumes "parse_auth_section Y auth d = Inr e"
  shows "d_id e = d_id d \<and> d_groups e = d_groups d \<and>
    d_allow_classical_fallback e = d_allow_classical_fallback d \<and> d_experimental e = d_experimental d"
proof -
  define f where "f x = (d_id x, d_groups x, d_allow_classical_fallback x, d_experimental x)" for x :: Definition
  from assms obtain m where
    m: "if_key Y auth ''type'' (\<lambda>v d.
             bindE (foreign (y_as_string Y v)) (\<lambda>raw.
               case authentication_type_from_string raw of
                 None \<Rightarrow> ConfigurationError (''profile '' @ quoted (d_id d) @
                   '': unknown authentication.type '' @ quoted raw)
               | Some parsed \<Rightarrow> Inr (d\<lparr>d_authentication := parsed\<rparr>))) d = Inr m"
      "if_key Y auth ''require_client_certificate'' (\<lambda>v d.
             bindE (foreign (y_as_bool Y v)) (\<lambda>b. Inr (d\<lparr>d_require_client_certificate := b\<rparr>))) m = Inr e"
    by (auto simp: parse_auth_section_def bindE_eq_Inr_iff)
  have "f m = f d"
    by (rule if_key_frame [OF m(1)]) (auto simp: bindE_eq_Inr_iff f_def split: option.splits)
  moreover have "f e = f m" by (rule if_key_frame [OF m(2)]) (auto simp: bindE_eq_Inr_iff f_def)
  ultimately show ?thesis by (simp add: f_def)
qed

lemma parse_fallback_section_effect:
  assumes "parse_fallback_section Y fb d = Inr e"
  shows "d_id e = d_id d \<and> d_groups e = d_groups d \<and> d_experimental e = d_experimental d \<and>
    reject_unknown_keys Y fb [''allow_classical''] (''profile '' @ quoted (d_id d) @ '' fallback section'') = Inr () \<and>
    (d_allow_classical_fallback e \<longrightarrow> d_allow_classical_fallback d \<or>
       (\<exists>v. y_index Y fb ''allow_classical'' = Inr v \<and> y_bool Y v \<and> y_as_bool Y v = Inr True))"
  using assms by (auto simp: parse_fallback_section_def bindE_eq_Inr_iff elim!: if_key_cases)

text \<open>The state of the definition after every step of \<open>parse_profile_fields\<close>.\<close>

lemma parse_profile_fields_steps:
  assumes "parse_profile_fields Y node = Inr d"
  obtains i ident def1 def2 def3 def4 def5 def6 where
    "reject_unknown_keys Y node profile_keys ''profile definition'' = Inr ()"
    "y_index Y node ''id'' = Inr i" "y_as_string Y i = Inr ident"
    "if_key Y node ''description'' (\<lambda>v d. bindE (foreign (y_as_string Y v)) (\<lambda>s. Inr (d\<lparr>d_description := s\<rparr>)))
       (Definition_default\<lparr>d_id := ident\<rparr>) = Inr def1"
    "if_key Y node ''tls'' (parse_tls_section Y) def1 = Inr def2"
    "if_key Y node ''groups'' (parse_groups_section Y) def2 = Inr def3"
    "if_key Y node ''cipher_suites'' (parse_suites_section Y) def3 = Inr def4"
    "if_key Y node ''authentication'' (parse_auth_section Y) def4 = Inr def5"
    "if_key Y node ''fallback'' (parse_fallback_section Y) def5 = Inr def6"
    "if_key Y node ''experimental'' (\<lambda>v d.
       bindE (foreign (y_as_bool Y v)) (\<lambda>b. Inr (d\<lparr>d_experimental := b\<rparr>))) def6 = Inr d"
  using assms unfolding parse_profile_fields_def bindE_eq_Inr_iff guard_eq_Inr_iff foreign_eq_Inr_iff
  by (elim exE conjE) simp

definition explicit_true :: "('n, 'z) yaml_api_scheme \<Rightarrow> 'n \<Rightarrow> string \<Rightarrow> bool" where
  "explicit_true Y node key \<longleftrightarrow> (\<exists>v. y_index Y node key = Inr v \<and> y_bool Y v \<and> y_as_bool Y v = Inr True)"

lemma parse_profile_fields_explicit:
  assumes "parse_profile_fields Y node = Inr d"
  shows "\<exists>i. y_index Y node ''id'' = Inr i \<and> y_as_string Y i = Inr (d_id d)"
    and "d_groups d = [] \<or> (\<exists>g. y_index Y node ''groups'' = Inr g \<and> y_bool Y g \<and> y_is_sequence Y g \<and>
       list_all2 (\<lambda>g v. y_as_string Y g = Inr v) (y_items Y g) (d_groups d))"
    and "d_allow_classical_fallback d \<Longrightarrow>
       \<exists>fb. y_index Y node ''fallback'' = Inr fb \<and> y_bool Y fb \<and> explicit_true Y fb ''allow_classical''"
    and "d_experimental d \<Longrightarrow> explicit_true Y node ''experimental''"
proof -
  from assms obtain i ident def1 def2 def3 def4 def5 def6 where
    i: "y_index Y node ''id'' = Inr i" "y_as_string Y i = Inr ident"
    and s1: "if_key Y node ''description'' (\<lambda>v d. bindE (foreign (y_as_string Y v)) (\<lambda>s. Inr (d\<lparr>d_description := s\<rparr>)))
       (Definition_default\<lparr>d_id := ident\<rparr>) = Inr def1"
    and s2: "if_key Y node ''tls'' (parse_tls_section Y) def1 = Inr def2"
    and s3: "if_key Y node ''groups'' (parse_groups_section Y) def2 = Inr def3"
    and s4: "if_key Y node ''cipher_suites'' (parse_suites_section Y) def3 = Inr def4"
    and s5: "if_key Y node ''authentication'' (parse_auth_section Y) def4 = Inr def5"
    and s6: "if_key Y node ''fallback'' (parse_fallback_section Y) def5 = Inr def6"
    and s7: "if_key Y node ''experimental'' (\<lambda>v d.
       bindE (foreign (y_as_bool Y v)) (\<lambda>b. Inr (d\<lparr>d_experimental := b\<rparr>))) def6 = Inr d"
    by (rule parse_profile_fields_steps)
  define f where "f x = (d_id x, d_groups x, d_allow_classical_fallback x, d_experimental x)" for x :: Definition
  have descr: "bindE (foreign (y_as_string Y v)) (\<lambda>s. Inr (x\<lparr>d_description := s\<rparr>)) = Inr e \<Longrightarrow> f e = f x" for v x e
    by (auto simp: bindE_eq_Inr_iff f_def)
  have "f def1 = f (Definition_default\<lparr>d_id := ident\<rparr>)"
    using s1 by (rule if_key_frame) (rule descr)
  then have f1: "f def1 = (ident, [], False, False)" by (simp add: f_def Definition_default_def)
  have f2: "f def2 = f def1"
    by (rule if_key_frame [OF s2]) (simp add: f_def parse_tls_section_frame)
  have f4: "f def4 = f def3"
    by (rule if_key_frame [OF s4]) (auto simp: f_def dest!: parse_suites_section_frame)
  have f5: "f def5 = f def4"
    by (rule if_key_frame [OF s5]) (simp add: f_def parse_auth_section_frame)
  have g: "d_id def3 = ident" "\<not> d_allow_classical_fallback def3" "\<not> d_experimental def3"
    "d_groups def3 = [] \<or> (\<exists>g. y_index Y node ''groups'' = Inr g \<and> y_bool Y g \<and> y_is_sequence Y g \<and>
       list_all2 (\<lambda>g v. y_as_string Y g = Inr v) (y_items Y g) (d_groups def3))"
    using s3 f2 f1 by (auto simp: f_def parse_groups_section_eq push_strings_eq elim!: if_key_cases)
  have f6: "d_id def6 = d_id def5 \<and> d_groups def6 = d_groups def5 \<and> d_experimental def6 = d_experimental def5 \<and>
    (d_allow_classical_fallback def6 \<longrightarrow> d_allow_classical_fallback def5 \<or>
       (\<exists>fb. y_index Y node ''fallback'' = Inr fb \<and> y_bool Y fb \<and> explicit_true Y fb ''allow_classical''))"
    using s6
  proof (rule if_key_cases)
    fix fb assume "y_index Y node ''fallback'' = Inr fb" "y_bool Y fb" "parse_fallback_section Y fb def5 = Inr def6"
    then show ?thesis using parse_fallback_section_effect [of Y fb def5 def6] unfolding explicit_true_def by blast
  qed simp
  have f7: "d_id d = d_id def6" "d_groups d = d_groups def6"
    "d_allow_classical_fallback d = d_allow_classical_fallback def6"
    "d_experimental d \<Longrightarrow> d_experimental def6 \<or> explicit_true Y node ''experimental''"
    using s7 by (auto simp: explicit_true_def bindE_eq_Inr_iff elim!: if_key_cases)
  have same: "d_id def5 = ident" "d_groups def5 = d_groups def3" "\<not> d_allow_classical_fallback def5"
    "\<not> d_experimental def5"
    using f4 f5 g(1,2,3) by (simp_all add: f_def)
  show "\<exists>i. y_index Y node ''id'' = Inr i \<and> y_as_string Y i = Inr (d_id d)"
    using i f7(1) f6 same(1) by simp
  show "d_groups d = [] \<or> (\<exists>g. y_index Y node ''groups'' = Inr g \<and> y_bool Y g \<and> y_is_sequence Y g \<and>
       list_all2 (\<lambda>g v. y_as_string Y g = Inr v) (y_items Y g) (d_groups d))"
    using g(4) f7(2) f6 same(2) by simp
  show "d_allow_classical_fallback d \<Longrightarrow>
       \<exists>fb. y_index Y node ''fallback'' = Inr fb \<and> y_bool Y fb \<and> explicit_true Y fb ''allow_classical''"
    using f7(3) f6 same(3) by blast
  show "d_experimental d \<Longrightarrow> explicit_true Y node ''experimental''"
    using f7(4) f6 same(4) by blast
qed

text \<open>A successful load is the insertion of the parsed profiles, in file order.\<close>

lemma load_profiles_fold:
  "foldE (\<lambda>node r. bindE (parse_profile_node Y node) (\<lambda>p. Inr (add_or_replace p r))) nodes r0 = Inr r \<longleftrightarrow>
     (\<exists>ps. list_all2 (\<lambda>n p. parse_profile_node Y n = Inr p) nodes ps \<and> r = reg.insert_all ps r0)"
proof (induction nodes arbitrary: r0)
  case Nil
  then show ?case by (auto simp: reg.insert_all_def)
next
  case (Cons n nodes)
  then show ?case by (fastforce simp: bindE_eq_Inr_iff list_all2_Cons1 reg.insert_all_def)
qed

lemma from_yaml_file_eq:
  "from_yaml_file Y path = Inr r \<longleftrightarrow>
     (\<exists>root profiles ps. y_load Y path = Inr root \<and>
        reject_unknown_keys Y root [''profiles'', ''schema_version''] (''profiles file '' @ quoted path) = Inr () \<and>
        y_index Y root ''profiles'' = Inr profiles \<and> y_bool Y profiles \<and> y_is_sequence Y profiles \<and>
        list_all2 (\<lambda>n p. parse_profile_node Y n = Inr p) (y_items Y profiles) ps \<and>
        r = reg.insert_all ps builtin_registry)"
  unfolding from_yaml_file_def builtin_eq bindE_Inr
  by (cases "y_load Y path") (simp_all add: bindE_eq_Inr_iff guard_eq_Inr_iff load_profiles_fold)

lemma parse_profile_node_valid: "parse_profile_node Y node = Inr p \<Longrightarrow> valid_profile p"
  by (auto simp: parse_profile_node_def bindE_eq_Inr_iff intro: create_valid)

lemma builtin_registry_valid: "wf_registry builtin_registry" "list_all valid_profile builtin_registry"
  by code_simp+

section \<open>Properties\<close>

text \<open>
  Loading profiles keeps the registry sound: when \<open>from_yaml_file\<close> returns, every profile
  of the registry is a validated one, ids are distinct, no built-in id has disappeared, and a lookup
  yields the last definition of that id in the file, or else the built-in profile.
\<close>

theorem from_yaml_file_sound:
  assumes "from_yaml_file Y path = Inr r"
  shows "list_all valid_profile r \<and> distinct (ids r) \<and>
    (\<forall>k \<in> set (ids builtin_registry). find_profile r k \<noteq> None) \<and>
    (\<exists>root profiles ps. y_load Y path = Inr root \<and> y_index Y root ''profiles'' = Inr profiles \<and>
       list_all2 (\<lambda>n p. parse_profile_node Y n = Inr p) (y_items Y profiles) ps \<and>
       find_profile r = (\<lambda>k. case find (\<lambda>p. profile_id p = k) (rev ps) of
          Some p \<Rightarrow> Some p | None \<Rightarrow> find_profile builtin_registry k))"
proof -
  from assms obtain root profiles ps where
    load: "y_load Y path = Inr root" "y_index Y root ''profiles'' = Inr profiles"
    and ps: "list_all2 (\<lambda>n p. parse_profile_node Y n = Inr p) (y_items Y profiles) ps"
    and r: "r = reg.insert_all ps builtin_registry"
    by (auto simp: from_yaml_file_eq)
  have wf: "wf_registry r" unfolding r by (rule reg.wf_insert_all [OF builtin_registry_valid(1)])
  have new: "\<forall>p \<in> set ps. valid_profile p"
    using ps by (induction rule: list_all2_induct) (auto dest: parse_profile_node_valid)
  have old: "valid_profile p" if "find_profile builtin_registry k = Some p" for k p
    using that builtin_registry_valid(2) unfolding find_profile_def list_all_iff
    by (meson find_eq_Some_set)
  have "valid_profile p" if "p \<in> set r" for p
  proof (rule reg.lookup_insert_all_invariant [OF _ new])
    show "find_profile (reg.insert_all ps builtin_registry) (profile_id p) = Some p"
      using that find_profile_member [OF wf] unfolding r by blast
  qed (rule old)
  moreover have "find_profile r k \<noteq> None" if "k \<in> set (ids builtin_registry)" for k
    unfolding r by (rule reg.lookup_insert_all_mono) (use that in \<open>simp add: find_profile_def find_id_None_iff\<close>)
  moreover have "find_profile r = (\<lambda>k. case find (\<lambda>p. profile_id p = k) (rev ps) of
          Some p \<Rightarrow> Some p | None \<Rightarrow> find_profile builtin_registry k)"
    unfolding r by (rule ext) (rule reg.lookup_insert_all)
  ultimately show ?thesis using load ps wf unfolding wf_registry_def list_all_iff by blast
qed

definition sample_profiles :: ynode where
  "sample_profiles = YMap [(''profiles'', YSeq
     [YMap [(''id'', YScalar ''custom''), (''groups'', YSeq [YScalar ''SecP256r1MLKEM768'']),
            (''fallback'', YMap [(''allow_classical'', YScalar ''false'')])]])]"

definition sample_registry :: ProfileRegistry where
  "sample_registry = builtin_registry @
     [mk_SecurityProfile (with_defaults (Definition_default\<lparr>d_id := ''custom'', d_groups := [''SecP256r1MLKEM768'']\<rparr>))]"

lemma sample_loads: "from_yaml_file (yaml_reference ''p.yaml'' sample_profiles) ''p.yaml'' = Inr sample_registry"
  by code_simp

theorem from_yaml_file_sound_witness:
  "list_all valid_profile sample_registry \<and> distinct (ids sample_registry)"
  using from_yaml_file_sound [OF sample_loads] by blast


definition sample_node :: ynode where
  "sample_node = YMap [(''id'', YScalar ''mixed''), (''groups'', YSeq [YScalar ''X25519MLKEM768'', YScalar ''X25519'']),
            (''fallback'', YMap [(''allow_classical'', YScalar ''true'')])]"

definition sample_profile :: SecurityProfile where
  "sample_profile = mk_SecurityProfile (with_defaults (Definition_default\<lparr>d_id := ''mixed'',
     d_groups := [''X25519MLKEM768'', ''X25519''], d_allow_classical_fallback := True\<rparr>))"

lemma sample_node_parses: "parse_profile_node (yaml_reference ''f'' YNull) sample_node = Inr sample_profile"
  by code_simp

lemma sample_profile_fallback: "d_allow_classical_fallback (def_of sample_profile)"
  by code_simp


end
