(* ===== verification/Config.thy ===== *)
theory Config
  imports ProfileYaml Framing
begin

text \<open>
  Runtime configuration: \<open>include/pqtls/config.hpp\<close> and \<open>src/common/config.cpp\<close>.  The
  loaders read YAML through \<open>yaml_api\<close>; \<open>getenv\<close> is a parameter, a function from names
  to optional values.  A statement of a loader is a function on the pair of the configuration and the
  warnings; a list of statements runs in order and stops at the first exception.
\<close>

datatype OutputFormat = Human | Json_format

definition output_format_from_string :: "string \<Rightarrow> OutputFormat option" where
  "output_format_from_string name =
     (if name = ''human'' then Some Human else if name = ''json'' then Some Json_format else None)"

record CommonConfig =
  cc_profile_id :: string
  cc_profiles_file :: string
  cc_certificate_file :: string
  cc_private_key_file :: string
  cc_ca_certificate_file :: string
  cc_metrics_file :: string
  cc_experiment_id :: string
  cc_max_frame_size :: u32
  cc_handshake_timeout_ms :: u32
  cc_io_timeout_ms :: u32
  cc_output_format :: OutputFormat
  cc_log_level :: string
  cc_insecure_development_mode :: bool
  cc_keylog_file :: string

definition CommonConfig_default :: CommonConfig where
  "CommonConfig_default =
     \<lparr>cc_profile_id = ''classical-x25519'', cc_profiles_file = '''', cc_certificate_file = '''',
      cc_private_key_file = '''', cc_ca_certificate_file = '''', cc_metrics_file = '''',
      cc_experiment_id = '''', cc_max_frame_size = kDefaultMaxFrameSize,
      cc_handshake_timeout_ms = 10000, cc_io_timeout_ms = 30000, cc_output_format = Human,
      cc_log_level = ''info'', cc_insecure_development_mode = False, cc_keylog_file = ''''\<rparr>"

record ClientConfig =
  cl_common :: CommonConfig
  cl_host :: string
  cl_port :: u16
  cl_server_name :: string
  cl_message :: string
  cl_message_file :: string
  cl_connections :: u32
  cl_concurrency :: u32
  cl_warmup_connections :: u32
  cl_reuse_session :: bool
  cl_messages_per_connection :: u32
  cl_benchmark_output :: string

definition ClientConfig_default :: ClientConfig where
  "ClientConfig_default =
     \<lparr>cl_common = CommonConfig_default, cl_host = ''localhost'', cl_port = 8443, cl_server_name = '''',
      cl_message = '''', cl_message_file = '''', cl_connections = 1, cl_concurrency = 1,
      cl_warmup_connections = 0, cl_reuse_session = False, cl_messages_per_connection = 1,
      cl_benchmark_output = ''''\<rparr>"

definition effective_server_name :: "ClientConfig \<Rightarrow> string" where
  "effective_server_name c = (if cl_server_name c = '''' then cl_host c else cl_server_name c)"

record ServerConfig =
  sv_common :: CommonConfig
  sv_listen_address :: string
  sv_port :: u16
  sv_max_connections :: u32
  sv_backlog :: u32
  sv_idle_timeout_ms :: u32
  sv_max_messages_per_connection :: u32
  sv_require_client_certificate :: bool

definition ServerConfig_default :: ServerConfig where
  "ServerConfig_default =
     \<lparr>sv_common = CommonConfig_default, sv_listen_address = ''0.0.0.0'', sv_port = 8443,
      sv_max_connections = 256, sv_backlog = 128, sv_idle_timeout_ms = 60000,
      sv_max_messages_per_connection = 1024, sv_require_client_certificate = False\<rparr>"

section \<open>Loading\<close>

text \<open>A sequence of statements on a state.\<close>

definition run_statements :: "('s \<Rightarrow> 's result) list \<Rightarrow> 's \<Rightarrow> 's result" where
  "run_statements = foldE (\<lambda>f s. f s)"

text \<open>This file's \<open>reject_unknown_keys\<close> only warns.\<close>

definition warn_unknown_keys ::
  "('n, 'z) yaml_api_scheme \<Rightarrow> 'n \<Rightarrow> string list \<Rightarrow> string \<Rightarrow> string list \<Rightarrow> string list result" where
  "warn_unknown_keys Y node known context0 warnings =
     (if \<not> y_bool Y node \<or> \<not> y_is_map Y node then Inr warnings
      else foldE (\<lambda>entry ws. bindE (foreign (y_as_string Y entry)) (\<lambda>k.
             if \<not> k \<in> set known
             then Inr (ws @ [''unknown configuration key '' @ quoted k @ '' in '' @ context0 @ '' was ignored''])
             else Inr ws))
           (y_entry_keys Y node) warnings)"

text \<open>
  The template \<open>assign_if_present<T>\<close> and \<open>assign_string_if_present\<close>: \<open>conv\<close> is
  \<open>as<T>\<close> and \<open>upd\<close> the assignment to the target field.
\<close>

definition assign_if_present ::
  "('n, 'z) yaml_api_scheme \<Rightarrow> ('n \<Rightarrow> string + 't) \<Rightarrow> 'n \<Rightarrow> string \<Rightarrow> ('t \<Rightarrow> 'c \<Rightarrow> 'c) \<Rightarrow> 'c \<Rightarrow> 'c result" where
  "assign_if_present Y conv node key upd c =
     (if y_bool Y node
      then if_key Y node key (\<lambda>v c. bindE (foreign (conv v)) (\<lambda>x. Inr (upd x c))) c
      else Inr c)"

definition parse_port :: "('n, 'z) yaml_api_scheme \<Rightarrow> 'n \<Rightarrow> string \<Rightarrow> u16 \<Rightarrow> u16 result" where
  "parse_port Y node key fallback =
     (if \<not> y_bool Y node then Inr fallback
      else if_key Y node key (\<lambda>v p.
        bindE (foreign (y_as_int Y v)) (\<lambda>value.
          if value < 0 \<or> value > 65535
          then ConfigurationError (quoted key @ '' must be in [0, 65535], got '' @ dec_int value)
          else Inr (word_of_int value))) fallback)"

definition load_yaml :: "('n, 'z) yaml_api_scheme \<Rightarrow> string \<Rightarrow> 'n result" where
  "load_yaml Y path =
     (case y_load Y path of
        Inr n \<Rightarrow> Inr n
      | Inl (BadFile w) \<Rightarrow> ConfigurationError (''configuration file '' @ quoted path @ '' could not be opened'')
      | Inl (YamlException w) \<Rightarrow>
          ConfigurationError (''configuration file '' @ quoted path @ '' is not valid YAML: '' @ w))"

text \<open>\<open>root[name] ? root[name] : root\<close>.\<close>

definition section_or_root :: "('n, 'z) yaml_api_scheme \<Rightarrow> 'n \<Rightarrow> string \<Rightarrow> 'n result" where
  "section_or_root Y root name = bindE (y_at Y root name) (\<lambda>s. Inr (if y_bool Y s then s else root))"

definition common_known_keys :: "string list" where
  "common_known_keys =
     [''profile'', ''profiles_file'', ''certificate'', ''private_key'', ''ca_certificate'',
      ''metrics'', ''experiment_id'', ''max_frame_size'', ''handshake_timeout_ms'',
      ''io_timeout_ms'', ''output_format'', ''log_level'', ''insecure_development_mode'',
      ''keylog_file'',
      ''host'', ''port'', ''server_name'', ''message'', ''message_file'', ''connections'',
      ''concurrency'', ''warmup_connections'', ''reuse_session'',
      ''messages_per_connection'', ''benchmark_output'', ''listen'', ''listen_address'',
      ''max_connections'', ''backlog'', ''idle_timeout_ms'',
      ''max_messages_per_connection'', ''require_client_certificate'', ''client'',
      ''server'', ''common'']"

definition load_output_format ::
  "('n, 'z) yaml_api_scheme \<Rightarrow> 'n \<Rightarrow> CommonConfig \<Rightarrow> CommonConfig result" where
  "load_output_format Y node =
     if_key Y node ''output_format'' (\<lambda>v c.
       bindE (foreign (y_as_string Y v)) (\<lambda>raw.
         case output_format_from_string raw of
           None \<Rightarrow> ConfigurationError (''unknown output_format '' @ quoted raw @ ''; expected human or json'')
         | Some parsed \<Rightarrow> Inr (c\<lparr>cc_output_format := parsed\<rparr>)))"

text \<open>The assignments of \<open>load_common_yaml\<close>, in source order.\<close>

definition common_statements ::
  "('n, 'z) yaml_api_scheme \<Rightarrow> 'n \<Rightarrow> (CommonConfig \<Rightarrow> CommonConfig result) list" where
  "common_statements Y node =
     [assign_if_present Y (y_as_string Y) node ''profile'' (\<lambda>x c. c\<lparr>cc_profile_id := x\<rparr>),
      assign_if_present Y (y_as_string Y) node ''profiles_file'' (\<lambda>x c. c\<lparr>cc_profiles_file := x\<rparr>),
      assign_if_present Y (y_as_string Y) node ''certificate'' (\<lambda>x c. c\<lparr>cc_certificate_file := x\<rparr>),
      assign_if_present Y (y_as_string Y) node ''private_key'' (\<lambda>x c. c\<lparr>cc_private_key_file := x\<rparr>),
      assign_if_present Y (y_as_string Y) node ''ca_certificate'' (\<lambda>x c. c\<lparr>cc_ca_certificate_file := x\<rparr>),
      assign_if_present Y (y_as_string Y) node ''metrics'' (\<lambda>x c. c\<lparr>cc_metrics_file := x\<rparr>),
      assign_if_present Y (y_as_string Y) node ''experiment_id'' (\<lambda>x c. c\<lparr>cc_experiment_id := x\<rparr>),
      assign_if_present Y (y_as_string Y) node ''log_level'' (\<lambda>x c. c\<lparr>cc_log_level := x\<rparr>),
      assign_if_present Y (y_as_string Y) node ''keylog_file'' (\<lambda>x c. c\<lparr>cc_keylog_file := x\<rparr>),
      assign_if_present Y (y_as_uint32 Y) node ''max_frame_size'' (\<lambda>x c. c\<lparr>cc_max_frame_size := x\<rparr>),
      assign_if_present Y (y_as_uint32 Y) node ''handshake_timeout_ms'' (\<lambda>x c. c\<lparr>cc_handshake_timeout_ms := x\<rparr>),
      assign_if_present Y (y_as_uint32 Y) node ''io_timeout_ms'' (\<lambda>x c. c\<lparr>cc_io_timeout_ms := x\<rparr>),
      assign_if_present Y (y_as_bool Y) node ''insecure_development_mode''
        (\<lambda>x c. c\<lparr>cc_insecure_development_mode := x\<rparr>),
      load_output_format Y node]"

definition load_common_yaml ::
  "('n, 'z) yaml_api_scheme \<Rightarrow> string \<Rightarrow> CommonConfig \<times> string list \<Rightarrow> (CommonConfig \<times> string list) result" where
  "load_common_yaml Y path st =
     bindE (load_yaml Y path) (\<lambda>root.
     bindE (section_or_root Y root ''common'') (\<lambda>node.
     bindE (warn_unknown_keys Y node common_known_keys (quoted path) (snd st)) (\<lambda>warnings.
     bindE (run_statements (common_statements Y node) (fst st))
     (\<lambda>c. Inr (c, warnings)))))"

definition load_client_yaml ::
  "('n, 'z) yaml_api_scheme \<Rightarrow> string \<Rightarrow> ClientConfig \<times> string list \<Rightarrow> (ClientConfig \<times> string list) result" where
  "load_client_yaml Y path st =
     bindE (load_common_yaml Y path (cl_common (fst st), snd st)) (\<lambda>(common, warnings).
     bindE (load_yaml Y path) (\<lambda>root.
     bindE (section_or_root Y root ''client'') (\<lambda>node.
     bindE (run_statements
       [assign_if_present Y (y_as_string Y) node ''host'' (\<lambda>x c. c\<lparr>cl_host := x\<rparr>),
        assign_if_present Y (y_as_string Y) node ''server_name'' (\<lambda>x c. c\<lparr>cl_server_name := x\<rparr>),
        assign_if_present Y (y_as_string Y) node ''message'' (\<lambda>x c. c\<lparr>cl_message := x\<rparr>),
        assign_if_present Y (y_as_string Y) node ''message_file'' (\<lambda>x c. c\<lparr>cl_message_file := x\<rparr>),
        assign_if_present Y (y_as_string Y) node ''benchmark_output'' (\<lambda>x c. c\<lparr>cl_benchmark_output := x\<rparr>),
        (\<lambda>c. bindE (parse_port Y node ''port'' (cl_port c)) (\<lambda>p. Inr (c\<lparr>cl_port := p\<rparr>))),
        assign_if_present Y (y_as_uint32 Y) node ''connections'' (\<lambda>x c. c\<lparr>cl_connections := x\<rparr>),
        assign_if_present Y (y_as_uint32 Y) node ''concurrency'' (\<lambda>x c. c\<lparr>cl_concurrency := x\<rparr>),
        assign_if_present Y (y_as_uint32 Y) node ''warmup_connections'' (\<lambda>x c. c\<lparr>cl_warmup_connections := x\<rparr>),
        assign_if_present Y (y_as_bool Y) node ''reuse_session'' (\<lambda>x c. c\<lparr>cl_reuse_session := x\<rparr>),
        assign_if_present Y (y_as_uint32 Y) node ''messages_per_connection''
          (\<lambda>x c. c\<lparr>cl_messages_per_connection := x\<rparr>)]
       ((fst st)\<lparr>cl_common := common\<rparr>)) (\<lambda>c.
     bindE (if_key Y root ''client'' (\<lambda>v ws.
         warn_unknown_keys Y v
           [''host'', ''port'', ''server_name'', ''message'', ''message_file'',
            ''connections'', ''concurrency'', ''warmup_connections'', ''reuse_session'',
            ''messages_per_connection'', ''benchmark_output'']
           (''the '' @ quoted ''client'' @ '' section of '' @ quoted path) ws) warnings)
     (\<lambda>ws. Inr (c, ws))))))"

definition load_server_yaml ::
  "('n, 'z) yaml_api_scheme \<Rightarrow> string \<Rightarrow> ServerConfig \<times> string list \<Rightarrow> (ServerConfig \<times> string list) result" where
  "load_server_yaml Y path st =
     bindE (load_common_yaml Y path (sv_common (fst st), snd st)) (\<lambda>(common, warnings).
     bindE (load_yaml Y path) (\<lambda>root.
     bindE (section_or_root Y root ''server'') (\<lambda>node.
     bindE (run_statements
       [if_key Y node ''listen'' (\<lambda>v c.
          bindE (foreign (y_as_string Y v)) (\<lambda>x. Inr (c\<lparr>sv_listen_address := x\<rparr>))),
        assign_if_present Y (y_as_string Y) node ''listen_address'' (\<lambda>x c. c\<lparr>sv_listen_address := x\<rparr>),
        (\<lambda>c. bindE (parse_port Y node ''port'' (sv_port c)) (\<lambda>p. Inr (c\<lparr>sv_port := p\<rparr>))),
        assign_if_present Y (y_as_uint32 Y) node ''max_connections'' (\<lambda>x c. c\<lparr>sv_max_connections := x\<rparr>),
        assign_if_present Y (y_as_uint32 Y) node ''backlog'' (\<lambda>x c. c\<lparr>sv_backlog := x\<rparr>),
        assign_if_present Y (y_as_uint32 Y) node ''idle_timeout_ms'' (\<lambda>x c. c\<lparr>sv_idle_timeout_ms := x\<rparr>),
        assign_if_present Y (y_as_uint32 Y) node ''max_messages_per_connection''
          (\<lambda>x c. c\<lparr>sv_max_messages_per_connection := x\<rparr>),
        assign_if_present Y (y_as_bool Y) node ''require_client_certificate''
          (\<lambda>x c. c\<lparr>sv_require_client_certificate := x\<rparr>)]
       ((fst st)\<lparr>sv_common := common\<rparr>)) (\<lambda>c.
     bindE (if_key Y root ''server'' (\<lambda>v ws.
         warn_unknown_keys Y v
           [''listen'', ''listen_address'', ''port'', ''max_connections'', ''backlog'',
            ''idle_timeout_ms'', ''max_messages_per_connection'',
            ''require_client_certificate'']
           (''the '' @ quoted ''server'' @ '' section of '' @ quoted path) ws) warnings)
     (\<lambda>ws. Inr (c, ws))))))"

section \<open>Validation\<close>

definition validate_common :: "CommonConfig \<Rightarrow> unit result" where
  "validate_common config =
    (if cc_profile_id config = '''' then ConfigurationError ''no security profile was selected''
     else if cc_max_frame_size config = 0 \<or> cc_max_frame_size config > kAbsoluteMaxFrameSize then
       ConfigurationError (''max_frame_size must be in [1, '' @ dec_nat (unat kAbsoluteMaxFrameSize) @
         ''], got '' @ dec_nat (unat (cc_max_frame_size config)))
     else if cc_handshake_timeout_ms config = 0 then
       ConfigurationError ''handshake_timeout_ms must be greater than zero; a zero timeout would let a stalled peer hold the connection open indefinitely''
     else if cc_io_timeout_ms config = 0 then
       ConfigurationError ''io_timeout_ms must be greater than zero''
     else if cc_certificate_file config \<noteq> '''' \<and> cc_private_key_file config = '''' then
       ConfigurationError ''a certificate was given without a matching private key''
     else if cc_certificate_file config = '''' \<and> cc_private_key_file config \<noteq> '''' then
       ConfigurationError ''a private key was given without a matching certificate''
     else Inr ())"

definition production_environment :: "(string \<Rightarrow> string option) \<Rightarrow> bool" where
  "production_environment getenv = (case getenv ''PQTLS_ENV'' of None \<Rightarrow> False | Some e \<Rightarrow> e = ''production'')"

definition enforce_insecure_mode_policy :: "(string \<Rightarrow> string option) \<Rightarrow> CommonConfig \<Rightarrow> unit result" where
  "enforce_insecure_mode_policy getenv config =
    (if \<not> cc_insecure_development_mode config \<and> cc_keylog_file config = '''' then Inr ()
     else if production_environment getenv then
       ConfigurationError ''PQTLS_ENV=production forbids development-only options. --insecure-development-mode disables peer authentication and --keylog-file writes session secrets in the clear; neither is permitted in a production environment.''
     else Inr ())"

definition validate_client :: "(string \<Rightarrow> string option) \<Rightarrow> ClientConfig \<Rightarrow> unit result" where
  "validate_client getenv config =
     bindE (validate_common (cl_common config)) (\<lambda>_.
     if cl_host config = '''' then ConfigurationError ''no host was given''
     else if cl_port config = 0 then ConfigurationError ''port 0 is not a valid destination for a client''
     else if cl_connections config = 0 then ConfigurationError ''connections must be at least 1''
     else if cl_concurrency config = 0 then ConfigurationError ''concurrency must be at least 1''
     else if cl_concurrency config > cl_connections config then
       ConfigurationError (''concurrency ('' @ dec_nat (unat (cl_concurrency config)) @
         '') cannot exceed the number of connections ('' @ dec_nat (unat (cl_connections config)) @ '')'')
     else if cl_messages_per_connection config = 0 then
       ConfigurationError ''messages_per_connection must be at least 1''
     else if cl_message config \<noteq> '''' \<and> cl_message_file config \<noteq> '''' then
       ConfigurationError ''--message and --message-file are mutually exclusive; give exactly one''
     else if \<not> cc_insecure_development_mode (cl_common config) \<and> effective_server_name config = '''' then
       ConfigurationError ''hostname verification is enabled but no server name is available; pass --server-name''
     else enforce_insecure_mode_policy getenv (cl_common config))"

definition validate_server :: "(string \<Rightarrow> string option) \<Rightarrow> ServerConfig \<Rightarrow> unit result" where
  "validate_server getenv config =
     bindE (validate_common (sv_common config)) (\<lambda>_.
     if cc_certificate_file (sv_common config) = '''' \<or> cc_private_key_file (sv_common config) = '''' then
       ConfigurationError ''a server requires --certificate and --private-key. Generate a development pair with scripts/generate-classical-certs.sh.''
     else if sv_listen_address config = '''' then ConfigurationError ''no listen address was given''
     else if sv_max_connections config = 0 then
       ConfigurationError ''max_connections must be at least 1; it bounds the worker pool and the accept queue''
     else if sv_max_messages_per_connection config = 0 then
       ConfigurationError ''max_messages_per_connection must be at least 1''
     else if sv_require_client_certificate config \<and> cc_ca_certificate_file (sv_common config) = '''' then
       ConfigurationError ''mutual TLS requires --ca-certificate so that client certificates can be verified''
     else enforce_insecure_mode_policy getenv (sv_common config))"

section \<open>Lemmas\<close>

lemma run_statements_rel:
  assumes "run_statements fs s = Inr t" and "\<And>x. P x x" and "\<And>x y z. P x y \<Longrightarrow> P y z \<Longrightarrow> P x z"
    and "\<forall>f \<in> set fs. \<forall>x y. f x = Inr y \<longrightarrow> P x y"
  shows "P s t"
  using assms(1,4) unfolding run_statements_def
proof (induction fs arbitrary: s)
  case Nil
  then show ?case using assms(2) by simp
next
  case (Cons f fs)
  then obtain u where "f s = Inr u" "foldE (\<lambda>f. f) fs u = Inr t" by (auto simp: bindE_eq_Inr_iff)
  moreover from this have "P s u" using Cons.prems(2) by simp
  moreover have "P u t" by (rule Cons.IH) (use calculation Cons.prems(2) in simp_all)
  ultimately show ?case using assms(3) by blast
qed

lemma assign_if_present_cases:
  assumes "assign_if_present Y conv node key upd c = Inr d"
  obtains "d = c" | v x where "y_index Y node key = Inr v" "y_bool Y v" "conv v = Inr x" "d = upd x c"
  using assms by (auto simp: assign_if_present_def bindE_eq_Inr_iff split: if_splits elim!: if_key_cases)

definition key_defined :: "('n, 'z) yaml_api_scheme \<Rightarrow> 'n \<Rightarrow> string \<Rightarrow> bool" where
  "key_defined Y node key \<longleftrightarrow> (\<exists>v. y_index Y node key = Inr v \<and> y_bool Y v)"

text \<open>The two development-only options after one statement of the common loader.\<close>

definition dev_step :: "('n, 'z) yaml_api_scheme \<Rightarrow> 'n \<Rightarrow> CommonConfig \<Rightarrow> CommonConfig \<Rightarrow> bool" where
  "dev_step Y node c d \<longleftrightarrow>
     (cc_insecure_development_mode d \<longrightarrow>
        cc_insecure_development_mode c \<or> explicit_true Y node ''insecure_development_mode'') \<and>
     (cc_keylog_file d = cc_keylog_file c \<or> key_defined Y node ''keylog_file'')"

lemma dev_step_refl: "dev_step Y node c c"
  by (simp add: dev_step_def)

lemma dev_step_trans: "dev_step Y node c d \<Longrightarrow> dev_step Y node d e \<Longrightarrow> dev_step Y node c e"
  by (auto simp: dev_step_def)

lemma dev_step_other:
  assumes "assign_if_present Y conv node key upd c = Inr d"
    and "\<And>x c. cc_insecure_development_mode (upd x c) = cc_insecure_development_mode c"
    and "\<And>x c. cc_keylog_file (upd x c) = cc_keylog_file c"
  shows "dev_step Y node c d"
  using assms(1) by (rule assign_if_present_cases) (simp_all add: dev_step_def assms(2,3))

lemma dev_step_keylog:
  assumes "assign_if_present Y (y_as_string Y) node ''keylog_file'' (\<lambda>x c. c\<lparr>cc_keylog_file := x\<rparr>) c = Inr d"
  shows "dev_step Y node c d"
  using assms by (rule assign_if_present_cases) (auto simp: dev_step_def key_defined_def)

lemma dev_step_insecure:
  assumes "assign_if_present Y (y_as_bool Y) node ''insecure_development_mode''
     (\<lambda>x c. c\<lparr>cc_insecure_development_mode := x\<rparr>) c = Inr d"
  shows "dev_step Y node c d"
  using assms by (rule assign_if_present_cases) (auto simp: dev_step_def explicit_true_def)

lemma dev_step_output_format: "load_output_format Y node c = Inr d \<Longrightarrow> dev_step Y node c d"
  unfolding load_output_format_def
  by (erule if_key_cases) (auto simp: dev_step_def bindE_eq_Inr_iff split: option.splits)

lemma dev_step_common: "\<forall>f \<in> set (common_statements Y node). \<forall>x y. f x = Inr y \<longrightarrow> dev_step Y node x y"
  unfolding common_statements_def list.set ball_simps
  by (intro conjI allI impI; (rule TrueI | erule dev_step_keylog | erule dev_step_insecure | erule dev_step_output_format
      | (erule dev_step_other; simp)))

text \<open>What a warning pass adds: one line per unknown key, in order.\<close>

lemma warn_unknown_keys_eq:
  assumes "warn_unknown_keys Y node known ctxt ws = Inr ws'" and "y_bool Y node" and "y_is_map Y node"
  shows "\<exists>ks. list_all2 (\<lambda>e k. y_as_string Y e = Inr k) (y_entry_keys Y node) ks \<and>
    ws' = ws @ map (\<lambda>k. ''unknown configuration key '' @ quoted k @ '' in '' @ ctxt @ '' was ignored'')
                (filter (\<lambda>k. k \<notin> set known) ks)"
proof -
  define m where "m k = ''unknown configuration key '' @ quoted k @ '' in '' @ ctxt @ '' was ignored''" for k
  have "\<exists>ks. list_all2 (\<lambda>e k. y_as_string Y e = Inr k) es ks \<and>
      ws' = ws @ map m (filter (\<lambda>k. k \<notin> set known) ks)"
    if "foldE (\<lambda>entry ws. bindE (foreign (y_as_string Y entry)) (\<lambda>k.
             if \<not> k \<in> set known then Inr (ws @ [m k]) else Inr ws)) es ws = Inr ws'" for es
    using that
  proof (induction es arbitrary: ws)
    case Nil
    then show ?case by simp
  next
    case (Cons e es)
    then obtain k where k: "y_as_string Y e = Inr k" by (auto simp: bindE_eq_Inr_iff)
    with Cons.prems Cons.IH [of "if k \<in> set known then ws else ws @ [m k]"] obtain ks where
      "list_all2 (\<lambda>e k. y_as_string Y e = Inr k) es ks"
      "ws' = (if k \<in> set known then ws else ws @ [m k]) @ map m (filter (\<lambda>k. k \<notin> set known) ks)"
      by (auto split: if_splits)
    with k show ?case by (intro exI [of _ "k # ks"]) simp
  qed
  then show ?thesis using assms unfolding warn_unknown_keys_def m_def by simp
qed

lemma load_common_yaml_steps:
  assumes "load_common_yaml Y path (c, ws) = Inr (c', ws')"
  obtains root node where "y_load Y path = Inr root" "section_or_root Y root ''common'' = Inr node"
    "warn_unknown_keys Y node common_known_keys (quoted path) ws = Inr ws'" "dev_step Y node c c'"
proof -
  from assms obtain root node where
    r: "load_yaml Y path = Inr root" "section_or_root Y root ''common'' = Inr node"
      "warn_unknown_keys Y node common_known_keys (quoted path) ws = Inr ws'"
    and run: "run_statements (common_statements Y node) c = Inr c'"
    unfolding load_common_yaml_def bindE_eq_Inr_iff by (elim exE conjE) simp
  have "y_load Y path = Inr root"
    using r(1) by (auto simp: load_yaml_def split: sum.splits yaml_load_error.splits)
  moreover have "dev_step Y node c c'"
    using run by (rule run_statements_rel) (rule dev_step_refl, erule (1) dev_step_trans, rule dev_step_common)
  ultimately show ?thesis using r(2,3) that by blast
qed

section \<open>What validation guarantees\<close>

definition common_ok :: "CommonConfig \<Rightarrow> bool" where
  "common_ok c \<longleftrightarrow> cc_profile_id c \<noteq> '''' \<and>
     0 < cc_max_frame_size c \<and> cc_max_frame_size c \<le> kAbsoluteMaxFrameSize \<and>
     0 < cc_handshake_timeout_ms c \<and> 0 < cc_io_timeout_ms c \<and>
     (cc_certificate_file c = '''' \<longleftrightarrow> cc_private_key_file c = '''')"

definition dev_options_ok :: "(string \<Rightarrow> string option) \<Rightarrow> CommonConfig \<Rightarrow> bool" where
  "dev_options_ok getenv c \<longleftrightarrow>
     getenv ''PQTLS_ENV'' \<noteq> Some ''production'' \<or> \<not> cc_insecure_development_mode c \<and> cc_keylog_file c = ''''"

definition client_ok :: "(string \<Rightarrow> string option) \<Rightarrow> ClientConfig \<Rightarrow> bool" where
  "client_ok getenv c \<longleftrightarrow> common_ok (cl_common c) \<and> cl_host c \<noteq> '''' \<and> 0 < cl_port c \<and>
     0 < cl_concurrency c \<and> cl_concurrency c \<le> cl_connections c \<and> 0 < cl_messages_per_connection c \<and>
     (cl_message c = '''' \<or> cl_message_file c = '''') \<and> dev_options_ok getenv (cl_common c)"

definition server_ok :: "(string \<Rightarrow> string option) \<Rightarrow> ServerConfig \<Rightarrow> bool" where
  "server_ok getenv c \<longleftrightarrow> common_ok (sv_common c) \<and> cc_certificate_file (sv_common c) \<noteq> '''' \<and>
     sv_listen_address c \<noteq> '''' \<and> 0 < sv_max_connections c \<and> 0 < sv_max_messages_per_connection c \<and>
     (sv_require_client_certificate c \<longrightarrow> cc_ca_certificate_file (sv_common c) \<noteq> '''') \<and>
     dev_options_ok getenv (sv_common c)"

lemma validate_common_eq: "validate_common c = Inr u \<longleftrightarrow> common_ok c"
  unfolding validate_common_def guard_eq_Inr_iff common_ok_def
  by (auto simp: word_gt_0 not_less)

lemma enforce_insecure_mode_policy_eq:
  "enforce_insecure_mode_policy getenv c = Inr u \<longleftrightarrow> dev_options_ok getenv c"
  by (auto simp: enforce_insecure_mode_policy_def production_environment_def dev_options_ok_def
      split: option.splits)

lemma validate_only_throws:
  "only_throws Configuration (validate_client getenv c)" "only_throws Configuration (validate_server getenv s)"
  unfolding validate_client_def validate_server_def validate_common_def enforce_insecure_mode_policy_def
  by (intro only_throws_bindE only_throws_if only_throws_throw_sub only_throws_Inr)+

lemma validate_client_eq: "validate_client getenv c = Inr u \<longleftrightarrow> client_ok getenv c"
  unfolding validate_client_def bindE_eq_Inr_iff guard_eq_Inr_iff validate_common_eq
    enforce_insecure_mode_policy_eq client_ok_def effective_server_name_def
  by (auto simp: word_gt_0 not_less word_le_0_iff)

lemma validate_server_eq: "validate_server getenv c = Inr u \<longleftrightarrow> server_ok getenv c"
  unfolding validate_server_def bindE_eq_Inr_iff guard_eq_Inr_iff validate_common_eq
    enforce_insecure_mode_policy_eq server_ok_def
  by (auto simp: word_gt_0 common_ok_def)

section \<open>Properties\<close>

text \<open>
  C37.  Configuration validation is exact: \<open>ConfigLoader::validate\<close> accepts precisely the
  configurations that satisfy the cross-field rules (frame limit in range, non-zero timeouts, key and
  certificate together, concurrency within connections, mutual TLS with a CA, development-only options
  never in production) and throws \<open>ConfigurationError\<close> for every other one.
\<close>

theorem validate_exact:
  "(if client_ok getenv c then validate_client getenv c = Inr ()
    else throws Configuration (validate_client getenv c)) \<and>
   (if server_ok getenv s then validate_server getenv s = Inr ()
    else throws Configuration (validate_server getenv s))"
  using validate_only_throws(1) [of getenv c] validate_only_throws(2) [of getenv s] validate_client_eq [of getenv c] validate_server_eq [of getenv s]
  by (auto simp: only_throws_def)

text \<open>
  Loading the common section of a YAML configuration never enables a development-only option by
  omission, and never ignores a key silently: the insecure mode is on afterwards only if it was on
  before or the file says \<open>true\<close>, the key-log file changes only if its key is defined, and every
  unknown key of a mapping adds exactly one warning, in file order, after the earlier ones.
\<close>

theorem load_common_yaml_explicit:
  assumes "load_common_yaml Y path (c, ws) = Inr (c', ws')"
  shows "\<exists>root node. y_load Y path = Inr root \<and> section_or_root Y root ''common'' = Inr node \<and>
     (cc_insecure_development_mode c' \<longrightarrow>
        cc_insecure_development_mode c \<or> explicit_true Y node ''insecure_development_mode'') \<and>
     (cc_keylog_file c' = cc_keylog_file c \<or> key_defined Y node ''keylog_file'') \<and>
     (y_bool Y node \<and> y_is_map Y node \<longrightarrow>
        (\<exists>ks. list_all2 (\<lambda>e k. y_as_string Y e = Inr k) (y_entry_keys Y node) ks \<and>
           ws' = ws @ map (\<lambda>k. ''unknown configuration key '' @ quoted k @ '' in '' @ quoted path @ '' was ignored'')
                        (filter (\<lambda>k. k \<notin> set common_known_keys) ks)))"
proof -
  from assms obtain root node where "y_load Y path = Inr root" "section_or_root Y root ''common'' = Inr node"
    "warn_unknown_keys Y node common_known_keys (quoted path) ws = Inr ws'" "dev_step Y node c c'"
    by (rule load_common_yaml_steps)
  then show ?thesis using warn_unknown_keys_eq [of Y node common_known_keys "quoted path" ws ws']
    unfolding dev_step_def by blast
qed

definition sample_config :: ynode where
  "sample_config = YMap [(''profile'', YScalar ''classical-p256''), (''colour'', YScalar ''red'')]"

lemma sample_config_loads:
  "load_common_yaml (yaml_reference ''c'' sample_config) ''c'' (CommonConfig_default, []) =
     Inr (CommonConfig_default\<lparr>cc_profile_id := ''classical-p256''\<rparr>,
          [''unknown configuration key '' @ quoted ''colour'' @ '' in '' @ quoted ''c'' @ '' was ignored''])"
  by code_simp

theorem load_common_yaml_explicit_witness:
  "\<exists>root node. y_load (yaml_reference ''c'' sample_config) ''c'' = Inr root \<and>
     section_or_root (yaml_reference ''c'' sample_config) root ''common'' = Inr node"
  using load_common_yaml_explicit [OF sample_config_loads] by blast

end
