(* ===== verification/Json.thy ===== *)
theory Json
  imports Utf8
begin

text \<open>
  The part of nlohmann::json the sources use, as a record of operations on an abstract value type
  \<open>'j\<close>.  The library is not part of the repository; what it documents and the code relies on is
  the predicate \<open>json_laws\<close>.  \<open>j_find v k\<close> combines \<open>contains\<close> and the subscript of
  a key that is present; \<open>j_set\<close> is \<open>v[k] = x\<close>, which turns null into an object;
  \<open>j_integer\<close> is the stored 64-bit integer, before \<open>get<int>\<close> narrows it;
  \<open>j_of_ms\<close> is the floating-point number of milliseconds that a duration in nanoseconds makes,
  \<open>j_of_ratio\<close> the quotient of two counters as a \<open>double\<close>; \<open>j_of_array\<close> makes an array
  of the values pushed into it, and \<open>j_pretty\<close> is \<open>dump(2)\<close>.
  \<open>jvalue\<close> and \<open>json_reference\<close> are a concrete instance for the witnesses.
\<close>

record 'j json_api =
  j_parse :: "string \<Rightarrow> string + 'j"
  j_dump :: "'j \<Rightarrow> string + string"
  j_pretty :: "'j \<Rightarrow> string + string"
  j_is_object :: "'j \<Rightarrow> bool"
  j_is_structured :: "'j \<Rightarrow> bool"
  j_is_string :: "'j \<Rightarrow> bool"
  j_is_number_integer :: "'j \<Rightarrow> bool"
  j_is_null :: "'j \<Rightarrow> bool"
  j_empty :: "'j \<Rightarrow> bool"
  j_children :: "'j \<Rightarrow> 'j list"
  j_find :: "'j \<Rightarrow> string \<Rightarrow> 'j option"
  j_string :: "'j \<Rightarrow> string"
  j_integer :: "'j \<Rightarrow> int"
  j_null :: 'j
  j_object :: 'j
  j_of_string :: "string \<Rightarrow> 'j"
  j_of_int :: "int \<Rightarrow> 'j"
  j_of_bool :: "bool \<Rightarrow> 'j"
  j_of_ms :: "int \<Rightarrow> 'j"
  j_of_ratio :: "nat \<Rightarrow> nat \<Rightarrow> 'j"
  j_of_array :: "'j list \<Rightarrow> 'j"
  j_set :: "'j \<Rightarrow> string \<Rightarrow> 'j \<Rightarrow> 'j"

text \<open>\<open>v.get<int>()\<close>: a conversion of the stored 64-bit integer to a 32-bit \<open>int\<close>.\<close>

definition j_get_int :: "('j, 'z) json_api_scheme \<Rightarrow> 'j \<Rightarrow> int" where
  "j_get_int J v = sint (word_of_int (j_integer J v) :: u32)"

definition container :: "('j, 'z) json_api_scheme \<Rightarrow> 'j \<Rightarrow> bool" where
  "container J v \<longleftrightarrow> j_is_null J v \<or> j_is_object J v"

text \<open>Documented behaviour of the library.\<close>

definition json_laws :: "('j, 'z) json_api_scheme \<Rightarrow> bool" where
  "json_laws J \<longleftrightarrow>
     j_is_null J (j_null J) \<and> j_find J (j_null J) = Map.empty \<and> j_children J (j_null J) = [] \<and>
     j_is_object J (j_object J) \<and>
     (\<forall>v. j_is_object J v \<and> j_empty J v \<longrightarrow> v = j_object J) \<and>
     (\<forall>v. j_is_object J v \<longrightarrow> \<not> j_is_null J v) \<and>
     (\<forall>s. j_is_string J (j_of_string J s) \<and> j_string J (j_of_string J s) = s \<and>
          \<not> j_is_structured J (j_of_string J s)) \<and>
     (\<forall>i. - (2 ^ 63) \<le> i \<and> i < 2 ^ 63 \<longrightarrow>
          j_is_number_integer J (j_of_int J i) \<and> j_integer J (j_of_int J i) = i \<and>
          \<not> j_is_structured J (j_of_int J i)) \<and>
     (\<forall>d k v. container J d \<longrightarrow>
          j_is_object J (j_set J d k v) \<and> j_find J (j_set J d k v) = (j_find J d)(k \<mapsto> v) \<and>
          set (j_children J (j_set J d k v)) \<subseteq> insert v (set (j_children J d))) \<and>
     (\<forall>d s. j_dump J d = Inr s \<longrightarrow> s \<noteq> [] \<and> is_valid_utf8 s)"

section \<open>A reference instance\<close>

datatype jvalue = JNull | JBool bool | JInt int | JStr string | JArr "jvalue list"
  | JObj "(string \<times> jvalue) list"

definition print_string :: "string \<Rightarrow> string" where
  "print_string s = CHR 0x22 # s @ [CHR 0x22]"

fun print_json :: "jvalue \<Rightarrow> string" where
  "print_json JNull = ''null''"
| "print_json (JBool b) = (if b then ''true'' else ''false'')"
| "print_json (JInt i) = dec_int i"
| "print_json (JStr s) = print_string s"
| "print_json (JArr vs) = ''['' @ concat (map (\<lambda>v. print_json v @ '','') vs) @ '']''"
| "print_json (JObj fs) = ''{'' @ concat (map (\<lambda>(k, v). print_string k @ '':'' @ print_json v @ '','') fs) @ ''}''"

fun jset :: "jvalue \<Rightarrow> string \<Rightarrow> jvalue \<Rightarrow> jvalue" where
  "jset (JObj fs) k v = JObj ((k, v) # filter (\<lambda>e. fst e \<noteq> k) fs)"
| "jset u k v = JObj [(k, v)]"

text \<open>
  The instance reads the printed form of any document of \<open>docs\<close>, and refuses to print what is not
  UTF-8, as \<open>dump\<close> does.
\<close>

definition json_reference :: "jvalue list \<Rightarrow> jvalue json_api" where
  "json_reference docs =
     \<lparr>j_parse = (\<lambda>s. case find (\<lambda>d. print_json d = s) docs of Some d \<Rightarrow> Inr d | None \<Rightarrow> Inl ''parse error''),
      j_dump = (\<lambda>d. if is_valid_utf8 (print_json d) \<and> print_json d \<noteq> [] then Inr (print_json d) else Inl ''type_error.316''),
      j_pretty = (\<lambda>d. if is_valid_utf8 (print_json d) then Inr (print_json d) else Inl ''type_error.316''),
      j_is_object = (\<lambda>v. case v of JObj fs \<Rightarrow> True | _ \<Rightarrow> False),
      j_is_structured = (\<lambda>v. case v of JObj fs \<Rightarrow> True | JArr vs \<Rightarrow> True | _ \<Rightarrow> False),
      j_is_string = (\<lambda>v. case v of JStr s \<Rightarrow> True | _ \<Rightarrow> False),
      j_is_number_integer = (\<lambda>v. case v of JInt i \<Rightarrow> True | _ \<Rightarrow> False),
      j_is_null = (\<lambda>v. v = JNull),
      j_empty = (\<lambda>v. case v of JObj fs \<Rightarrow> fs = [] | JArr vs \<Rightarrow> vs = [] | JNull \<Rightarrow> True | _ \<Rightarrow> False),
      j_children = (\<lambda>v. case v of JObj fs \<Rightarrow> map snd fs | JArr vs \<Rightarrow> vs | _ \<Rightarrow> []),
      j_find = (\<lambda>v k. case v of JObj fs \<Rightarrow> map_of fs k | _ \<Rightarrow> None),
      j_string = (\<lambda>v. case v of JStr s \<Rightarrow> s | _ \<Rightarrow> []),
      j_integer = (\<lambda>v. case v of JInt i \<Rightarrow> i | _ \<Rightarrow> 0),
      j_null = JNull, j_object = JObj [], j_of_string = JStr, j_of_int = JInt, j_of_bool = JBool, j_of_ms = JInt,
      j_of_ratio = (\<lambda>a b. JArr [JInt (int a), JInt (int b)]), j_of_array = JArr,
      j_set = jset\<rparr>"

lemma map_of_filter_key: "map_of (filter (\<lambda>e. fst e \<noteq> k) fs) = (map_of fs)(k := None)"
  by (induction fs) auto

lemma json_reference_laws: "json_laws (json_reference docs)"
  by (auto simp: json_laws_def json_reference_def container_def fun_eq_iff map_of_filter_key
      split: jvalue.splits if_splits)

end
