(* ===== verification/Platform.thy ===== *)
theory Platform
  imports Errors
begin

text \<open>
  The world the program runs in.  OpenSSL, the socket layer, the clocks, the random generator and the
  file streams are not part of the repository; a run of the program is a function of the replies they
  give.  An \<open>env\<close> answers a call from the history of calls made so far, so a library may keep
  any state of its own.  Every call is recorded with its reply in the trace, in order; safety
  properties are statements about traces.

  An operation of the program is an \<open>io\<close> action: from a trace to its result (a value or an
  exception) and the extended trace.  The OpenSSL objects of one connection (its \<open>SSL_CTX\<close>,
  then its \<open>SSL\<close>) are not named in the calls, as an action works on one of each.
\<close>

datatype Role = Client | Server

fun to_string_Role :: "Role \<Rightarrow> string" where
  "to_string_Role Client = ''client''"
| "to_string_Role Server = ''server''"

text \<open>\<open>SSL_VERIFY_NONE\<close>, \<open>SSL_VERIFY_PEER\<close>, and the latter with \<open>FAIL_IF_NO_PEER_CERT\<close>.\<close>

datatype verify_mode = VERIFY_NONE | VERIFY_PEER | VERIFY_PEER_FAIL_IF_NO_PEER_CERT

datatype sockopt = SO_RCVTIMEO nat nat | SO_SNDTIMEO nat nat | TCP_NODELAY bool | SO_REUSEADDR | IPV6_V6ONLY

text \<open>Calls on the \<open>SSL_CTX\<close> under construction.\<close>

datatype ctx_call =
    OPENSSL_init_ssl | SSL_CTX_new Role
  | SSL_CTX_set_min_proto_version nat | SSL_CTX_set_max_proto_version nat
  | SSL_CTX_set_options "string list" | SSL_CTX_set_mode "string list"
  | SSL_CTX_set1_groups_list string | SSL_CTX_set_ciphersuites string
  | SSL_CTX_set_cipher_list string | SSL_CTX_set_alpn_protos "byte list"
  | Keylog_is_open | Keylog_open string | Keylog_write string | SSL_CTX_set_keylog_callback
  | SSL_CTX_use_certificate_chain_file string | SSL_CTX_use_PrivateKey_file string
  | SSL_CTX_check_private_key | SSL_CTX_load_verify_file string | SSL_CTX_set_default_verify_paths
  | SSL_CTX_set_verify verify_mode | SSL_CTX_set_verify_depth nat | SSL_CTX_set_alpn_select_cb
  | SSL_load_client_CA_file string | SSL_CTX_set_client_CA_list
  | SSL_CTX_set_session_cache_mode | SSL_CTX_set_num_tickets nat | SSL_CTX_set1_sigalgs_list string

text \<open>Calls on the \<open>SSL\<close> object of the connection that set it up or query it.\<close>

datatype ssl_call =
    SSL_new | SSL_set_fd int | SSL_set_tlsext_host_name string | SSL_set_hostflags
  | SSL_set1_host string | SSL_set_session int | SSL_connect | SSL_accept | SSL_get_error
  | SSL_get_verify_result | X509_verify_cert_error_string int
  | SSL_get_version | SSL_get_current_cipher_name | SSL_get0_group_name
  | SSL_get_peer_signature_name | SSL_session_reused | SSL_get1_peer_certificate
  | X509_get_subject_name | X509_get_issuer_name | BIO_new_mem | X509_NAME_print_ex | BIO_get_mem_data
  | SSL_get1_session | SSL_shutdown
  | SSL_select_next_proto "byte list" "byte list"

text \<open>Calls of the operating system and of the C and C++ libraries.\<close>

datatype sys_call =
    System_clock_now | Steady_clock_now | ERR_queue | Getrusage
  | Getaddrinfo string string bool | Gai_strerror int | Socket int | Setsockopt int sockopt
  | Connect int int | Bind int int | Listen int int | Close int | Errno | Strerror
  | Getpeername int | Getsockname int | Ignore_sigpipe | Load_stopping | Metrics_is_open | Metrics_write string
  | Create_directories string | Metrics_open string | Metrics_flush | Metrics_close
  | Read_file string | Stdout string | Stderr string | Install_signal_handlers
  | OpenSSL_version | OpenSSL_version_num | Provider_names
  | EVP_PKEY_CTX_new_from_name string | EVP_PKEY_keygen_init | EVP_PKEY_CTX_free

text \<open>The calls that carry application data, and random bytes, stand apart.\<close>

datatype call = Ctx ctx_call | Ssl ssl_call | Sys sys_call
  | RAND_bytes nat | SSL_write "byte list" | SSL_read nat

datatype reply = RInt int | RStr "string option" | RStrs "string list" | RBytes "byte list" | RInts "int list" | RVoid

datatype event = Ev (ev_call: call) (ev_reply: reply)

type_synonym trace = "event list"

record env =
  e_int :: "trace \<Rightarrow> call \<Rightarrow> int"
  e_str :: "trace \<Rightarrow> call \<Rightarrow> string option"
  e_strs :: "trace \<Rightarrow> call \<Rightarrow> string list"
  e_bytes :: "trace \<Rightarrow> call \<Rightarrow> byte list"
  e_ints :: "trace \<Rightarrow> call \<Rightarrow> int list"
  e_getenv :: "string \<Rightarrow> string option"

type_synonym 'a io = "trace \<Rightarrow> 'a result \<times> trace"

section \<open>Actions\<close>

definition returnIO :: "'a \<Rightarrow> 'a io" where
  "returnIO x tr = (Inr x, tr)"

definition liftE :: "'a result \<Rightarrow> 'a io" where
  "liftE r tr = (r, tr)"

definition bindIO :: "'a io \<Rightarrow> ('a \<Rightarrow> 'b io) \<Rightarrow> 'b io" where
  "bindIO m f tr = (case m tr of (Inl e, tr') \<Rightarrow> (Inl e, tr') | (Inr x, tr') \<Rightarrow> f x tr')"

text \<open>\<open>try { m } catch (...) { h e }\<close>: the handler runs on C++ exceptions that satisfy \<open>P\<close>.\<close>

definition catchIO :: "'a io \<Rightarrow> (exn \<Rightarrow> bool) \<Rightarrow> (exn \<Rightarrow> 'a io) \<Rightarrow> 'a io" where
  "catchIO m P h tr = (case m tr of
      (Inl e, tr') \<Rightarrow> if catchable e \<and> P e then h e tr' else (Inl e, tr')
    | (Inr x, tr') \<Rightarrow> (Inr x, tr'))"

definition ext_int :: "('z) env_scheme \<Rightarrow> call \<Rightarrow> int io" where
  "ext_int E c tr = (Inr (e_int E tr c), tr @ [Ev c (RInt (e_int E tr c))])"

definition ext_str :: "('z) env_scheme \<Rightarrow> call \<Rightarrow> string option io" where
  "ext_str E c tr = (Inr (e_str E tr c), tr @ [Ev c (RStr (e_str E tr c))])"

definition ext_strs :: "('z) env_scheme \<Rightarrow> call \<Rightarrow> string list io" where
  "ext_strs E c tr = (Inr (e_strs E tr c), tr @ [Ev c (RStrs (e_strs E tr c))])"

definition ext_bytes :: "('z) env_scheme \<Rightarrow> call \<Rightarrow> byte list io" where
  "ext_bytes E c tr = (Inr (e_bytes E tr c), tr @ [Ev c (RBytes (e_bytes E tr c))])"

definition ext_ints :: "('z) env_scheme \<Rightarrow> call \<Rightarrow> int list io" where
  "ext_ints E c tr = (Inr (e_ints E tr c), tr @ [Ev c (RInts (e_ints E tr c))])"

text \<open>A call that returns nothing, or whose result the code ignores.\<close>

definition call_IO :: "('z) env_scheme \<Rightarrow> call \<Rightarrow> unit io" where
  "call_IO E c tr = (Inr (), tr @ [Ev c RVoid])"

definition throwIO :: "ErrorCategory \<Rightarrow> string \<Rightarrow> string list \<Rightarrow> 'a io" where
  "throwIO c msg details = liftE (throw_sub c msg details)"

text \<open>What a C function sees of a \<open>std::string\<close>: the characters before the first NUL.\<close>

definition c_str :: "string \<Rightarrow> string" where
  "c_str s = takeWhile (\<lambda>c. c \<noteq> CHR 0x00) s"

text \<open>
  \<open>drain_openssl_errors\<close>: pops the thread's error queue until it is empty; the reply is the
  queue, rendered by \<open>ERR_error_string_n\<close>.
\<close>

definition drain_openssl_errors :: "('z) env_scheme \<Rightarrow> string list io" where
  "drain_openssl_errors E = ext_strs E (Sys ERR_queue)"

text \<open>\<open>throw openssl_error(category, message)\<close>: an object of the base class \<open>Error\<close>.\<close>

definition throw_openssl_error :: "('z) env_scheme \<Rightarrow> ErrorCategory \<Rightarrow> string \<Rightarrow> 'a io" where
  "throw_openssl_error E category message =
     bindIO (drain_openssl_errors E) (\<lambda>details. liftE (Inl (Err None (mk_Error category message details))))"

section \<open>Reasoning\<close>

named_theorems io_simps \<open>results of sequenced actions\<close>
named_theorems calls_intros \<open>which calls an action can make\<close>

lemma returnIO_eq [io_simps]: "returnIO x tr = (Inr y, tr') \<longleftrightarrow> y = x \<and> tr' = tr"
  by (auto simp: returnIO_def)

lemma liftE_eq [io_simps]: "liftE r tr = (q, tr') \<longleftrightarrow> q = r \<and> tr' = tr"
  by (auto simp: liftE_def)

lemma bindIO_eq_Inr [io_simps]:
  "bindIO m f tr = (Inr y, tr'') \<longleftrightarrow> (\<exists>x tr'. m tr = (Inr x, tr') \<and> f x tr' = (Inr y, tr''))"
  by (auto simp: bindIO_def split: prod.splits sum.splits)

lemma bindIO_InrE:
  assumes "bindIO m f tr = (Inr y, tr'')"
  obtains x tr' where "m tr = (Inr x, tr')" "f x tr' = (Inr y, tr'')"
  using assms by (auto simp: bindIO_eq_Inr)

lemma liftE_InrE:
  assumes "liftE r tr = (Inr y, tr')"
  obtains "r = Inr y" "tr' = tr"
  using assms by (simp add: liftE_eq)

lemma throwIO_eq [io_simps]: "throwIO c m ds tr \<noteq> (Inr y, tr')"
  by (simp add: throwIO_def liftE_def throw_sub_def)

lemma throw_openssl_error_eq [io_simps]: "throw_openssl_error E c m tr \<noteq> (Inr y, tr')"
  by (simp add: throw_openssl_error_def bindIO_def drain_openssl_errors_def ext_strs_def liftE_def)

lemma ext_int_eq [io_simps]:
  "ext_int E c tr = (Inr x, tr') \<longleftrightarrow> x = e_int E tr c \<and> tr' = tr @ [Ev c (RInt x)]"
  by (auto simp: ext_int_def)

lemma ext_str_eq [io_simps]:
  "ext_str E c tr = (Inr x, tr') \<longleftrightarrow> x = e_str E tr c \<and> tr' = tr @ [Ev c (RStr x)]"
  by (auto simp: ext_str_def)

lemma ext_strs_eq [io_simps]:
  "ext_strs E c tr = (Inr x, tr') \<longleftrightarrow> x = e_strs E tr c \<and> tr' = tr @ [Ev c (RStrs x)]"
  by (auto simp: ext_strs_def)

lemma ext_bytes_eq [io_simps]:
  "ext_bytes E c tr = (Inr x, tr') \<longleftrightarrow> x = e_bytes E tr c \<and> tr' = tr @ [Ev c (RBytes x)]"
  by (auto simp: ext_bytes_def)

lemma ext_ints_eq [io_simps]:
  "ext_ints E c tr = (Inr x, tr') \<longleftrightarrow> x = e_ints E tr c \<and> tr' = tr @ [Ev c (RInts x)]"
  by (auto simp: ext_ints_def)

lemma call_IO_eq [io_simps]:
  "call_IO E c tr = (Inr u, tr') \<longleftrightarrow> tr' = tr @ [Ev c RVoid]"
  by (auto simp: call_IO_def)

lemma if_io_eq: "(if c then f else g) tr = (if c then f tr else g tr)"
  by simp

text \<open>
  \<open>only_calls Q m\<close>: whatever the replies and whatever the outcome, the action only appends to the
  trace, and only calls that satisfy \<open>Q\<close>.
\<close>

definition only_calls :: "(call \<Rightarrow> bool) \<Rightarrow> 'a io \<Rightarrow> bool" where
  "only_calls Q m \<longleftrightarrow> (\<forall>tr. \<exists>es. snd (m tr) = tr @ es \<and> (\<forall>e \<in> set es. Q (ev_call e)))"

lemma only_callsD:
  assumes "only_calls Q m" and "m tr = (r, tr')"
  obtains es where "tr' = tr @ es" "\<forall>e \<in> set es. Q (ev_call e)"
  using assms unfolding only_calls_def by (metis snd_conv)

lemma only_calls_bindIO [calls_intros]:
  assumes "only_calls Q m" and "\<And>x. only_calls Q (f x)"
  shows "only_calls Q (bindIO m f)"
  unfolding only_calls_def
proof
  fix tr
  obtain r tr' where m: "m tr = (r, tr')" by (cases "m tr")
  with assms(1) obtain es where es: "tr' = tr @ es" "\<forall>e \<in> set es. Q (ev_call e)" by (rule only_callsD)
  show "\<exists>es. snd (bindIO m f tr) = tr @ es \<and> (\<forall>e \<in> set es. Q (ev_call e))"
  proof (cases r)
    case (Inl e)
    then show ?thesis using m es by (simp add: bindIO_def)
  next
    case (Inr x)
    obtain q tr'' where f: "f x tr' = (q, tr'')" by (cases "f x tr'")
    with assms(2) obtain fs where "tr'' = tr' @ fs" "\<forall>e \<in> set fs. Q (ev_call e)" by (rule only_callsD)
    then show ?thesis using Inr m f es by (intro exI [of _ "es @ fs"]) (auto simp: bindIO_def)
  qed
qed

lemma only_calls_catchIO [calls_intros]:
  assumes "only_calls Q m" and "\<And>e. only_calls Q (h e)"
  shows "only_calls Q (catchIO m P h)"
  unfolding only_calls_def
proof
  fix tr
  obtain r tr' where m: "m tr = (r, tr')" by (cases "m tr")
  with assms(1) obtain es where es: "tr' = tr @ es" "\<forall>e \<in> set es. Q (ev_call e)" by (rule only_callsD)
  show "\<exists>es. snd (catchIO m P h tr) = tr @ es \<and> (\<forall>e \<in> set es. Q (ev_call e))"
  proof (cases r)
    case (Inr x)
    then show ?thesis using m es by (simp add: catchIO_def)
  next
    case (Inl e)
    obtain q tr'' where h: "h e tr' = (q, tr'')" by (cases "h e tr'")
    with assms(2) obtain fs where "tr'' = tr' @ fs" "\<forall>e \<in> set fs. Q (ev_call e)" by (rule only_callsD)
    then show ?thesis using Inl m h es
      by (cases "catchable e \<and> P e") (auto simp: catchIO_def intro: exI [of _ "es @ fs"])
  qed
qed

lemma only_calls_basic [calls_intros]:
  "only_calls Q (returnIO x)" "only_calls Q (liftE r)" "only_calls Q (throwIO c msg ds)"
  by (simp_all add: only_calls_def returnIO_def liftE_def throwIO_def)

lemma only_calls_ext [calls_intros]:
  "Q c \<Longrightarrow> only_calls Q (ext_int E c)" "Q c \<Longrightarrow> only_calls Q (ext_str E c)"
  "Q c \<Longrightarrow> only_calls Q (ext_strs E c)" "Q c \<Longrightarrow> only_calls Q (ext_bytes E c)"
  "Q c \<Longrightarrow> only_calls Q (ext_ints E c)"
  by (simp_all add: only_calls_def ext_int_def ext_str_def ext_strs_def ext_bytes_def ext_ints_def)

lemma only_calls_call_IO [calls_intros]: "Q c \<Longrightarrow> only_calls Q (call_IO E c)"
  by (simp add: only_calls_def call_IO_def)

lemma only_calls_if [calls_intros]:
  "(p \<Longrightarrow> only_calls Q f) \<Longrightarrow> (\<not> p \<Longrightarrow> only_calls Q g) \<Longrightarrow> only_calls Q (if p then f else g)"
  by simp

lemma only_calls_option [calls_intros]:
  "only_calls Q f \<Longrightarrow> (\<And>x. only_calls Q (g x)) \<Longrightarrow> only_calls Q (case y of None \<Rightarrow> f | Some x \<Rightarrow> g x)"
  by (simp split: option.split)

lemma only_calls_drain [calls_intros]: "Q (Sys ERR_queue) \<Longrightarrow> only_calls Q (drain_openssl_errors E)"
  unfolding drain_openssl_errors_def by (intro calls_intros)

lemma only_calls_throw_openssl_error [calls_intros]:
  "Q (Sys ERR_queue) \<Longrightarrow> only_calls Q (throw_openssl_error E c m)"
  unfolding throw_openssl_error_def by (intro calls_intros)

lemma only_calls_mono: "only_calls Q m \<Longrightarrow> (\<And>c. Q c \<Longrightarrow> R c) \<Longrightarrow> only_calls R m"
  unfolding only_calls_def by blast

lemma throw_sub_Inl: "throw_sub c m ds = Inl e \<Longrightarrow> catchable e"
  by (auto simp: throw_sub_def)

end
