(* ===== verification/Message.thy ===== *)
theory Message
  imports Json Platform
begin

text \<open>
  Application messages: the message part of \<open>include/pqtls/application_protocol.hpp\<close> and
  \<open>src/common/application_protocol.cpp\<close>.  JSON values are the parameter \<open>J\<close>; parsing
  is an \<open>io\<close> action, as it draws a UUID and reads the clock for fields a message leaves out.
\<close>

definition kProtocolVersion :: int where
  "kProtocolVersion = 1"

definition kMaxJsonDepth :: nat where
  "kMaxJsonDepth = 16"

datatype MessageType =
  Ping | Echo | Telemetry | Capabilities | Close_message | Acknowledgement | Pong | Error_message

fun to_string_MessageType :: "MessageType \<Rightarrow> string" where
  "to_string_MessageType Ping = ''ping''"
| "to_string_MessageType Echo = ''echo''"
| "to_string_MessageType Telemetry = ''telemetry''"
| "to_string_MessageType Capabilities = ''capabilities''"
| "to_string_MessageType Close_message = ''close''"
| "to_string_MessageType Acknowledgement = ''acknowledgement''"
| "to_string_MessageType Pong = ''pong''"
| "to_string_MessageType Error_message = ''error''"

definition message_type_from_string :: "string \<Rightarrow> MessageType option" where
  "message_type_from_string name =
     (if name = ''ping'' then Some Ping
      else if name = ''echo'' then Some Echo
      else if name = ''telemetry'' then Some Telemetry
      else if name = ''capabilities'' then Some Capabilities
      else if name = ''close'' then Some Close_message
      else if name = ''acknowledgement'' then Some Acknowledgement
      else if name = ''pong'' then Some Pong
      else if name = ''error'' then Some Error_message
      else None)"

section \<open>Nesting depth\<close>

text \<open>The loop of \<open>json_depth\<close> over the children, with its early exit.\<close>

fun depth_loop :: "('j \<Rightarrow> nat) \<Rightarrow> 'j list \<Rightarrow> nat \<Rightarrow> nat" where
  "depth_loop f [] deepest = deepest"
| "depth_loop f (child # rest) deepest =
     (let deepest' = max deepest (f child) in
      if deepest' > kMaxJsonDepth then deepest' else depth_loop f rest deepest')"

lemma depth_loop_cong [fundef_cong]:
  "xs = ys \<Longrightarrow> d = e \<Longrightarrow> (\<And>y. y \<in> set ys \<Longrightarrow> f y = g y) \<Longrightarrow> depth_loop f xs d = depth_loop g ys e"
  by (induction ys arbitrary: xs d e) (auto simp: Let_def)

function json_depth :: "('j, 'z) json_api_scheme \<Rightarrow> 'j \<Rightarrow> nat \<Rightarrow> nat" where
  "json_depth J value0 current =
     (if current > kMaxJsonDepth then current
      else if \<not> j_is_structured J value0 then current
      else depth_loop (\<lambda>child. json_depth J child (current + 1)) (j_children J value0) current)"
  by pat_completeness auto

termination
  by (relation "measure (\<lambda>(J, v, c). Suc kMaxJsonDepth - c)") (auto simp: kMaxJsonDepth_def)

declare json_depth.simps [simp del]

section \<open>Identifiers and timestamps\<close>

definition kHex :: string where
  "kHex = ''0123456789abcdef''"

fun uuid_chars :: "nat \<Rightarrow> byte list \<Rightarrow> string" where
  "uuid_chars i [] = []"
| "uuid_chars i (b # bs) =
     (if i = 4 \<or> i = 6 \<or> i = 8 \<or> i = 10 then ''-'' else []) @
     [kHex ! unat (drop_bit 4 b AND 0x0F), kHex ! unat (b AND 0x0F)] @ uuid_chars (i + 1) bs"

text \<open>
  \<open>generate_uuid_v4\<close>.  The reply of \<open>RAND_bytes\<close> is the 16 bytes it wrote when it returned
  1, and anything else when it failed.
\<close>

definition generate_uuid_v4 :: "'e env_scheme \<Rightarrow> string io" where
  "generate_uuid_v4 E =
     bindIO (ext_bytes E (RAND_bytes 16)) (\<lambda>bytes.
       if length bytes \<noteq> 16
       then bindIO (drain_openssl_errors E)
              (throwIO Internal ''the OpenSSL CSPRNG failed to produce random bytes for a UUID'')
       else
         let bytes1 = bytes[6 := (bytes ! 6 AND 0x0F) OR 0x40];
             bytes2 = bytes1[8 := (bytes1 ! 8 AND 0x3F) OR 0x80]
         in returnIO (uuid_chars 0 bytes2))"

text \<open>Calendar date of a day number, as \<open>gmtime\<close> computes it (proleptic Gregorian).\<close>

definition civil_from_days :: "int \<Rightarrow> int \<times> int \<times> int" where
  "civil_from_days days =
     (let z = days + 719468; era = z div 146097; doe = z mod 146097;
          yoe = (doe - doe div 1460 + doe div 36524 - doe div 146096) div 365;
          doy = doe - (365 * yoe + yoe div 4 - yoe div 100);
          mp = (5 * doy + 2) div 153;
          d = doy - (153 * mp + 2) div 5 + 1;
          m = (if mp < 10 then mp + 3 else mp - 9);
          y = yoe + era * 400 + (if m \<le> 2 then 1 else 0)
      in (y, m, d))"

definition pad :: "nat \<Rightarrow> int \<Rightarrow> string" where
  "pad w i = (let s = dec_int i in replicate (w - length s) CHR ''0'' @ s)"

definition trunc_div :: "int \<Rightarrow> int \<Rightarrow> int" where
  "trunc_div a b = (if a < 0 then - ((- a) div b) else a div b)"

text \<open>
  \<open>iso8601_now\<close>.  The reply of the clock is nanoseconds since the epoch; \<open>strftime\<close> needs
  room for its output and a NUL in 32 characters and returns 0 otherwise; \<open>snprintf\<close> writes at
  most 39 characters.
\<close>

definition format_iso8601 :: "int \<Rightarrow> string" where
  "format_iso8601 now =
     (let secs = trunc_div now 1000000000;
          millis = trunc_div (now - secs * 1000000000) 1000000;
          sod = secs mod 86400
      in case civil_from_days (secs div 86400) of (y, m, d) \<Rightarrow>
        let text = dec_int y @ ''-'' @ pad 2 m @ ''-'' @ pad 2 d @ ''T'' @ pad 2 (sod div 3600) @ '':'' @
                   pad 2 (sod mod 3600 div 60) @ '':'' @ pad 2 (sod mod 60)
        in if length text + 1 > 32 then ''1970-01-01T00:00:00.000Z''
           else take 39 (text @ ''.'' @ pad 3 millis @ ''Z''))"

definition iso8601_now :: "'e env_scheme \<Rightarrow> string io" where
  "iso8601_now E = bindIO (ext_int E (Sys System_clock_now)) (\<lambda>now. returnIO (format_iso8601 now))"

section \<open>Messages\<close>

record 'j Message =
  m_protocol_version :: int
  m_message_id :: string
  m_type :: MessageType
  m_timestamp :: string
  m_status :: "string option"
  m_payload :: 'j

definition Message_default :: "('j, 'z) json_api_scheme \<Rightarrow> 'j Message" where
  "Message_default J =
     \<lparr>m_protocol_version = kProtocolVersion, m_message_id = '''', m_type = Ping, m_timestamp = '''',
      m_status = None, m_payload = j_object J\<rparr>"

definition parse_version :: "('j, 'z) json_api_scheme \<Rightarrow> 'j \<Rightarrow> 'j Message \<Rightarrow> 'j Message result" where
  "parse_version J doc message =
     (case j_find J doc ''protocol_version'' of
        None \<Rightarrow> ProtocolError (''application message is missing the mandatory field '' @ quoted ''protocol_version'')
      | Some v \<Rightarrow>
          if \<not> j_is_number_integer J v
          then ProtocolError (quoted ''protocol_version'' @ '' must be an integer'')
          else if j_get_int J v \<noteq> kProtocolVersion
          then ProtocolError (''unsupported protocol version '' @ dec_int (j_get_int J v) @
                 ''; this build speaks '' @ dec_int kProtocolVersion @ '' only'')
          else Inr (message\<lparr>m_protocol_version := j_get_int J v\<rparr>))"

definition parse_type :: "('j, 'z) json_api_scheme \<Rightarrow> 'j \<Rightarrow> 'j Message \<Rightarrow> 'j Message result" where
  "parse_type J doc message =
     (case j_find J doc ''type'' of
        None \<Rightarrow> ProtocolError (''application message is missing the mandatory field '' @ quoted ''type'')
      | Some v \<Rightarrow>
          if \<not> j_is_string J v then ProtocolError (quoted ''type'' @ '' must be a string'')
          else (case message_type_from_string (j_string J v) of
                  None \<Rightarrow> ProtocolError (''unknown message type '' @ quoted (j_string J v))
                | Some t \<Rightarrow> Inr (message\<lparr>m_type := t\<rparr>)))"

definition parse_message_id ::
  "('j, 'z) json_api_scheme \<Rightarrow> 'e env_scheme \<Rightarrow> 'j \<Rightarrow> 'j Message \<Rightarrow> 'j Message io" where
  "parse_message_id J E doc message =
     (case j_find J doc ''message_id'' of
        Some v \<Rightarrow>
          if \<not> j_is_string J v
          then liftE (ProtocolError (quoted ''message_id'' @ '' must be a string''))
          else if length (j_string J v) > 128
          then liftE (ProtocolError (quoted ''message_id'' @ '' is longer than the 128-character limit''))
          else returnIO (message\<lparr>m_message_id := j_string J v\<rparr>)
      | None \<Rightarrow> bindIO (generate_uuid_v4 E) (\<lambda>u. returnIO (message\<lparr>m_message_id := u\<rparr>)))"

definition parse_timestamp ::
  "('j, 'z) json_api_scheme \<Rightarrow> 'e env_scheme \<Rightarrow> 'j \<Rightarrow> 'j Message \<Rightarrow> 'j Message io" where
  "parse_timestamp J E doc message =
     (case j_find J doc ''timestamp'' of
        Some v \<Rightarrow>
          if \<not> j_is_string J v
          then liftE (ProtocolError (quoted ''timestamp'' @ '' must be an ISO-8601 string''))
          else returnIO (message\<lparr>m_timestamp := j_string J v\<rparr>)
      | None \<Rightarrow> bindIO (iso8601_now E) (\<lambda>t. returnIO (message\<lparr>m_timestamp := t\<rparr>)))"

definition parse_status :: "('j, 'z) json_api_scheme \<Rightarrow> 'j \<Rightarrow> 'j Message \<Rightarrow> 'j Message result" where
  "parse_status J doc message =
     (case j_find J doc ''status'' of
        None \<Rightarrow> Inr message
      | Some v \<Rightarrow>
          if \<not> j_is_string J v then ProtocolError (quoted ''status'' @ '' must be a string'')
          else Inr (message\<lparr>m_status := Some (j_string J v)\<rparr>))"

definition parse_payload :: "('j, 'z) json_api_scheme \<Rightarrow> 'j \<Rightarrow> 'j Message \<Rightarrow> 'j Message result" where
  "parse_payload J doc message =
     (case j_find J doc ''payload'' of
        None \<Rightarrow> Inr message
      | Some v \<Rightarrow>
          if \<not> j_is_object J v then ProtocolError (quoted ''payload'' @ '' must be a JSON object'')
          else Inr (message\<lparr>m_payload := v\<rparr>))"

definition check_telemetry :: "('j, 'z) json_api_scheme \<Rightarrow> 'j Message \<Rightarrow> 'j Message result" where
  "check_telemetry J message =
     (if m_type message = Telemetry
      then (case j_find J (m_payload message) ''device_id'' of
              Some v \<Rightarrow> if \<not> j_is_string J v
                then ProtocolError (''telemetry message requires a string '' @ quoted ''payload.device_id'')
                else Inr message
            | None \<Rightarrow> ProtocolError (''telemetry message requires a string '' @ quoted ''payload.device_id''))
      else Inr message)"

text \<open>\<open>Message::parse\<close>.\<close>

definition parse :: "('j, 'z) json_api_scheme \<Rightarrow> 'e env_scheme \<Rightarrow> string \<Rightarrow> 'j Message io" where
  "parse J E json_text =
     (if json_text = '''' then liftE (ProtocolError ''empty application message'')
      else if \<not> is_valid_utf8 json_text then liftE (ProtocolError ''application message is not valid UTF-8'')
      else case j_parse J json_text of
        Inl what \<Rightarrow> liftE (ProtocolError (''application message is not valid JSON: '' @ what))
      | Inr doc \<Rightarrow>
        if \<not> j_is_object J doc then liftE (ProtocolError ''application message must be a JSON object'')
        else if json_depth J doc 0 > kMaxJsonDepth
        then liftE (ProtocolError (''application message exceeds the maximum JSON nesting depth of '' @
               dec_nat kMaxJsonDepth))
        else
          bindIO (liftE (parse_version J doc (Message_default J))) (\<lambda>m1.
          bindIO (liftE (parse_type J doc m1)) (\<lambda>m2.
          bindIO (parse_message_id J E doc m2) (\<lambda>m3.
          bindIO (parse_timestamp J E doc m3) (\<lambda>m4.
          bindIO (liftE (parse_status J doc m4)) (\<lambda>m5.
          bindIO (liftE (parse_payload J doc m5)) (\<lambda>m6.
          liftE (check_telemetry J m6))))))))"

definition to_json :: "('j, 'z) json_api_scheme \<Rightarrow> 'j Message \<Rightarrow> 'j" where
  "to_json J m =
     (let doc = j_set J (j_null J) ''protocol_version'' (j_of_int J (m_protocol_version m));
          doc = j_set J doc ''message_id'' (j_of_string J (m_message_id m));
          doc = j_set J doc ''type'' (j_of_string J (to_string_MessageType (m_type m)));
          doc = j_set J doc ''timestamp'' (j_of_string J (m_timestamp m));
          doc = (case m_status m of Some s \<Rightarrow> j_set J doc ''status'' (j_of_string J s) | None \<Rightarrow> doc)
      in if \<not> j_is_null J (m_payload m) \<and> \<not> j_empty J (m_payload m)
         then j_set J doc ''payload'' (m_payload m) else doc)"

definition serialize :: "('j, 'z) json_api_scheme \<Rightarrow> 'j Message \<Rightarrow> string result" where
  "serialize J m = (case j_dump J (to_json J m) of Inl w \<Rightarrow> Inl (Std w) | Inr s \<Rightarrow> Inr s)"

definition make_request ::
  "('j, 'z) json_api_scheme \<Rightarrow> 'e env_scheme \<Rightarrow> MessageType \<Rightarrow> 'j \<Rightarrow> 'j Message io" where
  "make_request J E type payload =
     bindIO (generate_uuid_v4 E) (\<lambda>u.
     bindIO (iso8601_now E) (\<lambda>t.
       let message = (Message_default J)\<lparr>m_protocol_version := kProtocolVersion, m_message_id := u,
                        m_type := type, m_timestamp := t\<rparr>
       in returnIO (if \<not> j_is_null J payload then message\<lparr>m_payload := payload\<rparr> else message)))"

definition make_acknowledgement ::
  "('j, 'z) json_api_scheme \<Rightarrow> 'e env_scheme \<Rightarrow> 'j Message \<Rightarrow> string \<Rightarrow> 'j Message io" where
  "make_acknowledgement J E request status =
     bindIO (iso8601_now E) (\<lambda>t.
       returnIO ((Message_default J)\<lparr>m_protocol_version := kProtocolVersion,
         m_message_id := m_message_id request, m_type := Acknowledgement, m_timestamp := t,
         m_status := Some status\<rparr>))"

definition make_error ::
  "('j, 'z) json_api_scheme \<Rightarrow> 'e env_scheme \<Rightarrow> 'j Message option \<Rightarrow> string \<Rightarrow> 'j Message io" where
  "make_error J E request reason =
     bindIO (case request of Some r \<Rightarrow> returnIO (m_message_id r) | None \<Rightarrow> generate_uuid_v4 E) (\<lambda>u.
     bindIO (iso8601_now E) (\<lambda>t.
       returnIO ((Message_default J)\<lparr>m_protocol_version := kProtocolVersion, m_message_id := u,
         m_type := Error_message, m_timestamp := t, m_status := Some ''rejected'',
         m_payload := j_set J (j_null J) ''reason'' (j_of_string J reason)\<rparr>)))"

section \<open>Lemmas\<close>

lemma message_type_inverse: "message_type_from_string (to_string_MessageType t) = Some t"
  by (cases t) (simp_all add: message_type_from_string_def)

text \<open>The depth limit, stated on paths: \<open>nested J n v\<close> holds when \<open>v\<close> has a chain of \<open>n\<close> nestings.\<close>

fun nested :: "('j, 'z) json_api_scheme \<Rightarrow> nat \<Rightarrow> 'j \<Rightarrow> bool" where
  "nested J 0 v = True"
| "nested J (Suc n) v = (j_is_structured J v \<and> list_ex (nested J n) (j_children J v))"

lemma depth_loop_bound:
  "d \<le> kMaxJsonDepth \<Longrightarrow> depth_loop f cs d > kMaxJsonDepth \<longleftrightarrow> (\<exists>c \<in> set cs. f c > kMaxJsonDepth)"
  by (induction cs arbitrary: d) (auto simp: Let_def)

lemma json_depth_nested:
  "c \<le> Suc kMaxJsonDepth \<Longrightarrow> json_depth J v c > kMaxJsonDepth \<longleftrightarrow> nested J (Suc kMaxJsonDepth - c) v"
proof (induction J v c rule: json_depth.induct)
  case (1 J v c)
  show ?case
  proof (cases "c > kMaxJsonDepth")
    case True
    then show ?thesis using 1(2) by (simp add: json_depth.simps)
  next
    case False
    then have "Suc kMaxJsonDepth - c = Suc (kMaxJsonDepth - c)" by simp
    with False 1(1) show ?thesis
      by (auto simp: json_depth.simps [of J v c] depth_loop_bound list_ex_iff)
  qed
qed

lemma nested_mono: "nested J (Suc n) v \<Longrightarrow> nested J n v"
  by (induction n arbitrary: v) (auto simp: list_ex_iff)

section \<open>UUIDs\<close>

definition hex_digit :: "char \<Rightarrow> bool" where
  "hex_digit c \<longleftrightarrow> c \<in> set kHex"

lemma unat_nibble: "unat (b AND 0x0F) < 16" for b :: byte
  using unat_and_mask [of b 4] by (simp add: mask_eq_exp_minus_1)

lemma kHex_nth: "n < 16 \<Longrightarrow> hex_digit (kHex ! n)"
  unfolding hex_digit_def by (rule nth_mem) (simp add: kHex_def)

lemma hex_nibble: "hex_digit (kHex ! unat (b AND 0x0F))" for b :: byte
  by (rule kHex_nth) (rule unat_nibble)

lemma version_nibble: "drop_bit 4 ((b AND 0x0F) OR 0x40) AND 0x0F = (4 :: byte)"
  by (simp add: drop_bit_or drop_bit_and)

lemma byte_AND_3_cases: "w AND 3 = 0 \<or> w AND 3 = 1 \<or> w AND 3 = 2 \<or> w AND 3 = 3" for w :: byte
proof -
  define u where "u = w AND 3"
  have "unat u < 4" unfolding u_def using unat_and_mask [of w 2] by (simp add: mask_eq_exp_minus_1)
  then consider "unat u = unat (0 :: byte)" | "unat u = unat (1 :: byte)" | "unat u = unat (2 :: byte)"
    | "unat u = unat (3 :: byte)" by fastforce
  then show ?thesis unfolding u_def [symmetric] by cases (simp_all only: word_unat_eq_iff simp_thms)
qed

lemma variant_nibble: "kHex ! unat (drop_bit 4 ((b AND 0x3F) OR 0x80) AND 0x0F) \<in> set ''89ab''" for b :: byte
proof -
  have "drop_bit 4 ((b AND 0x3F) OR 0x80) AND 0x0F = (drop_bit 4 b AND 3) OR 8"
    by (simp add: drop_bit_or drop_bit_and bit.conj_disj_distrib2 and.assoc)
  then show ?thesis using byte_AND_3_cases [of "drop_bit 4 b"] by (auto simp: kHex_def)
qed

definition uuid_v4_shape :: "string \<Rightarrow> bool" where
  "uuid_v4_shape s \<longleftrightarrow> length s = 36 \<and>
     list_all (\<lambda>i. if i \<in> {8, 13, 18, 23} then s ! i = CHR ''-'' else hex_digit (s ! i)) [0..<36] \<and>
     s ! 14 = CHR ''4'' \<and> s ! 19 \<in> set ''89ab''"

lemma uuid_chars_append:
  "uuid_chars i (xs @ ys) = uuid_chars i xs @ uuid_chars (i + length xs) ys"
  by (induction xs arbitrary: i) simp_all

lemma uuid_chars_shape:
  assumes "length bs = 16" and "drop_bit 4 (bs ! 6) AND 0x0F = 4"
    and "kHex ! unat (drop_bit 4 (bs ! 8) AND 0x0F) \<in> set ''89ab''"
  shows "uuid_v4_shape (uuid_chars 0 bs)"
proof -
  obtain b0 b1 b2 b3 b4 b5 b6 b7 b8 b9 b10 b11 b12 b13 b14 b15 where
    bs: "bs = [b0, b1, b2, b3, b4, b5, b6, b7, b8, b9, b10, b11, b12, b13, b14, b15]"
    using assms(1) by (auto simp: length_Suc_conv numeral_eq_Suc)
  have 4: "kHex ! 4 = CHR ''4''" and hex4: "hex_digit CHR ''4''" by (simp_all add: kHex_def hex_digit_def)
  have "[0..<36] = [0, 1, 2, 3, 4, 5, 6, 7, 8, 9, 10, 11, 12, 13, 14, 15, 16, 17, 18, 19, 20, 21, 22, 23,
     24, 25, 26, 27, 28, 29, 30, 31, 32, 33, 34, 35 :: nat]" by code_simp
  then show ?thesis using assms(2,3) unfolding bs uuid_v4_shape_def
    by (simp add: hex_nibble hex4 4)
qed

lemma generate_uuid_v4_cases:
  "(\<exists>u. fst (generate_uuid_v4 E tr) = Inr u \<and> uuid_v4_shape u) \<or>
   (\<exists>ds. fst (generate_uuid_v4 E tr) = throw_sub Internal ''the OpenSSL CSPRNG failed to produce random bytes for a UUID'' ds)"
proof (cases "length (e_bytes E tr (RAND_bytes 16)) = 16")
  case True
  define bs where "bs = e_bytes E tr (RAND_bytes 16)"
  define cs where "cs = bs[6 := (bs ! 6 AND 0x0F) OR 0x40]"
  have "uuid_v4_shape (uuid_chars 0 (cs[8 := (cs ! 8 AND 0x3F) OR 0x80]))"
    by (rule uuid_chars_shape)
      (use True in \<open>simp_all add: bs_def cs_def version_nibble variant_nibble del: drop_bit_and drop_bit_or set_simps\<close>)
  then show ?thesis using True
    by (simp add: generate_uuid_v4_def bindIO_def ext_bytes_def returnIO_def Let_def bs_def cs_def)
next
  case False
  then show ?thesis
    by (simp add: generate_uuid_v4_def bindIO_def ext_bytes_def drain_openssl_errors_def ext_strs_def
        throwIO_def liftE_def) blast
qed

section \<open>Parsing\<close>

text \<open>What every accepted message satisfies.\<close>

definition well_formed :: "('j, 'z) json_api_scheme \<Rightarrow> 'j Message \<Rightarrow> bool" where
  "well_formed J m \<longleftrightarrow> m_protocol_version m = kProtocolVersion \<and> length (m_message_id m) \<le> 128 \<and>
     j_is_object J (m_payload m) \<and>
     (m_type m = Telemetry \<longrightarrow> (\<exists>v. j_find J (m_payload m) ''device_id'' = Some v \<and> j_is_string J v))"

lemma parse_version_eq:
  "parse_version J doc m = Inr m' \<longleftrightarrow>
     (\<exists>v. j_find J doc ''protocol_version'' = Some v \<and> j_is_number_integer J v \<and>
        j_get_int J v = kProtocolVersion \<and> m' = m\<lparr>m_protocol_version := kProtocolVersion\<rparr>)"
  by (auto simp: parse_version_def split: option.splits)

lemma parse_type_eq:
  "parse_type J doc m = Inr m' \<longleftrightarrow>
     (\<exists>v t. j_find J doc ''type'' = Some v \<and> j_is_string J v \<and>
        message_type_from_string (j_string J v) = Some t \<and> m' = m\<lparr>m_type := t\<rparr>)"
  by (auto simp: parse_type_def split: option.splits)

lemma parse_message_id_Some:
  "j_find J doc ''message_id'' = Some v \<Longrightarrow>
   parse_message_id J E doc m tr = (Inr m', tr') \<longleftrightarrow>
     j_is_string J v \<and> length (j_string J v) \<le> 128 \<and> m' = m\<lparr>m_message_id := j_string J v\<rparr> \<and> tr' = tr"
  by (auto simp: parse_message_id_def liftE_def returnIO_def)

lemma parse_message_id_None:
  assumes "j_find J doc ''message_id'' = None" and "parse_message_id J E doc m tr = (Inr m', tr')"
  shows "\<exists>u. uuid_v4_shape u \<and> m' = m\<lparr>m_message_id := u\<rparr>"
proof -
  obtain u where "generate_uuid_v4 E tr = (Inr u, tr')" "m' = m\<lparr>m_message_id := u\<rparr>"
    using assms by (auto simp: parse_message_id_def io_simps)
  then show ?thesis using generate_uuid_v4_cases [of E tr] by auto
qed

lemma parse_timestamp_Some:
  "j_find J doc ''timestamp'' = Some v \<Longrightarrow>
   parse_timestamp J E doc m tr = (Inr m', tr') \<longleftrightarrow>
     j_is_string J v \<and> m' = m\<lparr>m_timestamp := j_string J v\<rparr> \<and> tr' = tr"
  by (auto simp: parse_timestamp_def liftE_def returnIO_def)

lemma parse_timestamp_None:
  "j_find J doc ''timestamp'' = None \<Longrightarrow> parse_timestamp J E doc m tr = (Inr m', tr') \<Longrightarrow>
   \<exists>t. m' = m\<lparr>m_timestamp := t\<rparr>"
  by (auto simp: parse_timestamp_def io_simps)

lemma parse_status_eq:
  "parse_status J doc m = Inr m' \<longleftrightarrow>
     (case j_find J doc ''status'' of None \<Rightarrow> m' = m
      | Some v \<Rightarrow> j_is_string J v \<and> m' = m\<lparr>m_status := Some (j_string J v)\<rparr>)"
  by (auto simp: parse_status_def split: option.splits)

lemma parse_payload_eq:
  "parse_payload J doc m = Inr m' \<longleftrightarrow>
     (case j_find J doc ''payload'' of None \<Rightarrow> m' = m
      | Some v \<Rightarrow> j_is_object J v \<and> m' = m\<lparr>m_payload := v\<rparr>)"
  by (auto simp: parse_payload_def split: option.splits)

lemma check_telemetry_eq:
  "check_telemetry J m = Inr m' \<longleftrightarrow> m' = m \<and>
     (m_type m = Telemetry \<longrightarrow> (\<exists>v. j_find J (m_payload m) ''device_id'' = Some v \<and> j_is_string J v))"
  by (auto simp: check_telemetry_def split: option.splits)

text \<open>How the fields of an accepted message come from the document.\<close>

definition matches_document :: "('j, 'z) json_api_scheme \<Rightarrow> 'j \<Rightarrow> 'j Message \<Rightarrow> bool" where
  "matches_document J doc m \<longleftrightarrow>
     (\<exists>v. j_find J doc ''type'' = Some v \<and> message_type_from_string (j_string J v) = Some (m_type m)) \<and>
     (case j_find J doc ''message_id'' of Some v \<Rightarrow> m_message_id m = j_string J v
        | None \<Rightarrow> uuid_v4_shape (m_message_id m)) \<and>
     (case j_find J doc ''timestamp'' of Some v \<Rightarrow> m_timestamp m = j_string J v | None \<Rightarrow> True) \<and>
     m_status m = map_option (j_string J) (j_find J doc ''status'') \<and>
     m_payload m = (case j_find J doc ''payload'' of Some v \<Rightarrow> v | None \<Rightarrow> j_object J)"

lemma parse_document:
  assumes "parse J E s tr = (Inr m, tr')"
  obtains doc m1 m2 m3 m4 m5 m6 tr2 where
    "s \<noteq> []" "is_valid_utf8 s" "j_parse J s = Inr doc" "j_is_object J doc"
    "\<not> json_depth J doc 0 > kMaxJsonDepth"
    "parse_version J doc (Message_default J) = Inr m1" "parse_type J doc m1 = Inr m2"
    "parse_message_id J E doc m2 tr = (Inr m3, tr2)" "parse_timestamp J E doc m3 tr2 = (Inr m4, tr')"
    "parse_status J doc m4 = Inr m5" "parse_payload J doc m5 = Inr m6" "check_telemetry J m6 = Inr m"
  using assms unfolding parse_def
  by (cases "j_parse J s")
     (auto simp: io_simps if_io_eq liftE_def bindIO_def split: if_splits prod.splits sum.splits)

lemma parse_matches:
  assumes "parse J E s tr = (Inr m, tr')" and "j_is_object J (j_object J)"
  obtains doc where "s \<noteq> []" "is_valid_utf8 s" "j_parse J s = Inr doc" "j_is_object J doc"
    "\<not> json_depth J doc 0 > kMaxJsonDepth" "matches_document J doc m" "well_formed J m"
proof -
  obtain doc m1 m2 m3 m4 m5 m6 tr2 where
    doc: "s \<noteq> []" "is_valid_utf8 s" "j_parse J s = Inr doc" "j_is_object J doc"
      "\<not> json_depth J doc 0 > kMaxJsonDepth"
    and v: "parse_version J doc (Message_default J) = Inr m1" and t: "parse_type J doc m1 = Inr m2"
    and i: "parse_message_id J E doc m2 tr = (Inr m3, tr2)" and ts: "parse_timestamp J E doc m3 tr2 = (Inr m4, tr')"
    and st: "parse_status J doc m4 = Inr m5" and p: "parse_payload J doc m5 = Inr m6"
    and c: "check_telemetry J m6 = Inr m"
    using assms(1) by (rule parse_document)
  obtain w ty where w: "j_find J doc ''type'' = Some w" "message_type_from_string (j_string J w) = Some ty"
    and m2: "m2 = (Message_default J)\<lparr>m_protocol_version := kProtocolVersion, m_type := ty\<rparr>"
    using v t by (auto simp: parse_version_eq parse_type_eq)
  obtain u where u: "m3 = m2\<lparr>m_message_id := u\<rparr>" "length u \<le> 128"
    "case j_find J doc ''message_id'' of Some v \<Rightarrow> u = j_string J v | None \<Rightarrow> uuid_v4_shape u"
  proof (cases "j_find J doc ''message_id''")
    case None
    then show ?thesis using that parse_message_id_None [OF None i] by (auto simp: uuid_v4_shape_def)
  next
    case (Some x)
    then show ?thesis using that i parse_message_id_Some [OF Some, of E m2 tr m3 tr2] by auto
  qed
  obtain z where z: "m4 = m3\<lparr>m_timestamp := z\<rparr>"
    "case j_find J doc ''timestamp'' of Some v \<Rightarrow> z = j_string J v | None \<Rightarrow> True"
  proof (cases "j_find J doc ''timestamp''")
    case None
    then show ?thesis using that parse_timestamp_None [OF None ts] by auto
  next
    case (Some x)
    then show ?thesis using that ts parse_timestamp_Some [OF Some, of E m3 tr2 m4 tr'] by auto
  qed
  have m5: "m5 = m4\<lparr>m_status := map_option (j_string J) (j_find J doc ''status'')\<rparr>"
    using st by (auto simp: parse_status_eq z(1) u(1) m2 Message_default_def split: option.splits)
  have m6: "m6 = m5\<lparr>m_payload := (case j_find J doc ''payload'' of Some v \<Rightarrow> v | None \<Rightarrow> j_object J)\<rparr>"
    "j_is_object J (m_payload m6)"
    using p assms(2) by (auto simp: parse_payload_eq m5 z(1) u(1) m2 Message_default_def split: option.splits)
  have m: "m = m6" using c by (simp add: check_telemetry_eq)
  have "well_formed J m" using c m6(2) u(2)
    by (auto simp: m check_telemetry_eq well_formed_def m6(1) m5 z(1) u(1) m2)
  moreover have "matches_document J doc m"
    using w u(3) z(2) by (auto simp: m matches_document_def m6(1) m5 z(1) u(1) m2 split: option.splits)
  ultimately show ?thesis using doc that by blast
qed

section \<open>Printing and reading back\<close>

lemma law_set:
  assumes "json_laws J" and "container J d"
  shows "container J (j_set J d k v)" "j_is_object J (j_set J d k v)"
    "j_find J (j_set J d k v) = (j_find J d)(k \<mapsto> v)"
    "set (j_children J (j_set J d k v)) \<subseteq> insert v (set (j_children J d))"
  using assms unfolding json_laws_def container_def by metis+

lemma law_children:
  assumes "json_laws J" and "container J d" and "set (j_children J d) \<subseteq> A" and "v \<in> A"
  shows "set (j_children J (j_set J d k v)) \<subseteq> A"
  using law_set(4) [OF assms(1,2)] assms(3,4) by blast

lemma law_scalars:
  assumes "json_laws J"
  shows "container J (j_null J)" "j_find J (j_null J) = Map.empty" "j_children J (j_null J) = []"
    "j_is_string J (j_of_string J s)" "j_string J (j_of_string J s) = s" "\<not> j_is_structured J (j_of_string J s)"
    "j_is_number_integer J (j_of_int J 1)" "j_get_int J (j_of_int J 1) = 1" "\<not> j_is_structured J (j_of_int J 1)"
proof -
  have "(-(2 ^ 63) :: int) \<le> 1" "(1 :: int) < 2 ^ 63" by simp_all
  then show "j_is_number_integer J (j_of_int J 1)" "\<not> j_is_structured J (j_of_int J 1)"
    "j_get_int J (j_of_int J 1) = 1"
    using assms unfolding json_laws_def j_get_int_def by auto
qed (use assms in \<open>auto simp: json_laws_def container_def\<close>)

lemma law_object:
  assumes "json_laws J"
  shows "j_is_object J (j_object J)" "j_is_object J v \<Longrightarrow> j_empty J v \<Longrightarrow> v = j_object J"
    "j_is_object J v \<Longrightarrow> \<not> j_is_null J v" "j_dump J d = Inr s \<Longrightarrow> s \<noteq> [] \<and> is_valid_utf8 s"
  using assms unfolding json_laws_def by metis+

definition header_json :: "('j, 'z) json_api_scheme \<Rightarrow> 'j Message \<Rightarrow> 'j" where
  "header_json J m =
     (let doc = j_set J (j_null J) ''protocol_version'' (j_of_int J (m_protocol_version m));
          doc = j_set J doc ''message_id'' (j_of_string J (m_message_id m));
          doc = j_set J doc ''type'' (j_of_string J (to_string_MessageType (m_type m)))
      in j_set J doc ''timestamp'' (j_of_string J (m_timestamp m)))"

lemma header_json_facts:
  assumes "json_laws J"
  shows "container J (header_json J m)"
    "j_find J (header_json J m) =
       [''protocol_version'' \<mapsto> j_of_int J (m_protocol_version m), ''message_id'' \<mapsto> j_of_string J (m_message_id m),
        ''type'' \<mapsto> j_of_string J (to_string_MessageType (m_type m)), ''timestamp'' \<mapsto> j_of_string J (m_timestamp m)]"
    "set (j_children J (header_json J m)) \<subseteq>
       {j_of_int J (m_protocol_version m)} \<union> range (j_of_string J)"
proof -
  note set1 = law_set [OF assms]
  note null = law_scalars(1-3) [OF assms]
  show "container J (header_json J m)"
    unfolding header_json_def Let_def by (intro set1(1) null(1))
  show "j_find J (header_json J m) =
       [''protocol_version'' \<mapsto> j_of_int J (m_protocol_version m), ''message_id'' \<mapsto> j_of_string J (m_message_id m),
        ''type'' \<mapsto> j_of_string J (to_string_MessageType (m_type m)), ''timestamp'' \<mapsto> j_of_string J (m_timestamp m)]"
    unfolding header_json_def Let_def by (simp only: set1(1,3) null(1,2))
  show "set (j_children J (header_json J m)) \<subseteq>
       {j_of_int J (m_protocol_version m)} \<union> range (j_of_string J)"
    unfolding header_json_def Let_def
    by (intro law_children [OF assms] set1(1) null(1)) (simp_all add: null(3))
qed

lemma to_json_eq:
  "to_json J m =
     (let doc = (case m_status m of Some s \<Rightarrow> j_set J (header_json J m) ''status'' (j_of_string J s)
                 | None \<Rightarrow> header_json J m)
      in if \<not> j_is_null J (m_payload m) \<and> \<not> j_empty J (m_payload m)
         then j_set J doc ''payload'' (m_payload m) else doc)"
  unfolding to_json_def header_json_def Let_def by (rule refl)

lemma to_json_facts:
  assumes "json_laws J" and "j_is_object J (m_payload m)"
  shows "container J (to_json J m)"
    "j_find J (to_json J m) ''protocol_version'' = Some (j_of_int J (m_protocol_version m))"
    "j_find J (to_json J m) ''message_id'' = Some (j_of_string J (m_message_id m))"
    "j_find J (to_json J m) ''type'' = Some (j_of_string J (to_string_MessageType (m_type m)))"
    "j_find J (to_json J m) ''timestamp'' = Some (j_of_string J (m_timestamp m))"
    "j_find J (to_json J m) ''status'' = map_option (j_of_string J) (m_status m)"
    "j_find J (to_json J m) ''payload'' = (if j_empty J (m_payload m) then None else Some (m_payload m))"
    "set (j_children J (to_json J m)) \<subseteq>
       insert (m_payload m) (insert (j_of_int J (m_protocol_version m)) (range (j_of_string J)))"
proof -
  define doc where "doc = (case m_status m of Some s \<Rightarrow> j_set J (header_json J m) ''status'' (j_of_string J s)
                 | None \<Rightarrow> header_json J m)"
  note h = header_json_facts [OF assms(1), of m]
  have doc: "container J doc" "j_find J doc = (case m_status m of Some s \<Rightarrow> (j_find J (header_json J m))(''status'' \<mapsto> j_of_string J s)
                 | None \<Rightarrow> j_find J (header_json J m))"
    "set (j_children J doc) \<subseteq> insert (j_of_int J (m_protocol_version m)) (range (j_of_string J))"
    using h(1,3) law_set [OF assms(1) h(1)] unfolding doc_def by (auto split: option.splits) blast
  have t: "to_json J m = (if j_empty J (m_payload m) then doc else j_set J doc ''payload'' (m_payload m))"
    using law_object(3) [OF assms] by (simp add: to_json_eq doc_def Let_def)
  show "container J (to_json J m)" using doc(1) law_set(1) [OF assms(1) doc(1)] by (simp add: t)
  have f: "j_find J (to_json J m) = (if j_empty J (m_payload m) then j_find J doc
       else (j_find J doc)(''payload'' \<mapsto> m_payload m))"
    using law_set(3) [OF assms(1) doc(1)] by (simp add: t)
  show "j_find J (to_json J m) ''protocol_version'' = Some (j_of_int J (m_protocol_version m))"
    "j_find J (to_json J m) ''message_id'' = Some (j_of_string J (m_message_id m))"
    "j_find J (to_json J m) ''type'' = Some (j_of_string J (to_string_MessageType (m_type m)))"
    "j_find J (to_json J m) ''timestamp'' = Some (j_of_string J (m_timestamp m))"
    "j_find J (to_json J m) ''status'' = map_option (j_of_string J) (m_status m)"
    "j_find J (to_json J m) ''payload'' = (if j_empty J (m_payload m) then None else Some (m_payload m))"
    by (simp_all add: f doc(2) h(2) split: option.split)
  show "set (j_children J (to_json J m)) \<subseteq>
       insert (m_payload m) (insert (j_of_int J (m_protocol_version m)) (range (j_of_string J)))"
    using doc(3) law_set(4) [OF assms(1) doc(1)] unfolding t by (auto split: if_splits)
qed

lemma to_json_object: "json_laws J \<Longrightarrow> j_is_object J (m_payload m) \<Longrightarrow> j_is_object J (to_json J m)"
  unfolding to_json_eq header_json_def Let_def
  by (simp split: option.split add: law_set law_scalars(1))

lemma to_json_depth:
  assumes "json_laws J" and "well_formed J m" and "\<not> nested J kMaxJsonDepth (m_payload m)"
  shows "\<not> json_depth J (to_json J m) 0 > kMaxJsonDepth"
proof -
  have "j_is_object J (m_payload m)" "m_protocol_version m = 1"
    using assms(2) by (auto simp: well_formed_def kProtocolVersion_def)
  note c = to_json_facts(8) [OF assms(1) this(1)]
  have "\<not> nested J kMaxJsonDepth x" if "x \<in> set (j_children J (to_json J m))" for x
    using that c assms(3) law_scalars(6,9) [OF assms(1)] \<open>m_protocol_version m = 1\<close>
    by (auto simp: kMaxJsonDepth_def numeral_eq_Suc)
  then show ?thesis using json_depth_nested [of 0 J "to_json J m"] by (auto simp: list_ex_iff)
qed

lemma parse_serialized:
  assumes laws: "json_laws J" and wf: "well_formed J m" and s: "serialize J m = Inr s"
    and rt: "j_parse J s = Inr (to_json J m)" and depth: "\<not> nested J kMaxJsonDepth (m_payload m)"
  shows "parse J E s tr = (Inr m, tr)"
proof -
  have p: "j_is_object J (m_payload m)" "m_protocol_version m = 1" "length (m_message_id m) \<le> 128"
    using wf by (auto simp: well_formed_def kProtocolVersion_def)
  note f = to_json_facts [OF laws p(1)]
  note scalars = law_scalars [OF laws]
  have dump: "s \<noteq> [] \<and> is_valid_utf8 s"
    by (rule law_object(4) [OF laws]) (use s in \<open>auto simp: serialize_def split: sum.splits\<close>)
  have pay: "j_empty J (m_payload m) \<Longrightarrow> j_object J = m_payload m"
    using law_object(2) [OF laws p(1)] by simp
  have tel: "check_telemetry J m = Inr m"
    using wf by (auto simp: well_formed_def check_telemetry_eq)
  define d where "d = Message_default J"
  have steps: "parse_version J (to_json J m) d = Inr (d\<lparr>m_protocol_version := 1\<rparr>)"
    "parse_type J (to_json J m) m1 = Inr (m1\<lparr>m_type := m_type m\<rparr>)"
    "parse_message_id J E (to_json J m) m1 tr = (Inr (m1\<lparr>m_message_id := m_message_id m\<rparr>), tr)"
    "parse_timestamp J E (to_json J m) m1 tr = (Inr (m1\<lparr>m_timestamp := m_timestamp m\<rparr>), tr)"
    "parse_status J (to_json J m) m1 = Inr (case m_status m of None \<Rightarrow> m1 | Some x \<Rightarrow> m1\<lparr>m_status := Some x\<rparr>)"
    "parse_payload J (to_json J m) m1 = Inr (if j_empty J (m_payload m) then m1 else m1\<lparr>m_payload := m_payload m\<rparr>)"
    for m1 and tr
    using p f scalars
    by (auto simp: parse_version_eq parse_type_eq parse_message_id_Some parse_timestamp_Some parse_status_eq
        parse_payload_eq kProtocolVersion_def message_type_inverse split: option.splits)
  have eq_m: "(if j_empty J (m_payload m) then m1 else m1\<lparr>m_payload := m_payload m\<rparr>) = m"
    if "m1 = (case m_status m of None \<Rightarrow> m2 | Some x \<Rightarrow> m2\<lparr>m_status := Some x\<rparr>)"
      and "m2 = d\<lparr>m_protocol_version := 1, m_type := m_type m, m_message_id := m_message_id m,
        m_timestamp := m_timestamp m\<rparr>" for m1 m2
    using that pay p(2) by (auto simp: d_def Message_default_def split: option.splits)
  show ?thesis
    unfolding parse_def rt d_def [symmetric]
    using dump to_json_object [OF laws p(1)] to_json_depth [OF laws wf depth]
    by (simp add: bindIO_def liftE_def steps eq_m tel)
qed

lemma parse_outcomes:
  "throws Protocol (fst (parse J E s tr)) \<or> (\<exists>m. fst (parse J E s tr) = Inr m) \<or>
   throws Internal (fst (parse J E s tr)) \<and> (\<exists>doc. j_parse J s = Inr doc \<and> j_find J doc ''message_id'' = None)"
proof -
  have lift: "only_throws Protocol (parse_version J doc m)" "only_throws Protocol (parse_type J doc m)"
    "only_throws Protocol (parse_status J doc m)" "only_throws Protocol (parse_payload J doc m)"
    "only_throws Protocol (check_telemetry J m)" for doc m
    unfolding parse_version_def parse_type_def parse_status_def parse_payload_def check_telemetry_def
    by (intro only_throws_option only_throws_if only_throws_throw_sub only_throws_Inr)+
  define ok where "ok doc r \<longleftrightarrow> throws Protocol r \<or> (\<exists>m. r = Inr m) \<or>
     throws Internal r \<and> j_find J doc ''message_id'' = None" for doc and r :: "'a Message result"
  have okL: "only_throws Protocol r \<Longrightarrow> ok doc (fst (liftE r tr))" for r doc tr
    by (auto simp: ok_def liftE_def only_throws_def)
  have okB: "ok doc (fst (bindIO m f tr))"
    if "ok doc (fst (m tr))" "\<And>x tr. ok doc (fst (f x tr))" for doc m f tr
    using that by (cases "m tr"; cases "fst (m tr)") (auto simp: ok_def bindIO_def throws_def throw_sub_def)
  have okI: "ok doc (fst (parse_message_id J E doc m tr))" for doc m tr
    using generate_uuid_v4_cases [of E tr]
    by (auto simp: ok_def parse_message_id_def bindIO_def liftE_def returnIO_def throw_sub_def throws_def
        split: option.splits sum.splits prod.splits) blast
  have okT: "ok doc (fst (parse_timestamp J E doc m tr))" for doc m tr
    by (auto simp: ok_def parse_timestamp_def bindIO_def liftE_def returnIO_def iso8601_now_def ext_int_def
        split: option.splits)
  have "ok doc (fst (bindIO (liftE (parse_version J doc (Message_default J))) (\<lambda>m1.
          bindIO (liftE (parse_type J doc m1)) (\<lambda>m2.
          bindIO (parse_message_id J E doc m2) (\<lambda>m3.
          bindIO (parse_timestamp J E doc m3) (\<lambda>m4.
          bindIO (liftE (parse_status J doc m4)) (\<lambda>m5.
          bindIO (liftE (parse_payload J doc m5)) (\<lambda>m6.
          liftE (check_telemetry J m6))))))) tr))" for doc
    by (intro okB okL okI okT lift)
  then show ?thesis
    unfolding parse_def ok_def by (cases "j_parse J s") (simp_all add: liftE_def)
qed

section \<open>Properties\<close>


definition ping_doc :: jvalue where
  "ping_doc = JObj [(''protocol_version'', JInt 1), (''type'', JStr ''ping''), (''message_id'', JStr ''a''),
     (''timestamp'', JStr ''t'')]"

definition null_env :: env where
  "null_env = \<lparr>e_int = (\<lambda>_ _. 0), e_str = (\<lambda>_ _. None), e_strs = (\<lambda>_ _. []), e_bytes = (\<lambda>_ _. []),
     e_ints = (\<lambda>_ _. []), e_getenv = (\<lambda>_. None)\<rparr>"

definition ping_message :: "jvalue Message" where
  "ping_message = \<lparr>m_protocol_version = 1, m_message_id = ''a'', m_type = Ping, m_timestamp = ''t'',
     m_status = None, m_payload = JObj []\<rparr>"

lemma ping_parses:
  "parse (json_reference [ping_doc]) null_env (print_json ping_doc) [] = (Inr ping_message, [])"
  by code_simp


text \<open>
  A malformed message is always a protocol error: whatever the bytes, \<open>parse\<close> either returns
  a message, throws \<open>ProtocolError\<close>, or throws \<open>InternalError\<close>, and the last only when the
  document has no id and the random generator failed.  No other exception escapes it.
\<close>

theorem parse_error_classes:
  "(\<exists>m. fst (parse J E s tr) = Inr m) \<or> throws Protocol (fst (parse J E s tr)) \<or>
   throws Internal (fst (parse J E s tr)) \<and> (\<exists>doc. j_parse J s = Inr doc \<and> j_find J doc ''message_id'' = None)"
  using parse_outcomes [of J E s tr] by blast

text \<open>
  C31.  Print and parse are inverse: a well-formed message whose payload leaves room for the enclosing
  object within the depth limit, once serialised to a text that the JSON library reads back as the
  document it printed, parses to exactly the same message, without drawing a UUID or reading the clock.
\<close>

theorem serialize_parse_roundtrip:
  assumes "json_laws J" and "well_formed J m" and "serialize J m = Inr s"
    and "j_parse J s = Inr (to_json J m)" and "\<not> nested J 16 (m_payload m)"
  shows "parse J E s tr = (Inr m, tr)"
  by (rule parse_serialized [OF assms(1-4)]) (use assms(5) in \<open>simp add: kMaxJsonDepth_def\<close>)

definition telemetry_message :: "jvalue Message" where
  "telemetry_message = \<lparr>m_protocol_version = 1, m_message_id = ''id-1'', m_type = Telemetry,
     m_timestamp = ''2024-01-01T00:00:00.000Z'', m_status = Some ''accepted'',
     m_payload = JObj [(''device_id'', JStr ''dev'')]\<rparr>"

definition telemetry_json :: "jvalue json_api" where
  "telemetry_json = json_reference [to_json (json_reference []) telemetry_message]"

lemma telemetry_facts:
  "serialize telemetry_json telemetry_message = Inr (print_json (to_json (json_reference []) telemetry_message))"
  "j_parse telemetry_json (print_json (to_json (json_reference []) telemetry_message)) =
     Inr (to_json telemetry_json telemetry_message)"
  "\<not> nested telemetry_json 16 (m_payload telemetry_message)"
  by code_simp+

lemma telemetry_well_formed: "well_formed telemetry_json telemetry_message"
  by (simp add: well_formed_def telemetry_message_def telemetry_json_def json_reference_def kProtocolVersion_def)

theorem serialize_parse_roundtrip_witness:
  "parse telemetry_json null_env (print_json (to_json (json_reference []) telemetry_message)) [] =
     (Inr telemetry_message, [])"
  by (rule serialize_parse_roundtrip [OF _ telemetry_well_formed telemetry_facts])
     (simp add: telemetry_json_def json_reference_laws)

text \<open>
  The nesting limit is exact: \<open>json_depth\<close> reports more than 16 precisely when the document
  has a chain of seventeen nestings, although it stops looking at the first such chain.
\<close>

theorem json_depth_limit_exact: "json_depth J doc 0 > kMaxJsonDepth \<longleftrightarrow> nested J (Suc kMaxJsonDepth) doc"
  using json_depth_nested [of 0 J doc] by simp

text \<open>
  C40.  Generated identifiers are version-4 UUIDs: whatever bytes the generator delivers, the result has
  36 characters, hyphens at positions 8, 13, 18 and 23, lower-case hexadecimal digits elsewhere,
  version digit 4 and a variant digit among 8, 9, a and b; when the generator fails the call throws
  \<open>InternalError\<close> and yields no identifier.
\<close>

theorem generate_uuid_v4_shape:
  "(\<exists>u. fst (generate_uuid_v4 E tr) = Inr u \<and> uuid_v4_shape u) \<or> throws Internal (fst (generate_uuid_v4 E tr))"
  using generate_uuid_v4_cases [of E tr] by auto

text \<open>
  Message type names are a bijection onto the names the parser knows: every type's name reads back
  as that type, and a name is understood only if it is the name of the type it yields.
\<close>

theorem message_type_names:
  "message_type_from_string name = Some t \<longleftrightarrow> name = to_string_MessageType t"
  by (cases t) (auto simp: message_type_from_string_def)

text \<open>
  The integer check of the version narrows to 32 bits before it compares: a document that asks for
  version 4294967297 is accepted as version 1.
\<close>

lemma parse_accepts_wrapped_version:
  assumes "j_find J doc ''protocol_version'' = Some v" and "j_is_number_integer J v"
    and "j_integer J v = 4294967297"
  shows "parse_version J doc m = Inr (m\<lparr>m_protocol_version := 1\<rparr>)"
  using assms by (simp add: parse_version_def j_get_int_def kProtocolVersion_def)

theorem parse_accepts_wrapped_version_witness:
  "parse_version (json_reference []) (JObj [(''protocol_version'', JInt 4294967297)]) ping_message
     = Inr (ping_message\<lparr>m_protocol_version := 1\<rparr>)"
  by (rule parse_accepts_wrapped_version [where v = "JInt 4294967297"]) (simp_all add: json_reference_def)

end
