(* ===== verification/Transport.thy ===== *)
theory Transport
  imports Platform "HOL-Library.Multiset"
begin

text \<open>
  Sockets and the byte-level TLS helpers: \<open>include/pqtls/transport.hpp\<close> and
  \<open>src/common/transport.cpp\<close> (the POSIX branches).  A \<open>Socket\<close> object is its file
  descriptor; the call of its destructor is written out where the C++ scope ends, as
  \<open>socket_close\<close>.
\<close>

record IoCounters =
  bytes_sent :: u64
  bytes_received :: u64

definition IoCounters_zero :: IoCounters where
  "IoCounters_zero = \<lparr>bytes_sent = 0, bytes_received = 0\<rparr>"

section \<open>Sockets\<close>

definition last_socket_error :: "'e env_scheme \<Rightarrow> string io" where
  "last_socket_error E = bindIO (ext_str E (Sys Strerror)) (\<lambda>s. returnIO (case s of Some t \<Rightarrow> t | None \<Rightarrow> ''''))"

definition socket_close :: "'e env_scheme \<Rightarrow> int \<Rightarrow> unit io" where
  "socket_close E fd = (if fd \<ge> 0 then call_IO E (Sys (Close fd)) else returnIO ())"

definition set_timeouts :: "'e env_scheme \<Rightarrow> int \<Rightarrow> u32 \<Rightarrow> u32 \<Rightarrow> unit io" where
  "set_timeouts E fd recv_timeout_ms send_timeout_ms =
     (if fd < 0 then returnIO ()
      else
        bindIO (ext_int E (Sys (Setsockopt fd (SO_RCVTIMEO (unat (recv_timeout_ms div 1000))
                                 (unat ((recv_timeout_ms mod 1000) * 1000)))))) (\<lambda>r.
        if r \<noteq> 0
        then bindIO (last_socket_error E) (\<lambda>s. throwIO Network (''failed to set the receive timeout: '' @ s) [])
        else
        bindIO (ext_int E (Sys (Setsockopt fd (SO_SNDTIMEO (unat (send_timeout_ms div 1000))
                                 (unat ((send_timeout_ms mod 1000) * 1000)))))) (\<lambda>r.
        if r \<noteq> 0
        then bindIO (last_socket_error E) (\<lambda>s. throwIO Network (''failed to set the send timeout: '' @ s) [])
        else returnIO ())))"

definition set_tcp_nodelay :: "'e env_scheme \<Rightarrow> int \<Rightarrow> bool \<Rightarrow> unit io" where
  "set_tcp_nodelay E fd enable =
     (if fd < 0 then returnIO () else call_IO E (Sys (Setsockopt fd (TCP_NODELAY enable))))"

text \<open>
  \<open>Socket::peer_address\<close>: the reply to \<open>getpeername\<close> is the address family with the
  presentation form of \<open>inet_ntop\<close> and the port, or nothing when the call failed.
\<close>

definition peer_address :: "'e env_scheme \<Rightarrow> int \<Rightarrow> string io" where
  "peer_address E fd =
     (if fd < 0 then returnIO ''unknown''
      else bindIO (ext_strs E (Sys (Getpeername fd))) (\<lambda>r. returnIO
        (case r of
           [family, host, port] \<Rightarrow>
             if family = ''AF_INET'' then host @ '':'' @ port
             else if family = ''AF_INET6'' then ''['' @ host @ '']:'' @ port
             else ''unknown''
         | _ \<Rightarrow> ''unknown'')))"

text \<open>
  The loop over the candidates of \<open>getaddrinfo\<close>, shared in shape by \<open>tcp_connect\<close> and
  \<open>tcp_listen\<close>: \<open>attempt fd family\<close> sets the new socket up and yields an error text when
  the candidate is to be skipped.  A skipped socket goes out of scope and is closed.
\<close>

fun try_candidates ::
  "'e env_scheme \<Rightarrow> (int \<Rightarrow> nat \<Rightarrow> int \<Rightarrow> string option io) \<Rightarrow> int list \<Rightarrow> nat \<Rightarrow> string \<Rightarrow> (int + string) io" where
  "try_candidates E attempt [] i last_error = returnIO (Inr last_error)"
| "try_candidates E attempt (family # rest) i last_error =
     bindIO (ext_int E (Sys (Socket family))) (\<lambda>fd.
     if fd < 0
     then bindIO (last_socket_error E) (\<lambda>e. try_candidates E attempt rest (i + 1) e)
     else
       bindIO (attempt fd i family) (\<lambda>failed.
       case failed of
         Some e \<Rightarrow> bindIO (socket_close E fd) (\<lambda>_. try_candidates E attempt rest (i + 1) e)
       | None \<Rightarrow> returnIO (Inl fd)))"

text \<open>
  Name resolution: the reply to \<open>getaddrinfo\<close> is its return code followed by the address family
  of every candidate.
\<close>

definition resolve :: "'e env_scheme \<Rightarrow> string \<Rightarrow> string \<Rightarrow> bool \<Rightarrow> (int \<times> int list) io" where
  "resolve E host port_text passive =
     bindIO (ext_ints E (Sys (Getaddrinfo (c_str host) port_text passive))) (\<lambda>r.
     case r of [] \<Rightarrow> liftE (Inl (UB ''getaddrinfo'')) | rc # families \<Rightarrow> returnIO (rc, families))"

definition gai_strerror :: "'e env_scheme \<Rightarrow> int \<Rightarrow> string io" where
  "gai_strerror E rc = bindIO (ext_str E (Sys (Gai_strerror rc))) (\<lambda>s. returnIO (case s of Some t \<Rightarrow> t | None \<Rightarrow> ''''))"

definition connect_candidate :: "'e env_scheme \<Rightarrow> u32 \<Rightarrow> int \<Rightarrow> nat \<Rightarrow> int \<Rightarrow> string option io" where
  "connect_candidate E timeout_ms fd i family =
     bindIO (catchIO (bindIO (set_timeouts E fd timeout_ms timeout_ms) (\<lambda>_. returnIO None))
              (\<lambda>e. case e of Err d er \<Rightarrow> True | _ \<Rightarrow> False)
              (\<lambda>e. returnIO (Some ''could not apply a connect timeout''))) (\<lambda>skip.
     case skip of
       Some e \<Rightarrow> returnIO (Some e)
     | None \<Rightarrow>
        bindIO (ext_int E (Sys (Connect fd (int i)))) (\<lambda>r.
        if r = 0 then bindIO (set_tcp_nodelay E fd True) (\<lambda>_. returnIO None)
        else bindIO (last_socket_error E) (\<lambda>e. returnIO (Some e))))"

definition tcp_connect :: "'e env_scheme \<Rightarrow> string \<Rightarrow> u16 \<Rightarrow> u32 \<Rightarrow> int io" where
  "tcp_connect E host port timeout_ms =
     bindIO (resolve E host (dec_nat (unat port)) False) (\<lambda>(rc, families).
     if rc \<noteq> 0 \<or> families = []
     then bindIO (gai_strerror E rc) (\<lambda>s. throwIO Network (''cannot resolve '' @ quoted host @ '': '' @ s) [])
     else
       bindIO (try_candidates E (connect_candidate E timeout_ms) families 0 ''no addresses were returned'') (\<lambda>r.
       case r of
         Inl fd \<Rightarrow> returnIO fd
       | Inr last_error \<Rightarrow> throwIO Network (''cannot connect to '' @ host @ '':'' @ dec_nat (unat port) @
           '': '' @ last_error) []))"

definition kAfInet6 :: int where
  "kAfInet6 = 10"

definition listen_candidate :: "'e env_scheme \<Rightarrow> u32 \<Rightarrow> int \<Rightarrow> nat \<Rightarrow> int \<Rightarrow> string option io" where
  "listen_candidate E backlog fd i family =
     bindIO (call_IO E (Sys (Setsockopt fd SO_REUSEADDR))) (\<lambda>_.
     bindIO (if family = kAfInet6 then call_IO E (Sys (Setsockopt fd IPV6_V6ONLY)) else returnIO ()) (\<lambda>_.
     bindIO (ext_int E (Sys (Bind fd (int i)))) (\<lambda>r.
     if r \<noteq> 0 then bindIO (last_socket_error E) (\<lambda>e. returnIO (Some e))
     else
     bindIO (ext_int E (Sys (Listen fd (sint backlog)))) (\<lambda>r.
     if r \<noteq> 0 then bindIO (last_socket_error E) (\<lambda>e. returnIO (Some e))
     else returnIO None))))"

definition tcp_listen :: "'e env_scheme \<Rightarrow> string \<Rightarrow> u16 \<Rightarrow> u32 \<Rightarrow> int io" where
  "tcp_listen E address port backlog =
     bindIO (resolve E address (dec_nat (unat port)) True) (\<lambda>(rc, families).
     if rc \<noteq> 0 \<or> families = []
     then bindIO (gai_strerror E rc) (\<lambda>s.
            throwIO Network (''cannot resolve the listen address '' @ quoted address @ '': '' @ s) [])
     else
       bindIO (try_candidates E (listen_candidate E backlog) families 0 ''no addresses were returned'') (\<lambda>r.
       case r of
         Inl fd \<Rightarrow> returnIO fd
       | Inr last_error \<Rightarrow> throwIO Network (''cannot listen on '' @ address @ '':'' @ dec_nat (unat port) @
           '': '' @ last_error) []))"

section \<open>TLS reads and writes\<close>

text \<open>The results of \<open>SSL_get_error\<close>, and \<open>EAGAIN\<close>, as the headers number them.\<close>

definition kSslErrorZeroReturn :: int where "kSslErrorZeroReturn = 6"
definition kSslErrorWantRead :: int where "kSslErrorWantRead = 2"
definition kSslErrorWantWrite :: int where "kSslErrorWantWrite = 3"
definition kSslErrorSyscall :: int where "kSslErrorSyscall = 5"
definition kEagain :: int where "kEagain = 11"

definition throw_ssl_error :: "'e env_scheme \<Rightarrow> string \<Rightarrow> 'a io" where
  "throw_ssl_error E operation =
     bindIO (ext_int E (Ssl SSL_get_error)) (\<lambda>error.
     bindIO (drain_openssl_errors E) (\<lambda>details.
     if error = kSslErrorZeroReturn
     then throwIO Network (operation @ '': the peer closed the TLS connection'') details
     else if error = kSslErrorWantRead \<or> error = kSslErrorWantWrite
     then throwIO Timeout (operation @ '': timed out waiting for the peer'') details
     else if error = kSslErrorSyscall
     then bindIO (ext_int E (Sys Errno)) (\<lambda>errno.
       if errno = kEagain then throwIO Timeout (operation @ '': socket timeout elapsed'') details
       else if errno \<noteq> 0
       then bindIO (last_socket_error E) (\<lambda>s.
              throwIO Network (operation @ '': the transport failed'') (details @ [''errno: '' @ s]))
       else throwIO Network (operation @ '': the transport failed'') details)
     else throwIO Handshake (operation @ '': TLS protocol failure'') details))"

definition kIntMax :: nat where
  "kIntMax = 0x7FFFFFFF"

text \<open>\<open>ssl_write_all\<close>: loop over partial writes.\<close>

function ssl_write_all :: "'e env_scheme \<Rightarrow> byte list \<Rightarrow> IoCounters \<Rightarrow> IoCounters io" where
  "ssl_write_all E remaining counters =
     (if remaining = [] then returnIO counters
      else
        bindIO (ext_int E (SSL_write (take kIntMax remaining))) (\<lambda>written.
        if written \<le> 0 then throw_ssl_error E ''SSL_write''
        else if written > int (length (take kIntMax remaining)) then liftE (Inl (UB ''SSL_write''))
        else ssl_write_all E (drop (nat written) remaining)
               (counters\<lparr>bytes_sent := bytes_sent counters + of_int written\<rparr>)))"
  by pat_completeness auto

termination
  by (relation "measure (\<lambda>(E, remaining, c). length remaining)") (auto simp: neq_Nil_conv)

declare ssl_write_all.simps [simp del]

text \<open>\<open>ssl_read_some\<close>: the bytes read, none on a clean shutdown.\<close>

definition ssl_read_some :: "'e env_scheme \<Rightarrow> nat \<Rightarrow> IoCounters \<Rightarrow> (byte list \<times> IoCounters) io" where
  "ssl_read_some E capacity counters =
     (if capacity = 0 then returnIO ([], counters)
      else
        bindIO (ext_bytes E (SSL_read (min kIntMax capacity))) (\<lambda>read.
        if read \<noteq> []
        then (if length read > min kIntMax capacity then liftE (Inl (UB ''SSL_read''))
              else returnIO (read, counters\<lparr>bytes_received := bytes_received counters + of_nat (length read)\<rparr>))
        else
          bindIO (ext_int E (Ssl SSL_get_error)) (\<lambda>error.
          if error = kSslErrorZeroReturn
          then bindIO (drain_openssl_errors E) (\<lambda>_. returnIO ([], counters))
          else throw_ssl_error E ''SSL_read'')))"

definition ssl_graceful_shutdown :: "'e env_scheme \<Rightarrow> unit io" where
  "ssl_graceful_shutdown E =
     bindIO (ext_int E (Ssl SSL_shutdown)) (\<lambda>first.
     bindIO (if first = 0 then call_IO E (Ssl SSL_shutdown) else returnIO ()) (\<lambda>_.
     bindIO (drain_openssl_errors E) (\<lambda>_. returnIO ())))"

definition ignore_sigpipe :: "'e env_scheme \<Rightarrow> unit io" where
  "ignore_sigpipe E = call_IO E (Sys Ignore_sigpipe)"

section \<open>What a trace says\<close>

text \<open>The application bytes an event handed to the TLS layer, or received from it.\<close>

fun sent_of :: "event \<Rightarrow> byte list" where
  "sent_of (Ev (SSL_write b) (RInt w)) = take (nat w) b"
| "sent_of _ = []"

fun received_of :: "event \<Rightarrow> byte list" where
  "received_of (Ev (SSL_read n) (RBytes b)) = b"
| "received_of _ = []"

definition sent :: "trace \<Rightarrow> byte list" where
  "sent tr = concat (map sent_of tr)"

definition received :: "trace \<Rightarrow> byte list" where
  "received tr = concat (map received_of tr)"

lemma sent_simps [simp]: "sent [] = []" "sent (e # es) = sent_of e @ sent es" "sent (xs @ ys) = sent xs @ sent ys"
  by (simp_all add: sent_def)

lemma received_simps [simp]:
  "received [] = []" "received (e # es) = received_of e @ received es"
  "received (xs @ ys) = received xs @ received ys"
  by (simp_all add: received_def)

text \<open>Calls that carry application data.\<close>

fun app_data :: "call \<Rightarrow> bool" where
  "app_data (SSL_write b) = True"
| "app_data (SSL_read n) = True"
| "app_data _ = False"

lemma no_app_data_sent: "\<not> app_data (ev_call e) \<Longrightarrow> sent_of e = [] \<and> received_of e = []"
  by (cases e rule: sent_of.cases; cases e rule: received_of.cases) auto

lemma no_app_data_trace: "\<forall>e \<in> set es. \<not> app_data (ev_call e) \<Longrightarrow> sent es = [] \<and> received es = []"
  using no_app_data_sent by (induction es) auto

lemma only_calls_last_socket_error [calls_intros]: "Q (Sys Strerror) \<Longrightarrow> only_calls Q (last_socket_error E)"
  unfolding last_socket_error_def by (intro calls_intros)

lemma only_calls_throw_ssl_error [calls_intros]:
  "Q (Ssl SSL_get_error) \<Longrightarrow> Q (Sys ERR_queue) \<Longrightarrow> Q (Sys Errno) \<Longrightarrow> Q (Sys Strerror) \<Longrightarrow>
   only_calls Q (throw_ssl_error E op)"
  unfolding throw_ssl_error_def by (intro calls_intros)

text \<open>Which exceptions a failing TLS read or write ends with.\<close>

definition transport_failure :: "'a result \<Rightarrow> bool" where
  "transport_failure r \<longleftrightarrow> throws Network r \<or> throws Timeout r \<or> throws Handshake r"

lemma fst_throwIO: "fst (throwIO c m ds tr) = throw_sub c m ds"
  by (simp add: throwIO_def liftE_def)

lemma throw_ssl_error_class: "transport_failure (fst (throw_ssl_error E op tr))"
proof -
  have "transport_failure (throw_sub c m ds)" if "c = Network \<or> c = Timeout \<or> c = Handshake"
    for c m ds and x :: "'a result"
    using that by (auto simp: transport_failure_def)
  then show ?thesis
    by (simp add: throw_ssl_error_def bindIO_def ext_int_def drain_openssl_errors_def ext_strs_def
        last_socket_error_def ext_str_def returnIO_def fst_throwIO transport_failure_def)
qed

text \<open>Every outcome of \<open>ssl_write_all\<close>, with the bytes that left.\<close>

lemma ssl_write_all_outcome:
  obtains es where "snd (ssl_write_all E data c tr) = tr @ es"
    "fst (ssl_write_all E data c tr) = Inr (c\<lparr>bytes_sent := bytes_sent c + of_nat (length data)\<rparr>) \<and> sent es = data \<or>
     transport_failure (fst (ssl_write_all E data c tr)) \<and> (\<exists>rest. data = sent es @ rest \<and> rest \<noteq> []) \<or>
     fst (ssl_write_all E data c tr) = Inl (UB ''SSL_write'')"
proof (induction E data c arbitrary: tr thesis rule: ssl_write_all.induct)
  case (1 E data c)
  show ?case
  proof (cases "data = []")
    case True
    then show ?thesis using 1(2) [of "[]"] by (simp add: ssl_write_all.simps returnIO_def)
  next
    case False
    define w where "w = e_int E tr (SSL_write (take kIntMax data))"
    define e where "e = Ev (SSL_write (take kIntMax data)) (RInt w)"
    consider (fail) "w \<le> 0" | (ub) "w > int (length (take kIntMax data))"
      | (ok) "0 < w" "w \<le> int (length (take kIntMax data))" by linarith
    then show ?thesis
    proof cases
      case fail
      have "only_calls (\<lambda>c. \<not> app_data c) (throw_ssl_error E ''SSL_write'' :: IoCounters io)"
        by (intro calls_intros) simp_all
      then obtain fs where fs: "snd (throw_ssl_error E ''SSL_write'' (tr @ [e]) :: IoCounters result \<times> trace) = (tr @ [e]) @ fs"
        "\<forall>x \<in> set fs. \<not> app_data (ev_call x)"
        unfolding only_calls_def by blast
      have eq: "ssl_write_all E data c tr = throw_ssl_error E ''SSL_write'' (tr @ [e])"
        using False fail by (simp add: ssl_write_all.simps [of E data] bindIO_def ext_int_def e_def w_def)
      have tf: "transport_failure (fst (throw_ssl_error E ''SSL_write'' (tr @ [e]) :: IoCounters result \<times> trace))"
        by (rule throw_ssl_error_class)
      have "sent (e # fs) = []" using no_app_data_trace [OF fs(2)] fail by (simp add: e_def)
      then show ?thesis using 1(2) [of "e # fs"] fs(1) False tf unfolding eq by simp
    next
      case ub
      then show ?thesis using 1(2) [of "[e]"] False
        by (simp add: ssl_write_all.simps [of E data] bindIO_def ext_int_def e_def w_def liftE_def)
    next
      case ok
      define d where "d = c\<lparr>bytes_sent := bytes_sent c + of_int w\<rparr>"
      have eq: "ssl_write_all E data c tr = ssl_write_all E (drop (nat w) data) d (tr @ [e])"
        using False ok by (simp add: ssl_write_all.simps [of E data] bindIO_def ext_int_def e_def w_def d_def)
      have len: "nat w \<le> length (take kIntMax data)" "nat w \<le> length data" using ok by auto
      have se: "sent_of e = take (nat w) data" using len by (simp add: e_def min_absorb1)
      have b: "bytes_sent d + of_nat (length (drop (nat w) data)) = bytes_sent c + of_nat (length data)"
        using ok(1) len(2) by (simp add: d_def of_nat_diff algebra_simps)
      show ?thesis
      proof (rule 1(1) [OF False, of w "tr @ [e]", folded d_def])
        fix es
        assume es: "snd (ssl_write_all E (drop (nat w) data) d (tr @ [e])) = (tr @ [e]) @ es"
          "fst (ssl_write_all E (drop (nat w) data) d (tr @ [e])) =
             Inr (d\<lparr>bytes_sent := bytes_sent d + of_nat (length (drop (nat w) data))\<rparr>) \<and> sent es = drop (nat w) data \<or>
           transport_failure (fst (ssl_write_all E (drop (nat w) data) d (tr @ [e]))) \<and>
             (\<exists>rest. drop (nat w) data = sent es @ rest \<and> rest \<noteq> []) \<or>
           fst (ssl_write_all E (drop (nat w) data) d (tr @ [e])) = Inl (UB ''SSL_write'')"
        show ?thesis
        proof (rule 1(2) [of "e # es"])
          show "snd (ssl_write_all E data c tr) = tr @ e # es" using es(1) eq by simp
          have "(\<exists>rest. drop (nat w) data = sent es @ rest \<and> rest \<noteq> []) \<Longrightarrow>
              (\<exists>rest. data = sent (e # es) @ rest \<and> rest \<noteq> [])"
            by (metis append.assoc append_take_drop_id se sent_simps(2))
          then show "fst (ssl_write_all E data c tr) = Inr (c\<lparr>bytes_sent := bytes_sent c + of_nat (length data)\<rparr>) \<and>
              sent (e # es) = data \<or>
            transport_failure (fst (ssl_write_all E data c tr)) \<and> (\<exists>rest. data = sent (e # es) @ rest \<and> rest \<noteq> []) \<or>
            fst (ssl_write_all E data c tr) = Inl (UB ''SSL_write'')"
            using es(2) unfolding eq b by (auto simp: se d_def)
        qed
      qed (use ok in \<open>simp_all add: d_def\<close>)
    qed
  qed
qed

text \<open>
  Descriptors: what the sockets of a trace opened (a non-negative reply of \<open>socket\<close>) and closed.
\<close>

fun opened_by :: "event \<Rightarrow> int multiset" where
  "opened_by (Ev (Sys (Socket f)) (RInt fd)) = (if fd < 0 then {#} else {#fd#})"
| "opened_by _ = {#}"

fun closed_by :: "event \<Rightarrow> int multiset" where
  "closed_by (Ev (Sys (Close fd)) r) = {#fd#}"
| "closed_by _ = {#}"

definition opened :: "trace \<Rightarrow> int multiset" where
  "opened tr = sum_list (map opened_by tr)"

definition closed :: "trace \<Rightarrow> int multiset" where
  "closed tr = sum_list (map closed_by tr)"

lemma opened_simps [simp]:
  "opened [] = {#}" "opened (e # es) = opened_by e + opened es" "opened (xs @ ys) = opened xs + opened ys"
  by (simp_all add: opened_def)

lemma closed_simps [simp]:
  "closed [] = {#}" "closed (e # es) = closed_by e + closed es" "closed (xs @ ys) = closed xs + closed ys"
  by (simp_all add: closed_def)

text \<open>Calls that neither open nor close a descriptor.\<close>

fun keeps_fds :: "call \<Rightarrow> bool" where
  "keeps_fds (Sys (Socket f)) = False"
| "keeps_fds (Sys (Close fd)) = False"
| "keeps_fds _ = True"

lemma keeps_fds_event: "keeps_fds (ev_call e) \<Longrightarrow> opened_by e = {#} \<and> closed_by e = {#}"
  by (cases e rule: opened_by.cases; cases e rule: closed_by.cases) auto

lemma keeps_fds_trace: "\<forall>e \<in> set es. keeps_fds (ev_call e) \<Longrightarrow> opened es = {#} \<and> closed es = {#}"
  using keeps_fds_event by (induction es) auto

lemma keeps_fds_setup:
  "only_calls keeps_fds (last_socket_error E)" "only_calls keeps_fds (set_timeouts E fd r s)"
  "only_calls keeps_fds (set_tcp_nodelay E fd b)" "only_calls keeps_fds (gai_strerror E rc)"
  "only_calls keeps_fds (connect_candidate E t fd i fam)" "only_calls keeps_fds (listen_candidate E bl fd i fam)"
  unfolding connect_candidate_def listen_candidate_def set_timeouts_def set_tcp_nodelay_def
    last_socket_error_def gai_strerror_def
  by (intro calls_intros; simp)+

lemma keeps_fds_resolve: "only_calls keeps_fds (resolve E host port passive)"
  unfolding resolve_def by (intro calls_intros) (auto split: list.split intro: calls_intros)

text \<open>Balance of a run: all closed but the descriptor it returned.\<close>

definition balanced :: "trace \<Rightarrow> int multiset \<Rightarrow> bool" where
  "balanced es kept \<longleftrightarrow> opened es = closed es + kept"

fun kept_by :: "(int + string) result \<Rightarrow> int multiset" where
  "kept_by (Inr (Inl fd)) = {#fd#}"
| "kept_by _ = {#}"

lemma try_candidates_balanced:
  assumes "\<And>fd i fam. only_calls keeps_fds (attempt fd i fam)"
    and "\<And>fd i fam tr. \<exists>x. fst (attempt fd i fam tr) = Inr x"
  shows "\<exists>es. snd (try_candidates E attempt fams i le tr) = tr @ es \<and>
     balanced es (kept_by (fst (try_candidates E attempt fams i le tr)))"
proof (induction fams arbitrary: i le tr)
  case Nil
  then show ?case by (simp add: returnIO_def balanced_def)
next
  case (Cons fam fams)
  define fd where "fd = e_int E tr (Sys (Socket fam))"
  define tr1 where "tr1 = tr @ [Ev (Sys (Socket fam)) (RInt fd)]"
  have step: "try_candidates E attempt (fam # fams) i le tr =
     (if fd < 0
      then bindIO (last_socket_error E) (\<lambda>e. try_candidates E attempt fams (i + 1) e)
      else bindIO (attempt fd i fam) (\<lambda>failed. case failed of
         Some e \<Rightarrow> bindIO (socket_close E fd) (\<lambda>_. try_candidates E attempt fams (i + 1) e)
       | None \<Rightarrow> returnIO (Inl fd))) tr1"
    by (simp only: try_candidates.simps bindIO_def [of "ext_int E (Sys (Socket fam))"] ext_int_def
        prod.case sum.case fd_def tr1_def)
  show ?case
  proof (cases "fd < 0")
    case True
    obtain e tr2 where l: "last_socket_error E tr1 = (Inr e, tr2)" "tr2 = tr1 @ [Ev (Sys Strerror) (RStr (e_str E tr1 (Sys Strerror)))]"
      by (simp add: last_socket_error_def bindIO_def ext_str_def returnIO_def)
    obtain es where es: "snd (try_candidates E attempt fams (i + 1) e tr2) = tr2 @ es"
      "balanced es (kept_by (fst (try_candidates E attempt fams (i + 1) e tr2)))" using Cons.IH by blast
    have "try_candidates E attempt (fam # fams) i le tr = try_candidates E attempt fams (i + 1) e tr2"
      unfolding step using True l(1) by (simp add: bindIO_def)
    then show ?thesis using es True l(2) unfolding tr1_def
      by (intro exI [of _ "[Ev (Sys (Socket fam)) (RInt fd), Ev (Sys Strerror) (RStr (e_str E tr1 (Sys Strerror)))] @ es"])
         (simp add: balanced_def tr1_def)
  next
    case False
    obtain x tr2 where a: "attempt fd i fam tr1 = (Inr x, tr2)"
      using assms(2) [of fd i fam tr1] by (metis prod.collapse)
    obtain fs where fs: "tr2 = tr1 @ fs" "\<forall>e \<in> set fs. keeps_fds (ev_call e)"
      using assms(1) a by (rule only_callsD)
    note quiet = keeps_fds_trace [OF fs(2)]
    show ?thesis
    proof (cases x)
      case None
      then have "try_candidates E attempt (fam # fams) i le tr = (Inr (Inl fd), tr2)"
        unfolding step using False a by (simp add: bindIO_def returnIO_def)
      then show ?thesis using fs(1) quiet False
        by (intro exI [of _ "Ev (Sys (Socket fam)) (RInt fd) # fs"]) (simp add: balanced_def tr1_def)
    next
      case (Some e)
      define c where "c = Ev (Sys (Close fd)) RVoid"
      obtain es where es: "snd (try_candidates E attempt fams (i + 1) e (tr2 @ [c])) = (tr2 @ [c]) @ es"
        "balanced es (kept_by (fst (try_candidates E attempt fams (i + 1) e (tr2 @ [c]))))" using Cons.IH by blast
      have "try_candidates E attempt (fam # fams) i le tr = try_candidates E attempt fams (i + 1) e (tr2 @ [c])"
        unfolding step using False a Some
        by (simp add: bindIO_def socket_close_def call_IO_def ext_int_def returnIO_def c_def)
      then show ?thesis using es fs(1) quiet False
        by (intro exI [of _ "Ev (Sys (Socket fam)) (RInt fd) # fs @ c # es"])
           (simp add: balanced_def tr1_def c_def)
    qed
  qed
qed

lemma connect_candidate_total: "\<exists>x. fst (connect_candidate E t fd i fam tr) = Inr x"
proof -
  have set: "(\<exists>tr'. set_timeouts E fd t t tr = (Inr (), tr')) \<or>
      (\<exists>tr' m. set_timeouts E fd t t tr = (throw_sub Network m [], tr'))"
    by (simp add: set_timeouts_def bindIO_def ext_int_def last_socket_error_def ext_str_def returnIO_def
        throwIO_def liftE_def) blast
  define r where "r = catchIO (bindIO (set_timeouts E fd t t) (\<lambda>_. returnIO None))
              (\<lambda>e. case e of Err d er \<Rightarrow> True | _ \<Rightarrow> False)
              (\<lambda>e. returnIO (Some ''could not apply a connect timeout'')) tr"
  have "\<exists>x tr'. r = (Inr x, tr')"
    using set by (auto simp: r_def catchIO_def bindIO_def returnIO_def throw_sub_def)
  then obtain x tr' where "r = (Inr x, tr')" by blast
  then show ?thesis unfolding r_def connect_candidate_def
    by (cases x) (simp_all add: bindIO_def returnIO_def ext_int_def last_socket_error_def ext_str_def
        set_tcp_nodelay_def call_IO_def)
qed

lemma listen_candidate_total: "\<exists>x. fst (listen_candidate E bl fd i fam tr) = Inr x"
  by (simp add: listen_candidate_def bindIO_def call_IO_def ext_int_def returnIO_def last_socket_error_def
      ext_str_def)

fun kept_fd :: "int result \<Rightarrow> int multiset" where
  "kept_fd (Inr fd) = {#fd#}"
| "kept_fd (Inl e) = {#}"

text \<open>Resolution, then the candidates, then the verdict: the shape of both socket constructors.\<close>

lemma socket_constructor_balanced:
  assumes "\<And>fd i fam. only_calls keeps_fds (attempt fd i fam)"
    and "\<And>fd i fam tr. \<exists>x. fst (attempt fd i fam tr) = Inr x"
    and "f = bindIO (resolve E host port passive) (\<lambda>(rc, families).
      if rc \<noteq> 0 \<or> families = []
      then bindIO (gai_strerror E rc) (\<lambda>s. throwIO Network (m1 s) [])
      else bindIO (try_candidates E attempt families 0 le) (\<lambda>r.
        case r of Inl fd \<Rightarrow> returnIO fd | Inr e \<Rightarrow> throwIO Network (m2 e) []))"
  shows "\<exists>es. snd (f tr) = tr @ es \<and> balanced es (kept_fd (fst (f tr)))"
proof -
  obtain r tr1 where r: "resolve E host port passive tr = (r, tr1)" by (cases "resolve E host port passive tr")
  obtain es1 where es1: "tr1 = tr @ es1" "\<forall>e \<in> set es1. keeps_fds (ev_call e)"
    using keeps_fds_resolve r by (rule only_callsD)
  note quiet1 = keeps_fds_trace [OF es1(2)]
  show ?thesis
  proof (cases r)
    case (Inl e)
    then show ?thesis using es1(1) quiet1 r
      by (intro exI [of _ es1]) (simp add: assms(3) bindIO_def balanced_def)
  next
    case (Inr p)
    obtain rc fams where p: "p = (rc, fams)" by (cases p)
    show ?thesis
    proof (cases "rc \<noteq> 0 \<or> fams = []")
      case True
      obtain g tr2 where g: "gai_strerror E rc tr1 = (Inr g, tr2)"
        by (simp add: gai_strerror_def bindIO_def ext_str_def returnIO_def)
      obtain es2 where es2: "tr2 = tr1 @ es2" "\<forall>e \<in> set es2. keeps_fds (ev_call e)"
        using keeps_fds_setup(4) g by (rule only_callsD)
      have "f tr = (throw_sub Network (m1 g) [], tr2)"
        using True r Inr p g by (simp add: assms(3) bindIO_def throwIO_def liftE_def)
      then show ?thesis using es1(1) es2(1) quiet1 keeps_fds_trace [OF es2(2)]
        by (intro exI [of _ "es1 @ es2"]) (simp add: balanced_def throw_sub_def)
    next
      case False
      obtain q tr2 where q: "try_candidates E attempt fams 0 le tr1 = (q, tr2)"
        by (cases "try_candidates E attempt fams 0 le tr1")
      obtain es2 where es2: "tr2 = tr1 @ es2" "balanced es2 (kept_by q)"
        using try_candidates_balanced [where attempt = attempt and E = E and fams = fams and i = 0 and le = le and tr = tr1,
          OF assms(1,2)] q by auto
      have "f tr = (case q of Inl e \<Rightarrow> (Inl e, tr2) | Inr (Inl fd) \<Rightarrow> (Inr fd, tr2)
          | Inr (Inr e) \<Rightarrow> (throw_sub Network (m2 e) [], tr2))"
        using False r Inr p q
        by (simp add: assms(3) bindIO_def throwIO_def liftE_def returnIO_def split: sum.split)
      then show ?thesis using es1(1) es2 quiet1
        by (intro exI [of _ "es1 @ es2"]) (auto simp: balanced_def throw_sub_def split: sum.splits)
    qed
  qed
qed

lemma tcp_connect_balanced:
  "\<exists>es. snd (tcp_connect E host port t tr) = tr @ es \<and> balanced es (kept_fd (fst (tcp_connect E host port t tr)))"
  by (rule socket_constructor_balanced [OF keeps_fds_setup(5) connect_candidate_total tcp_connect_def])

lemma try_candidates_valid:
  "try_candidates E attempt fams i le tr = (Inr (Inl fd), tr') \<Longrightarrow> fd \<ge> 0"
  by (induction fams arbitrary: i le tr)
     (auto simp: returnIO_eq elim!: bindIO_InrE split: if_splits option.splits)

lemma tcp_connect_valid: "tcp_connect E host port t tr = (Inr fd, tr') \<Longrightarrow> fd \<ge> 0"
  unfolding tcp_connect_def
  by (auto elim!: bindIO_InrE simp: returnIO_eq throwIO_eq split: if_splits sum.splits)
     (erule try_candidates_valid)

section \<open>Properties\<close>


text \<open>
  C35.  No descriptor leaks: whatever the candidates of name resolution do, \<open>tcp_connect\<close> and
  \<open>tcp_listen\<close> close every socket they opened except the one they return, and on an exception
  they close them all.
\<close>

theorem tcp_sockets_no_leak:
  "(\<exists>es. snd (tcp_connect E host port t tr) = tr @ es \<and>
      opened es = closed es + kept_fd (fst (tcp_connect E host port t tr))) \<and>
   (\<exists>es. snd (tcp_listen E address lport backlog tr) = tr @ es \<and>
      opened es = closed es + kept_fd (fst (tcp_listen E address lport backlog tr)))"
proof
  show "\<exists>es. snd (tcp_connect E host port t tr) = tr @ es \<and>
      opened es = closed es + kept_fd (fst (tcp_connect E host port t tr))"
    unfolding balanced_def [symmetric] by (rule tcp_connect_balanced)
  show "\<exists>es. snd (tcp_listen E address lport backlog tr) = tr @ es \<and>
      opened es = closed es + kept_fd (fst (tcp_listen E address lport backlog tr))"
    unfolding balanced_def [symmetric]
    by (rule socket_constructor_balanced [OF keeps_fds_setup(6) listen_candidate_total tcp_listen_def])
qed

end
