(* ===== verification/TlsContext.thy ===== *)
theory TlsContext
  imports Config Transport
begin

text \<open>
  Building and checking TLS contexts: \<open>include/pqtls/tls_context.hpp\<close> and
  \<open>src/common/tls_context.cpp\<close>, for OpenSSL 3.2 and later.  The configuration an
  \<open>SSL_CTX\<close> holds is the sequence of setter calls in the trace.  The static
  \<open>once_flag\<close> of \<open>initialize_openssl\<close> is set once the trace holds a successful
  initialisation.  Logging is not modelled.
\<close>

record HandshakeOutcome =
  h_tls_version :: string
  h_negotiated_group :: string
  h_cipher_suite :: string
  h_peer_signature_algorithm :: string
  h_peer_certificate_subject :: string
  h_peer_certificate_issuer :: string
  h_session_reused :: bool
  h_peer_certificate_present :: bool

definition kAlpnWire :: "byte list" where
  "kAlpnWire = 6 # bytes_of ''pqtls1''"

definition kTls13Version :: nat where
  "kTls13Version = 0x0304"

definition initialize_openssl :: "'e env_scheme \<Rightarrow> unit io" where
  "initialize_openssl E tr =
     (if Ev (Ctx OPENSSL_init_ssl) (RInt 1) \<in> set tr then returnIO () tr
      else bindIO (ext_int E (Ctx OPENSSL_init_ssl)) (\<lambda>r.
             if r \<noteq> 1 then throw_openssl_error E Internal ''OpenSSL initialisation failed''
             else returnIO ()) tr)"

text \<open>\<open>ConfigLoader::enforce_insecure_mode_policy\<close> with the environment of the process.\<close>

definition enforce_dev_policy :: "'e env_scheme \<Rightarrow> CommonConfig \<Rightarrow> unit io" where
  "enforce_dev_policy E config = liftE (enforce_insecure_mode_policy (e_getenv E) config)"

definition install_keylog_callback :: "'e env_scheme \<Rightarrow> CommonConfig \<Rightarrow> unit io" where
  "install_keylog_callback E config =
     (if cc_keylog_file config = '''' then returnIO ()
      else if production_environment (e_getenv E)
      then throwIO Configuration ''TLS key logging was requested but PQTLS_ENV=production. Key logging writes session secrets in the clear and is refused outside development.'' []
      else
        bindIO (ext_int E (Ctx Keylog_is_open)) (\<lambda>is_open.
        bindIO (if is_open = 0
                then bindIO (ext_int E (Ctx (Keylog_open (cc_keylog_file config)))) (\<lambda>ok.
                       if ok = 0
                       then throwIO Configuration (''cannot open TLS key log file '' @ quoted (cc_keylog_file config) @
                              '' for appending'') []
                       else returnIO ())
                else returnIO ()) (\<lambda>_.
        call_IO E (Ctx SSL_CTX_set_keylog_callback))))"

definition apply_common_policy :: "'e env_scheme \<Rightarrow> SecurityProfile \<Rightarrow> CommonConfig \<Rightarrow> unit io" where
  "apply_common_policy E profile config =
     bindIO (ext_int E (Ctx (SSL_CTX_set_min_proto_version kTls13Version))) (\<lambda>r.
     if r \<noteq> 1 then throw_openssl_error E Configuration ''failed to set the minimum TLS version to 1.3'' else
     bindIO (ext_int E (Ctx (SSL_CTX_set_max_proto_version kTls13Version))) (\<lambda>r.
     if r \<noteq> 1 then throw_openssl_error E Configuration ''failed to set the maximum TLS version to 1.3'' else
     bindIO (call_IO E (Ctx (SSL_CTX_set_options [''NO_SSLv3'', ''NO_TLSv1'', ''NO_TLSv1_1'', ''NO_TLSv1_2'',
              ''NO_COMPRESSION'', ''NO_RENEGOTIATION'', ''CIPHER_SERVER_PREFERENCE'']))) (\<lambda>_.
     bindIO (call_IO E (Ctx (SSL_CTX_set_mode [''AUTO_RETRY'', ''ENABLE_PARTIAL_WRITE'']))) (\<lambda>_.
     bindIO (ext_int E (Ctx (SSL_CTX_set1_groups_list (c_str (openssl_groups_list profile))))) (\<lambda>r.
     if r \<noteq> 1
     then bindIO (drain_openssl_errors E) (\<lambda>details.
            throwIO Capability (''this OpenSSL build does not support the TLS group list required by profile '' @
              quoted (profile_id profile) @ '': '' @ openssl_groups_list profile @
              ''. Refusing to continue: substituting a different group would silently weaken the requested profile.'')
              (details @ [''run '' @ quoted ''pqtls-client capabilities'' @ '' to list the groups this build offers'']))
     else
     bindIO (ext_int E (Ctx (SSL_CTX_set_ciphersuites (c_str (openssl_ciphersuites_list profile))))) (\<lambda>r.
     if r \<noteq> 1
     then throw_openssl_error E Configuration (''failed to apply the TLS 1.3 cipher suite allowlist for profile '' @
            quoted (profile_id profile) @ '': '' @ openssl_ciphersuites_list profile)
     else
     bindIO (ext_int E (Ctx (SSL_CTX_set_cipher_list ''HIGH:!aNULL:!eNULL:!EXPORT:!DES:!RC4:!MD5:!PSK:!SRP''))) (\<lambda>r.
     bindIO (if r \<noteq> 1 then drain_openssl_errors E else returnIO []) (\<lambda>_.
     bindIO (ext_int E (Ctx (SSL_CTX_set_alpn_protos kAlpnWire))) (\<lambda>r.
     if r \<noteq> 0 then throw_openssl_error E Configuration ''failed to configure ALPN''
     else install_keylog_callback E config)))))))))"

definition load_certificate_material :: "'e env_scheme \<Rightarrow> CommonConfig \<Rightarrow> bool \<Rightarrow> unit io" where
  "load_certificate_material E config require_certificate =
     (if cc_certificate_file config = '''' \<or> cc_private_key_file config = ''''
      then (if require_certificate
            then throwIO Configuration ''a server requires both --certificate and --private-key. Generate a development pair with scripts/generate-classical-certs.sh.'' []
            else returnIO ())
      else
        bindIO (ext_int E (Ctx (SSL_CTX_use_certificate_chain_file (c_str (cc_certificate_file config))))) (\<lambda>r.
        if r \<noteq> 1
        then throw_openssl_error E Certificate (''failed to load the certificate chain from '' @
               quoted (cc_certificate_file config))
        else
        bindIO (ext_int E (Ctx (SSL_CTX_use_PrivateKey_file (c_str (cc_private_key_file config))))) (\<lambda>r.
        if r \<noteq> 1
        then throw_openssl_error E Certificate (''failed to load the private key from '' @
               quoted (cc_private_key_file config))
        else
        bindIO (ext_int E (Ctx SSL_CTX_check_private_key)) (\<lambda>r.
        if r \<noteq> 1
        then throw_openssl_error E Certificate (''the private key in '' @ quoted (cc_private_key_file config) @
               '' does not match the certificate in '' @ quoted (cc_certificate_file config))
        else returnIO ()))))"

definition load_trust_store :: "'e env_scheme \<Rightarrow> CommonConfig \<Rightarrow> unit io" where
  "load_trust_store E config =
     (if cc_ca_certificate_file config \<noteq> ''''
      then bindIO (ext_int E (Ctx (SSL_CTX_load_verify_file (c_str (cc_ca_certificate_file config))))) (\<lambda>r.
             if r \<noteq> 1
             then throw_openssl_error E Certificate (''failed to load the CA trust anchor from '' @
                    quoted (cc_ca_certificate_file config))
             else returnIO ())
      else if cc_insecure_development_mode config then returnIO ()
      else bindIO (ext_int E (Ctx SSL_CTX_set_default_verify_paths)) (\<lambda>r.
             if r \<noteq> 1
             then throw_openssl_error E Certificate ''no --ca-certificate was given and the system trust store could not be loaded''
             else returnIO ()))"

text \<open>A \<open>TlsContext\<close> is its profile; its \<open>SSL_CTX\<close> is what the trace configured.\<close>

definition create_client :: "'e env_scheme \<Rightarrow> SecurityProfile \<Rightarrow> CommonConfig \<Rightarrow> SecurityProfile io" where
  "create_client E profile config =
     bindIO (initialize_openssl E) (\<lambda>_.
     bindIO (enforce_dev_policy E config) (\<lambda>_.
     bindIO (ext_int E (Ctx (SSL_CTX_new Client))) (\<lambda>ctx.
     if ctx = 0 then throw_openssl_error E Internal ''SSL_CTX_new failed for the client context'' else
     bindIO (apply_common_policy E profile config) (\<lambda>_.
     bindIO (load_trust_store E config) (\<lambda>_.
     bindIO (load_certificate_material E config False) (\<lambda>_.
     bindIO (if cc_insecure_development_mode config
             then call_IO E (Ctx (SSL_CTX_set_verify VERIFY_NONE))
             else bindIO (call_IO E (Ctx (SSL_CTX_set_verify VERIFY_PEER))) (\<lambda>_.
                    call_IO E (Ctx (SSL_CTX_set_verify_depth 8)))) (\<lambda>_.
     returnIO profile)))))))"

definition create_server ::
  "'e env_scheme \<Rightarrow> SecurityProfile \<Rightarrow> CommonConfig \<Rightarrow> bool \<Rightarrow> SecurityProfile io" where
  "create_server E profile config require_client_certificate =
     bindIO (initialize_openssl E) (\<lambda>_.
     bindIO (enforce_dev_policy E config) (\<lambda>_.
     bindIO (ext_int E (Ctx (SSL_CTX_new Server))) (\<lambda>ctx.
     if ctx = 0 then throw_openssl_error E Internal ''SSL_CTX_new failed for the server context'' else
     bindIO (apply_common_policy E profile config) (\<lambda>_.
     bindIO (load_certificate_material E config True) (\<lambda>_.
     bindIO (call_IO E (Ctx SSL_CTX_set_alpn_select_cb)) (\<lambda>_.
     bindIO (if require_client_certificate \<or> d_require_client_certificate (def_of profile)
             then
               bindIO (load_trust_store E config) (\<lambda>_.
               if cc_ca_certificate_file config = ''''
               then throwIO Configuration ''mutual TLS was requested but no --ca-certificate was given. Without a trust anchor the server cannot verify client certificates.'' []
               else
               bindIO (call_IO E (Ctx (SSL_CTX_set_verify VERIFY_PEER_FAIL_IF_NO_PEER_CERT))) (\<lambda>_.
               bindIO (call_IO E (Ctx (SSL_CTX_set_verify_depth 8))) (\<lambda>_.
               bindIO (ext_int E (Ctx (SSL_load_client_CA_file (c_str (cc_ca_certificate_file config))))) (\<lambda>ca_names.
               if ca_names \<noteq> 0 then call_IO E (Ctx SSL_CTX_set_client_CA_list)
               else bindIO (drain_openssl_errors E) (\<lambda>_. returnIO ())))))
             else call_IO E (Ctx (SSL_CTX_set_verify VERIFY_NONE))) (\<lambda>_.
     bindIO (call_IO E (Ctx SSL_CTX_set_session_cache_mode)) (\<lambda>_.
     bindIO (call_IO E (Ctx (SSL_CTX_set_num_tickets 2))) (\<lambda>_.
     returnIO profile)))))))))"

text \<open>
  The callbacks OpenSSL runs: one line for the key log, and the choice of the application protocol from
  the client's list \<open>offered\<close>, by the numbers of \<open>ssl.h\<close> and \<open>tls1.h\<close>.
\<close>

definition keylog_callback :: "'e env_scheme \<Rightarrow> string option \<Rightarrow> unit io" where
  "keylog_callback E line =
     (case line of
        None \<Rightarrow> returnIO ()
      | Some l \<Rightarrow> bindIO (ext_int E (Ctx Keylog_is_open)) (\<lambda>is_open.
          if is_open \<noteq> 0 then call_IO E (Ctx (Keylog_write (l @ [CHR 0x0A]))) else returnIO ()))"

definition alpn_select_callback :: "'e env_scheme \<Rightarrow> byte list \<Rightarrow> int io" where
  "alpn_select_callback E offered =
     bindIO (ext_int E (Ssl (SSL_select_next_proto kAlpnWire offered))) (\<lambda>r.
       returnIO (if r \<noteq> 1 then 2 else 0))"

text \<open>\<open>TlsContext::loaded_providers\<close>: the reply is the names of the providers that have one.\<close>

definition loaded_providers :: "'e env_scheme \<Rightarrow> string list io" where
  "loaded_providers E = ext_strs E (Sys Provider_names)"

definition new_ssl :: "'e env_scheme \<Rightarrow> unit io" where
  "new_ssl E = bindIO (ext_int E (Ssl SSL_new)) (\<lambda>r.
     if r = 0 then throw_openssl_error E Internal ''SSL_new failed'' else returnIO ())"

definition text_or_empty :: "string option \<Rightarrow> string" where
  "text_or_empty s = (case s of Some t \<Rightarrow> t | None \<Rightarrow> '''')"

text \<open>
  A name that is a null pointer is the number 0.  The reply of \<open>BIO_get_mem_data\<close> is the printed
  text, or nothing when there is none.
\<close>

definition subject_name_to_string :: "'e env_scheme \<Rightarrow> int \<Rightarrow> string io" where
  "subject_name_to_string E name =
     (if name = 0 then returnIO ''''
      else bindIO (ext_int E (Ssl BIO_new_mem)) (\<lambda>bio.
        if bio = 0 then returnIO ''''
        else bindIO (ext_int E (Ssl X509_NAME_print_ex)) (\<lambda>r.
          if r < 0 then returnIO ''''
          else bindIO (ext_str E (Ssl BIO_get_mem_data)) (\<lambda>data. returnIO (text_or_empty data)))))"

text \<open>
  \<open>TlsContext::inspect\<close>.  Reading the cipher and then its name, and the signature NID and then
  its name, are one call each, with no reply when either step yields nothing.
\<close>

definition inspect :: "'e env_scheme \<Rightarrow> HandshakeOutcome io" where
  "inspect E =
     bindIO (ext_str E (Ssl SSL_get_version)) (\<lambda>version.
     bindIO (ext_str E (Ssl SSL_get_current_cipher_name)) (\<lambda>cipher.
     bindIO (ext_str E (Ssl SSL_get0_group_name)) (\<lambda>group_name.
     bindIO (ext_str E (Ssl SSL_get_peer_signature_name)) (\<lambda>sig.
     bindIO (ext_int E (Ssl SSL_session_reused)) (\<lambda>reused.
     bindIO (ext_int E (Ssl SSL_get1_peer_certificate)) (\<lambda>peer.
     bindIO (if peer \<noteq> 0 then bindIO (ext_int E (Ssl X509_get_subject_name)) (subject_name_to_string E) else returnIO '''') (\<lambda>subject.
     bindIO (if peer \<noteq> 0 then bindIO (ext_int E (Ssl X509_get_issuer_name)) (subject_name_to_string E) else returnIO '''') (\<lambda>issuer.
     returnIO
       \<lparr>h_tls_version = text_or_empty version, h_negotiated_group = text_or_empty group_name,
        h_cipher_suite = text_or_empty cipher, h_peer_signature_algorithm = text_or_empty sig,
        h_peer_certificate_subject = subject,
        h_peer_certificate_issuer = issuer,
        h_session_reused = (reused = 1), h_peer_certificate_present = (peer \<noteq> 0)\<rparr>))))))))"

definition enforce_group_policy :: "SecurityProfile \<Rightarrow> HandshakeOutcome \<Rightarrow> unit result" where
  "enforce_group_policy profile outcome =
     (if permits_negotiated_group profile (h_negotiated_group outcome) then Inr ()
      else throw_sub TlsPolicy
        (''downgrade policy violation: '' @ explain_group_rejection profile (h_negotiated_group outcome))
        [''requested profile: '' @ profile_id profile,
         ''permitted groups: '' @ openssl_groups_list profile,
         ''negotiated group: '' @ (if h_negotiated_group outcome = '''' then ''<unknown>'' else h_negotiated_group outcome),
         ''the connection has been terminated and recorded as a tls-policy failure''])"

definition kX509VOk :: int where
  "kX509VOk = 0"

text \<open>The hints of \<open>describe_verify_result\<close>, by the numbers of \<open>x509_vfy.h\<close>.\<close>

definition verify_hint :: "int \<Rightarrow> string" where
  "verify_hint r =
     (if r = 20 \<or> r = 19 \<or> r = 18
      then ''. The issuing CA is not in the configured trust store: pass --ca-certificate pointing at the CA that signed the peer certificate.''
      else if r = 10 then ''. Regenerate the development certificates, or check the system clock.''
      else if r = 9 then ''. The certificate starts in the future: check the system clock on both hosts.''
      else if r = 62 then ''. The name given with --server-name is not covered by the certificate'' @ [CHR 0x27] @ ''s subjectAltName entries.''
      else '''')"

definition describe_verify_result :: "'e env_scheme \<Rightarrow> int \<Rightarrow> string io" where
  "describe_verify_result E verify_result =
     bindIO (ext_str E (Ssl (X509_verify_cert_error_string verify_result))) (\<lambda>t.
       returnIO ((case t of Some s \<Rightarrow> s | None \<Rightarrow> ''unknown verification error'') @ verify_hint verify_result))"

definition enforce_peer_verification :: "'e env_scheme \<Rightarrow> CommonConfig \<Rightarrow> bool \<Rightarrow> unit io" where
  "enforce_peer_verification E config require_peer_certificate =
     (if cc_insecure_development_mode config then returnIO ()
      else
        bindIO (ext_int E (Ssl SSL_get_verify_result)) (\<lambda>verify_result.
        if verify_result \<noteq> kX509VOk
        then bindIO (describe_verify_result E verify_result) (\<lambda>text.
               throwIO Certificate (''peer certificate verification failed: '' @ text)
                 [''X509_verify_cert code '' @ dec_int verify_result])
        else
        bindIO (ext_int E (Ssl SSL_get1_peer_certificate)) (\<lambda>peer.
        if peer = 0 \<and> require_peer_certificate
        then throwIO Certificate ''the peer presented no certificate. An unauthenticated peer cannot be distinguished from an active man-in-the-middle, so the connection is refused.'' []
        else returnIO ())))"

section \<open>The policy a context is given\<close>

text \<open>The setters that decide versions, groups, suites and peer verification.\<close>

fun policy_call :: "call \<Rightarrow> bool" where
  "policy_call (Ctx (SSL_CTX_set_min_proto_version v)) = True"
| "policy_call (Ctx (SSL_CTX_set_max_proto_version v)) = True"
| "policy_call (Ctx (SSL_CTX_set1_groups_list s)) = True"
| "policy_call (Ctx (SSL_CTX_set_ciphersuites s)) = True"
| "policy_call (Ctx (SSL_CTX_set_verify m)) = True"
| "policy_call _ = False"

definition policy_events :: "trace \<Rightarrow> trace" where
  "policy_events es = filter (\<lambda>e. policy_call (ev_call e)) es"

lemma policy_events_simps [simp]:
  "policy_events [] = []" "policy_events (xs @ ys) = policy_events xs @ policy_events ys"
  "policy_events (e # es) = (if policy_call (ev_call e) then [e] else []) @ policy_events es"
  by (simp_all add: policy_events_def)

text \<open>\<open>emits m L\<close>: a normal return of \<open>m\<close> appends calls whose policy part is \<open>L\<close>.\<close>

definition emits :: "'a io \<Rightarrow> trace \<Rightarrow> bool" where
  "emits m L \<longleftrightarrow> (\<forall>tr x tr'. m tr = (Inr x, tr') \<longrightarrow> (\<exists>es. tr' = tr @ es \<and> policy_events es = L))"

lemma emitsD: "emits m L \<Longrightarrow> m tr = (Inr x, tr') \<Longrightarrow> \<exists>es. tr' = tr @ es \<and> policy_events es = L"
  by (simp add: emits_def)

lemma emits_quiet: "only_calls (\<lambda>c. \<not> policy_call c) m \<Longrightarrow> emits m []"
  unfolding emits_def policy_events_def by (metis (mono_tags, lifting) filter_False only_callsD)

lemma quiet_parts:
  "only_calls (\<lambda>c. \<not> policy_call c) (install_keylog_callback E cfg)"
  "only_calls (\<lambda>c. \<not> policy_call c) (load_certificate_material E cfg b)"
  "only_calls (\<lambda>c. \<not> policy_call c) (load_trust_store E cfg)"
  "only_calls (\<lambda>c. \<not> policy_call c) (enforce_dev_policy E cfg)"
  unfolding install_keylog_callback_def load_certificate_material_def load_trust_store_def enforce_dev_policy_def
  by (intro calls_intros; simp)+

lemma quiet_initialize: "only_calls (\<lambda>c. \<not> policy_call c) (initialize_openssl E)"
proof -
  have "only_calls (\<lambda>c. \<not> policy_call c) (bindIO (ext_int E (Ctx OPENSSL_init_ssl)) (\<lambda>r.
     if r \<noteq> 1 then throw_openssl_error E Internal ''OpenSSL initialisation failed'' else returnIO ()))"
    by (intro calls_intros; simp)
  then show ?thesis unfolding only_calls_def initialize_openssl_def by (simp add: returnIO_def)
qed

definition pinned :: "SecurityProfile \<Rightarrow> trace" where
  "pinned p = [Ev (Ctx (SSL_CTX_set_min_proto_version kTls13Version)) (RInt 1),
     Ev (Ctx (SSL_CTX_set_max_proto_version kTls13Version)) (RInt 1),
     Ev (Ctx (SSL_CTX_set1_groups_list (c_str (openssl_groups_list p)))) (RInt 1),
     Ev (Ctx (SSL_CTX_set_ciphersuites (c_str (openssl_ciphersuites_list p)))) (RInt 1)]"

lemma emits_bind:
  assumes "emits m L" and "\<And>x. emits (f x) M"
  shows "emits (bindIO m f) (L @ M)"
  unfolding emits_def
proof (intro allI impI)
  fix tr y tr''
  assume "bindIO m f tr = (Inr y, tr'')"
  then obtain x tr' where r: "m tr = (Inr x, tr')" "f x tr' = (Inr y, tr'')" by (auto simp: bindIO_eq_Inr)
  obtain es where "tr' = tr @ es" "policy_events es = L" using emitsD [OF assms(1) r(1)] by blast
  moreover obtain fs where "tr'' = tr' @ fs" "policy_events fs = M" using emitsD [OF assms(2) r(2)] by blast
  ultimately show "\<exists>es. tr'' = tr @ es \<and> policy_events es = L @ M" by (intro exI [of _ "es @ fs"]) simp
qed

lemma emits_bind_quiet:
  "only_calls (\<lambda>c. \<not> policy_call c) m \<Longrightarrow> (\<And>x. emits (f x) M) \<Longrightarrow> emits (bindIO m f) M"
  using emits_bind [OF emits_quiet, of m f M] by simp

lemma emits_never: "(\<And>tr x tr'. m tr \<noteq> (Inr x, tr')) \<Longrightarrow> emits m L"
  by (simp add: emits_def)

lemma emits_throw: "emits (throwIO c msg ds) L" "emits (throw_openssl_error E c msg) L"
  by (rule emits_never, simp add: io_simps)+

lemma emits_drain_throw: "emits (bindIO (drain_openssl_errors E) (\<lambda>d. throwIO c msg (ds d))) L"
  by (rule emits_never) (simp add: io_simps)

lemma emits_if: "emits f L \<Longrightarrow> emits g L \<Longrightarrow> emits (if c then f else g) L"
  by simp

text \<open>A policy setter whose reply must be 1.\<close>

lemma emits_check:
  assumes "policy_call c" and "\<And>L. emits T L" and "emits f M"
  shows "emits (bindIO (ext_int E c) (\<lambda>r. if r \<noteq> 1 then T else f)) (Ev c (RInt 1) # M)"
  unfolding emits_def
proof (intro allI impI)
  fix tr y tr''
  assume b: "bindIO (ext_int E c) (\<lambda>r. if r \<noteq> 1 then T else f) tr = (Inr y, tr'')"
  define r tr' where "r = e_int E tr c" and "tr' = tr @ [Ev c (RInt r)]"
  have never: "T tr' \<noteq> (Inr y, tr'')"
    using assms(2) [of "[]"] assms(2) [of "[Ev c (RInt 1)]"] unfolding emits_def by (metis append_same_eq list.distinct(1) same_append_eq)
  have "(if r \<noteq> 1 then T else f) tr' = (Inr y, tr'')"
    using b by (simp add: bindIO_def ext_int_def r_def tr'_def)
  with never have "r = 1" "f tr' = (Inr y, tr'')" by (auto split: if_splits)
  with emitsD [OF assms(3)] obtain es where "tr'' = tr' @ es" "policy_events es = M" by blast
  then show "\<exists>es. tr'' = tr @ es \<and> policy_events es = Ev c (RInt 1) # M"
    using assms(1) \<open>r = 1\<close> by (intro exI [of _ "Ev c (RInt 1) # es"]) (simp add: tr'_def)
qed

lemma emits_apply_common_policy: "emits (apply_common_policy E p cfg) (pinned p)"
  unfolding apply_common_policy_def pinned_def
  apply (rule emits_check, simp, rule emits_throw)
  apply (rule emits_check, simp, rule emits_throw)
  apply (rule emits_bind_quiet, intro calls_intros, simp)
  apply (rule emits_bind_quiet, intro calls_intros, simp)
  apply (rule emits_check, simp, rule emits_drain_throw)
  apply (rule emits_check, simp, rule emits_throw)
  apply (rule emits_bind_quiet, intro calls_intros, simp)
  apply (rule emits_bind_quiet, intro calls_intros, simp, simp)
  apply (rule emits_bind_quiet, intro calls_intros, simp)
  apply (rule emits_if, rule emits_throw, rule emits_quiet, rule quiet_parts)
  done

lemma emits_call: "policy_call c \<Longrightarrow> emits (call_IO E c) [Ev c RVoid]"
  unfolding emits_def by (auto simp: io_simps)

lemma emits_return: "emits (returnIO x) []"
  by (rule emits_quiet) (intro calls_intros)

definition client_mode :: "CommonConfig \<Rightarrow> verify_mode" where
  "client_mode cfg = (if cc_insecure_development_mode cfg then VERIFY_NONE else VERIFY_PEER)"

definition server_mode :: "SecurityProfile \<Rightarrow> bool \<Rightarrow> verify_mode" where
  "server_mode p require = (if require \<or> d_require_client_certificate (def_of p)
     then VERIFY_PEER_FAIL_IF_NO_PEER_CERT else VERIFY_NONE)"

lemma emits_client_verify:
  "emits (if cc_insecure_development_mode cfg
          then call_IO E (Ctx (SSL_CTX_set_verify VERIFY_NONE))
          else bindIO (call_IO E (Ctx (SSL_CTX_set_verify VERIFY_PEER))) (\<lambda>_.
                 call_IO E (Ctx (SSL_CTX_set_verify_depth 8))))
     [Ev (Ctx (SSL_CTX_set_verify (client_mode cfg))) RVoid]"
proof (cases "cc_insecure_development_mode cfg")
  case True
  then show ?thesis by (simp add: client_mode_def emits_call)
next
  case False
  have "emits (bindIO (call_IO E (Ctx (SSL_CTX_set_verify VERIFY_PEER))) (\<lambda>_. call_IO E (Ctx (SSL_CTX_set_verify_depth 8))))
     ([Ev (Ctx (SSL_CTX_set_verify VERIFY_PEER)) RVoid] @ [])"
    by (rule emits_bind, rule emits_call, simp, rule emits_quiet, intro calls_intros, simp)
  with False show ?thesis by (simp add: client_mode_def)
qed

lemma emits_create_client:
  "emits (create_client E p cfg) (pinned p @ [Ev (Ctx (SSL_CTX_set_verify (client_mode cfg))) RVoid])"
  unfolding create_client_def
proof (rule emits_bind_quiet [OF quiet_initialize], rule emits_bind_quiet [OF quiet_parts(4)],
    rule emits_bind_quiet, (intro calls_intros, simp), rule emits_if, rule emits_throw, rule emits_bind,
    rule emits_apply_common_policy, rule emits_bind_quiet [OF quiet_parts(3)],
    rule emits_bind_quiet [OF quiet_parts(2)])
  have "emits (bindIO (if cc_insecure_development_mode cfg
          then call_IO E (Ctx (SSL_CTX_set_verify VERIFY_NONE))
          else bindIO (call_IO E (Ctx (SSL_CTX_set_verify VERIFY_PEER))) (\<lambda>_.
                 call_IO E (Ctx (SSL_CTX_set_verify_depth 8)))) (\<lambda>_. returnIO p))
     ([Ev (Ctx (SSL_CTX_set_verify (client_mode cfg))) RVoid] @ [])"
    by (rule emits_bind [OF emits_client_verify emits_return])
  then show "emits (bindIO (if cc_insecure_development_mode cfg
          then call_IO E (Ctx (SSL_CTX_set_verify VERIFY_NONE))
          else bindIO (call_IO E (Ctx (SSL_CTX_set_verify VERIFY_PEER))) (\<lambda>_.
                 call_IO E (Ctx (SSL_CTX_set_verify_depth 8)))) (\<lambda>_. returnIO p))
     [Ev (Ctx (SSL_CTX_set_verify (client_mode cfg))) RVoid]"
    by simp
qed

definition server_verify :: "'e env_scheme \<Rightarrow> SecurityProfile \<Rightarrow> CommonConfig \<Rightarrow> bool \<Rightarrow> unit io" where
  "server_verify E profile config require =
     (if require \<or> d_require_client_certificate (def_of profile)
             then
               bindIO (load_trust_store E config) (\<lambda>_.
               if cc_ca_certificate_file config = ''''
               then throwIO Configuration ''mutual TLS was requested but no --ca-certificate was given. Without a trust anchor the server cannot verify client certificates.'' []
               else
               bindIO (call_IO E (Ctx (SSL_CTX_set_verify VERIFY_PEER_FAIL_IF_NO_PEER_CERT))) (\<lambda>_.
               bindIO (call_IO E (Ctx (SSL_CTX_set_verify_depth 8))) (\<lambda>_.
               bindIO (ext_int E (Ctx (SSL_load_client_CA_file (c_str (cc_ca_certificate_file config))))) (\<lambda>ca_names.
               if ca_names \<noteq> 0 then call_IO E (Ctx SSL_CTX_set_client_CA_list)
               else bindIO (drain_openssl_errors E) (\<lambda>_. returnIO ())))))
             else call_IO E (Ctx (SSL_CTX_set_verify VERIFY_NONE)))"

lemma emits_server_verify:
  "emits (server_verify E p cfg req) [Ev (Ctx (SSL_CTX_set_verify (server_mode p req))) RVoid]"
proof (cases "req \<or> d_require_client_certificate (def_of p)")
  case False
  then show ?thesis by (simp add: server_verify_def server_mode_def emits_call)
next
  case True
  define rest where "rest = bindIO (call_IO E (Ctx (SSL_CTX_set_verify_depth 8))) (\<lambda>_.
               bindIO (ext_int E (Ctx (SSL_load_client_CA_file (c_str (cc_ca_certificate_file cfg))))) (\<lambda>ca_names.
               if ca_names \<noteq> 0 then call_IO E (Ctx SSL_CTX_set_client_CA_list)
               else bindIO (drain_openssl_errors E) (\<lambda>_. returnIO ())))"
  have "only_calls (\<lambda>c. \<not> policy_call c) rest"
    unfolding rest_def by (intro calls_intros; simp)
  from emits_bind [OF emits_call emits_quiet [OF this], of "Ctx (SSL_CTX_set_verify VERIFY_PEER_FAIL_IF_NO_PEER_CERT)" E]
  have "emits (bindIO (call_IO E (Ctx (SSL_CTX_set_verify VERIFY_PEER_FAIL_IF_NO_PEER_CERT))) (\<lambda>_. rest))
     [Ev (Ctx (SSL_CTX_set_verify VERIFY_PEER_FAIL_IF_NO_PEER_CERT)) RVoid]" by simp
  then show ?thesis using True unfolding server_verify_def server_mode_def rest_def
    by (simp add: emits_bind_quiet [OF quiet_parts(3)] emits_throw)
qed

lemma create_server_eq:
  "create_server E p cfg req =
     bindIO (initialize_openssl E) (\<lambda>_.
     bindIO (enforce_dev_policy E cfg) (\<lambda>_.
     bindIO (ext_int E (Ctx (SSL_CTX_new Server))) (\<lambda>ctx.
     if ctx = 0 then throw_openssl_error E Internal ''SSL_CTX_new failed for the server context'' else
     bindIO (apply_common_policy E p cfg) (\<lambda>_.
     bindIO (load_certificate_material E cfg True) (\<lambda>_.
     bindIO (call_IO E (Ctx SSL_CTX_set_alpn_select_cb)) (\<lambda>_.
     bindIO (server_verify E p cfg req) (\<lambda>_.
     bindIO (call_IO E (Ctx SSL_CTX_set_session_cache_mode)) (\<lambda>_.
     bindIO (call_IO E (Ctx (SSL_CTX_set_num_tickets 2))) (\<lambda>_.
     returnIO p)))))))))"
  unfolding create_server_def server_verify_def by (rule refl)

lemma emits_create_server:
  "emits (create_server E p cfg req) (pinned p @ [Ev (Ctx (SSL_CTX_set_verify (server_mode p req))) RVoid])"
proof -
  have tail: "emits (bindIO (call_IO E (Ctx SSL_CTX_set_session_cache_mode)) (\<lambda>_.
     bindIO (call_IO E (Ctx (SSL_CTX_set_num_tickets 2))) (\<lambda>_. returnIO p))) []"
    by (rule emits_quiet) (intro calls_intros; simp)
  from emits_bind [OF emits_server_verify this, of E p cfg req]
  have "emits (bindIO (server_verify E p cfg req) (\<lambda>_. bindIO (call_IO E (Ctx SSL_CTX_set_session_cache_mode)) (\<lambda>_.
     bindIO (call_IO E (Ctx (SSL_CTX_set_num_tickets 2))) (\<lambda>_. returnIO p))))
     [Ev (Ctx (SSL_CTX_set_verify (server_mode p req))) RVoid]" by simp
  then show ?thesis unfolding create_server_eq
    by (intro emits_bind_quiet [OF quiet_initialize] emits_bind_quiet [OF quiet_parts(4)]
        emits_bind_quiet [OF only_calls_ext(1)] emits_if emits_throw emits_bind [OF emits_apply_common_policy]
        emits_bind_quiet [OF quiet_parts(2)] emits_bind_quiet [OF only_calls_call_IO]) simp_all
qed

lemma create_profile:
  "create_client E p cfg tr = (Inr q, tr') \<Longrightarrow> q = p \<and> dev_options_ok (e_getenv E) cfg"
  "create_server E p cfg req tr = (Inr q, tr') \<Longrightarrow> q = p \<and> dev_options_ok (e_getenv E) cfg"
  unfolding create_client_def create_server_eq enforce_dev_policy_def bindIO_eq_Inr liftE_eq
  by (auto simp: enforce_insecure_mode_policy_eq io_simps if_io_eq eq_commute [of "Inr _"] split: if_splits)

section \<open>Properties\<close>

text \<open>
  C12.  A client context enforces its profile: when \<open>create_client\<close> returns, the calls it made
  that set versions, groups, suites or verification are exactly these, in this order: both version
  bounds pinned to TLS 1.3, the group list of the profile and nothing else, its cipher suites, all
  accepted by the library, and peer verification on unless the insecure development mode is set; and
  in a production environment neither that mode nor key logging was configured.
\<close>

theorem create_client_policy:
  assumes "create_client E p cfg tr = (Inr ctx, tr')"
  shows "ctx = p \<and> dev_options_ok (e_getenv E) cfg \<and>
    (\<exists>es. tr' = tr @ es \<and> policy_events es =
       pinned p @ [Ev (Ctx (SSL_CTX_set_verify (if cc_insecure_development_mode cfg then VERIFY_NONE else VERIFY_PEER))) RVoid])"
  using emitsD [OF emits_create_client assms] create_profile(1) [OF assms] by (simp add: client_mode_def)

text \<open>An environment in which every call succeeds.\<close>

definition good_env :: env where
  "good_env = \<lparr>e_int = (\<lambda>tr c. if c = Ctx (SSL_CTX_set_alpn_protos kAlpnWire) then 0 else 1),
     e_str = (\<lambda>_ _. None), e_strs = (\<lambda>_ _. []), e_bytes = (\<lambda>_ _. []), e_ints = (\<lambda>_ _. []),
     e_getenv = (\<lambda>_. None)\<rparr>"

definition hybrid_profile :: SecurityProfile where
  "hybrid_profile = mk_SecurityProfile (with_defaults hybrid_definition)"

lemma good_client: "fst (create_client good_env hybrid_profile CommonConfig_default []) = Inr hybrid_profile"
  by code_simp

theorem create_client_policy_witness:
  "\<exists>es. snd (create_client good_env hybrid_profile CommonConfig_default []) = es \<and> policy_events es =
     pinned hybrid_profile @ [Ev (Ctx (SSL_CTX_set_verify VERIFY_PEER)) RVoid]"
proof -
  have "create_client good_env hybrid_profile CommonConfig_default [] =
      (Inr hybrid_profile, snd (create_client good_env hybrid_profile CommonConfig_default []))"
    using good_client by (metis prod.collapse)
  from create_client_policy [OF this] show ?thesis by (auto simp: CommonConfig_default_def)
qed


definition mtls_config :: CommonConfig where
  "mtls_config = CommonConfig_default\<lparr>cc_certificate_file := ''c.pem'', cc_private_key_file := ''k.pem'',
     cc_ca_certificate_file := ''ca.pem''\<rparr>"

lemma good_server: "fst (create_server good_env hybrid_profile mtls_config True []) = Inr hybrid_profile"
  by code_simp


text \<open>
  The downgrade check: after a handshake \<open>enforce_group_policy\<close> passes if the negotiated
  group is one the profile permits, and otherwise throws \<open>TlsPolicyError\<close>; an undetermined group
  never passes.
\<close>

theorem enforce_group_policy_exact:
  "(if permits_negotiated_group p (h_negotiated_group out) then enforce_group_policy p out = Inr ()
    else throws TlsPolicy (enforce_group_policy p out)) \<and>
   throws TlsPolicy (enforce_group_policy p (out\<lparr>h_negotiated_group := ''''\<rparr>))"
  by (simp add: enforce_group_policy_def permits_negotiated_group_def)

end
