(* ===== verification/Metrics.thy ===== *)
theory Metrics
  imports Message
begin

text \<open>
  Connection metrics: \<open>include/pqtls/metrics.hpp\<close> and \<open>src/common/metrics.cpp\<close>.
  Durations, \<open>double\<close> milliseconds in the code, are kept as the nanoseconds the monotonic clock
  counted; they are never read again by the program.  The file stream of the writer is the parameter
  behind the calls \<open>Metrics_is_open\<close> and \<open>Metrics_write\<close>.
\<close>

definition kMetricsSchemaVersion :: int where
  "kMetricsSchemaVersion = 1"

record ConnectionMetrics =
  cm_schema_version :: int
  cm_experiment_id :: string
  cm_connection_id :: string
  cm_role :: Role
  cm_requested_profile :: string
  cm_negotiated_profile :: string
  cm_tls_version :: string
  cm_negotiated_group :: string
  cm_cipher_suite :: string
  cm_authentication :: string
  cm_handshake_ns :: int
  cm_connection_ns :: int
  cm_application_bytes_sent :: u64
  cm_application_bytes_received :: u64
  cm_transport_bytes_sent :: "u64 option"
  cm_transport_bytes_received :: "u64 option"
  cm_session_reused :: bool
  cm_success :: bool
  cm_error_category :: ErrorCategory
  cm_error_message :: "string option"
  cm_peer_address :: string
  cm_protocol_message_count :: u32
  cm_process_cpu_user_ns :: "int option"
  cm_process_cpu_system_ns :: "int option"
  cm_peak_memory_kib :: "u64 option"
  cm_timestamp :: string
  cm_pq_key_establishment :: bool
  cm_hybrid_key_establishment :: bool
  cm_pq_authentication :: bool

definition ConnectionMetrics_default :: ConnectionMetrics where
  "ConnectionMetrics_default =
     \<lparr>cm_schema_version = kMetricsSchemaVersion, cm_experiment_id = '''', cm_connection_id = '''',
      cm_role = Client, cm_requested_profile = '''', cm_negotiated_profile = '''',
      cm_tls_version = '''', cm_negotiated_group = '''', cm_cipher_suite = '''', cm_authentication = '''',
      cm_handshake_ns = 0, cm_connection_ns = 0, cm_application_bytes_sent = 0,
      cm_application_bytes_received = 0, cm_transport_bytes_sent = None,
      cm_transport_bytes_received = None, cm_session_reused = False, cm_success = False,
      cm_error_category = None_category, cm_error_message = None, cm_peer_address = '''',
      cm_protocol_message_count = 0, cm_process_cpu_user_ns = None, cm_process_cpu_system_ns = None,
      cm_peak_memory_kib = None, cm_timestamp = '''', cm_pq_key_establishment = False,
      cm_hybrid_key_establishment = False, cm_pq_authentication = False\<rparr>"

text \<open>\<open>value.has_value() ? json(*value) : json()\<close>.\<close>

definition json_or_null :: "('j, 'z) json_api_scheme \<Rightarrow> ('a \<Rightarrow> 'j) \<Rightarrow> 'a option \<Rightarrow> 'j" where
  "json_or_null J f v = (case v of Some x \<Rightarrow> f x | None \<Rightarrow> j_null J)"

text \<open>The fields of a record, in the order \<open>to_json\<close> assigns them.\<close>

definition metrics_fields :: "('j, 'z) json_api_scheme \<Rightarrow> ConnectionMetrics \<Rightarrow> (string \<times> 'j) list" where
  "metrics_fields J m =
     [(''schema_version'', j_of_int J (cm_schema_version m)),
      (''experiment_id'', j_of_string J (cm_experiment_id m)),
      (''connection_id'', j_of_string J (cm_connection_id m)),
      (''role'', j_of_string J (to_string_Role (cm_role m))),
      (''requested_profile'', j_of_string J (cm_requested_profile m)),
      (''negotiated_profile'', j_of_string J (cm_negotiated_profile m)),
      (''tls_version'', j_of_string J (cm_tls_version m)),
      (''negotiated_group'', j_of_string J (cm_negotiated_group m)),
      (''cipher_suite'', j_of_string J (cm_cipher_suite m)),
      (''authentication'', j_of_string J (cm_authentication m)),
      (''handshake_ms'', j_of_ms J (cm_handshake_ns m)),
      (''connection_ms'', j_of_ms J (cm_connection_ns m)),
      (''application_bytes_sent'', j_of_int J (uint (cm_application_bytes_sent m))),
      (''application_bytes_received'', j_of_int J (uint (cm_application_bytes_received m))),
      (''transport_bytes_sent'', json_or_null J (\<lambda>x. j_of_int J (uint x)) (cm_transport_bytes_sent m)),
      (''transport_bytes_received'', json_or_null J (\<lambda>x. j_of_int J (uint x)) (cm_transport_bytes_received m)),
      (''session_reused'', j_of_bool J (cm_session_reused m)),
      (''success'', j_of_bool J (cm_success m)),
      (''error_category'', if cm_error_category m = None_category then j_null J
          else j_of_string J (to_string_ErrorCategory (cm_error_category m))),
      (''error_message'', json_or_null J (j_of_string J) (cm_error_message m)),
      (''peer_address'', j_of_string J (cm_peer_address m)),
      (''protocol_message_count'', j_of_int J (uint (cm_protocol_message_count m))),
      (''process_cpu_user_ms'', json_or_null J (j_of_ms J) (cm_process_cpu_user_ns m)),
      (''process_cpu_system_ms'', json_or_null J (j_of_ms J) (cm_process_cpu_system_ns m)),
      (''peak_memory_kib'', json_or_null J (\<lambda>x. j_of_int J (uint x)) (cm_peak_memory_kib m)),
      (''timestamp'', j_of_string J (cm_timestamp m)),
      (''pq_key_establishment'', j_of_bool J (cm_pq_key_establishment m)),
      (''hybrid_key_establishment'', j_of_bool J (cm_hybrid_key_establishment m)),
      (''pq_authentication'', j_of_bool J (cm_pq_authentication m))]"

definition metrics_to_json :: "('j, 'z) json_api_scheme \<Rightarrow> ConnectionMetrics \<Rightarrow> 'j" where
  "metrics_to_json J m = fold (\<lambda>(k, v) doc. j_set J doc k v) (metrics_fields J m) (j_null J)"

definition to_jsonl_line :: "('j, 'z) json_api_scheme \<Rightarrow> ConnectionMetrics \<Rightarrow> string result" where
  "to_jsonl_line J m = (case j_dump J (metrics_to_json J m) of Inl w \<Rightarrow> Inl (Std w) | Inr s \<Rightarrow> Inr s)"

text \<open>
  The constructor of \<open>MetricsWriter\<close>.  \<open>parent_path\<close> is that of
  \<open>std::filesystem::path\<close> on POSIX; the reply of \<open>Create_directories\<close> is the error
  message, if there was an error.
\<close>

definition parent_path :: "string \<Rightarrow> string" where
  "parent_path path =
     (if CHR ''/'' \<notin> set path then ''''
      else
        let parent = rev (dropWhile (\<lambda>c. c = CHR ''/'') (dropWhile (\<lambda>c. c \<noteq> CHR ''/'') (rev path))) in
        if parent = '''' then ''/'' else parent)"

definition MetricsWriter :: "'e env_scheme \<Rightarrow> string \<Rightarrow> unit io" where
  "MetricsWriter E path =
     (if path = '''' then returnIO ()
      else
        bindIO (if parent_path path \<noteq> ''''
                then bindIO (ext_str E (Sys (Create_directories (parent_path path)))) (\<lambda>ec.
                       case ec of
                         Some message \<Rightarrow> throwIO Configuration (''cannot create the directory for the metrics file '' @
                           quoted path @ '': '' @ message) []
                       | None \<Rightarrow> returnIO ())
                else returnIO ()) (\<lambda>_.
        bindIO (call_IO E (Sys (Metrics_open path))) (\<lambda>_.
        bindIO (ext_int E (Sys Metrics_is_open)) (\<lambda>is_open.
        if is_open = 0 then throwIO Configuration (''cannot open the metrics file '' @ quoted path @ '' for appending'') []
        else returnIO ()))))"

text \<open>\<open>enabled\<close>, \<open>flush\<close>, the destructor and \<open>write\<close> of \<open>MetricsWriter\<close>.\<close>

definition metrics_enabled :: "'e env_scheme \<Rightarrow> bool io" where
  "metrics_enabled E = bindIO (ext_int E (Sys Metrics_is_open)) (\<lambda>r. returnIO (r \<noteq> 0))"

definition metrics_flush :: "'e env_scheme \<Rightarrow> unit io" where
  "metrics_flush E = bindIO (metrics_enabled E) (\<lambda>is_open. if is_open then call_IO E (Sys Metrics_flush) else returnIO ())"

definition metrics_close :: "'e env_scheme \<Rightarrow> unit io" where
  "metrics_close E = bindIO (metrics_enabled E) (\<lambda>is_open.
     if is_open then bindIO (call_IO E (Sys Metrics_flush)) (\<lambda>_. call_IO E (Sys Metrics_close)) else returnIO ())"

definition metrics_write :: "('j, 'z) json_api_scheme \<Rightarrow> 'e env_scheme \<Rightarrow> ConnectionMetrics \<Rightarrow> unit io" where
  "metrics_write J E m =
     bindIO (metrics_enabled E) (\<lambda>is_open.
     if \<not> is_open then returnIO ()
     else bindIO (liftE (to_jsonl_line J m)) (\<lambda>line. call_IO E (Sys (Metrics_write (line @ [CHR 0x0A])))))"

text \<open>\<open>if (metrics_writer_ && metrics_writer_->enabled()) metrics_writer_->write(metrics)\<close>.\<close>

definition record_metrics ::
  "('j, 'z) json_api_scheme \<Rightarrow> 'e env_scheme \<Rightarrow> bool \<Rightarrow> ConnectionMetrics \<Rightarrow> unit io" where
  "record_metrics J E has_writer m =
     (if has_writer
      then bindIO (metrics_enabled E) (\<lambda>enabled. if enabled then metrics_write J E m else returnIO ())
      else returnIO ())"

text \<open>
  \<open>Stopwatch\<close>: the start point, and the time elapsed since it.
\<close>

definition stopwatch_start :: "'e env_scheme \<Rightarrow> int io" where
  "stopwatch_start E = ext_int E (Sys Steady_clock_now)"

definition elapsed_ns :: "'e env_scheme \<Rightarrow> int \<Rightarrow> int io" where
  "elapsed_ns E start = bindIO (ext_int E (Sys Steady_clock_now)) (\<lambda>now. returnIO (now - start))"

text \<open>
  \<open>ResourceUsage::sample\<close> on Linux, stored in the metrics: the reply of \<open>getrusage\<close> is user
  and system time in nanoseconds and the peak resident size, or nothing when it failed.
\<close>

definition sample_usage :: "'e env_scheme \<Rightarrow> ConnectionMetrics \<Rightarrow> ConnectionMetrics io" where
  "sample_usage E m =
     bindIO (ext_ints E (Sys Getrusage)) (\<lambda>r. returnIO
       (case r of
          [user, system, rss] \<Rightarrow> m\<lparr>cm_process_cpu_user_ns := Some user, cm_process_cpu_system_ns := Some system,
            cm_peak_memory_kib := Some (word_of_int rss)\<rparr>
        | _ \<Rightarrow> m\<lparr>cm_process_cpu_user_ns := None, cm_process_cpu_system_ns := None, cm_peak_memory_kib := None\<rparr>))"

section \<open>The record on disk\<close>

lemma metrics_fields_distinct: "distinct (map fst (metrics_fields J m))"
  by (simp add: metrics_fields_def)

lemma fold_set_find:
  assumes "json_laws J" and "container J d" and "distinct (map fst fs)"
  shows "j_find J (fold (\<lambda>(k, v) doc. j_set J doc k v) fs d) = j_find J d ++ map_of fs"
  using assms(2,3)
proof (induction fs arbitrary: d)
  case Nil
  then show ?case by simp
next
  case (Cons f fs)
  obtain k v where f: "f = (k, v)" by (cases f)
  have "k \<notin> dom (map_of fs)" using Cons.prems(2) f by (simp add: dom_map_of_conv_image_fst)
  then have upd: "(j_find J d)(k \<mapsto> v) ++ map_of fs = j_find J d ++ map_of (f # fs)"
    by (auto simp: f fun_eq_iff map_add_def split: option.splits)
  have "j_find J (fold (\<lambda>(k, v) doc. j_set J doc k v) fs (j_set J d k v)) =
      j_find J (j_set J d k v) ++ map_of fs"
    using Cons.IH [OF law_set(1) [OF assms(1) Cons.prems(1)]] Cons.prems(2) f by simp
  then show ?case unfolding law_set(3) [OF assms(1) Cons.prems(1)] upd by (simp only: f fold_simps prod.case)
qed

section \<open>Properties\<close>

text \<open>
  A metrics record has exactly the 29 fields of the schema, each with the value of its member: in
  particular \<open>error_category\<close> is null for a connection without an error and its name otherwise,
  unmeasured values are null rather than zero, and post-quantum key establishment, hybrid key
  establishment and post-quantum authentication stay three separate flags.
\<close>

theorem metrics_record_schema:
  assumes "json_laws J"
  shows "j_find J (metrics_to_json J m) = map_of (metrics_fields J m) \<and>
    length (metrics_fields J m) = 29 \<and> distinct (map fst (metrics_fields J m))"
proof (intro conjI metrics_fields_distinct)
  show "j_find J (metrics_to_json J m) = map_of (metrics_fields J m)"
    unfolding metrics_to_json_def fold_set_find [OF assms law_scalars(1) [OF assms] metrics_fields_distinct]
      law_scalars(2) [OF assms] by (rule empty_map_add)
  show "length (metrics_fields J m) = 29" by (simp add: metrics_fields_def)
qed

theorem metrics_record_schema_witness:
  "j_find (json_reference []) (metrics_to_json (json_reference []) ConnectionMetrics_default) =
     map_of (metrics_fields (json_reference []) ConnectionMetrics_default)"
  using metrics_record_schema [OF json_reference_laws, of "[]" ConnectionMetrics_default] by blast

end
