(* ===== verification/Session.thy ===== *)
theory Session
  imports TlsContext Metrics
begin

text \<open>
  What the client's and the server's handling of one connection have in common: application data is
  exchanged only once the handshake has been inspected and the policy has been enforced.  The locale
  \<open>gated_session\<close> states what the two phases of a connection owe each other; the client and the
  server are its instances.
\<close>

section \<open>Plain calls\<close>

text \<open>Calls that carry no application data, open or close no descriptor and write no metrics record.\<close>

fun plain :: "call \<Rightarrow> bool" where
  "plain (SSL_write b) = False"
| "plain (SSL_read n) = False"
| "plain (Sys (Socket f)) = False"
| "plain (Sys (Close fd)) = False"
| "plain (Sys (Metrics_write s)) = False"
| "plain _ = True"

lemma plain_quiet: "plain c \<Longrightarrow> \<not> app_data c"
  by (cases c rule: plain.cases) simp_all

lemma plain_keeps_fds: "plain c \<Longrightarrow> keeps_fds c"
  by (cases c rule: plain.cases) simp_all

fun metrics_call :: "call \<Rightarrow> bool" where
  "metrics_call (Sys (Metrics_write s)) = True"
| "metrics_call _ = False"

lemma plain_no_metrics: "plain c \<Longrightarrow> \<not> metrics_call c"
  by (cases c rule: plain.cases) simp_all

text \<open>Calls of a connection before its application phase: descriptors may be opened and closed.\<close>

definition quiet :: "call \<Rightarrow> bool" where
  "quiet c \<longleftrightarrow> \<not> app_data c \<and> \<not> metrics_call c"

lemma quiet_simps [simp]: "plain c \<Longrightarrow> quiet c" "quiet (Sys (Socket f))" "quiet (Sys (Close fd))"
  by (simp_all add: quiet_def plain_quiet plain_no_metrics)

text \<open>The metrics records an event, or a trace, wrote.\<close>

fun record_of :: "event \<Rightarrow> string list" where
  "record_of (Ev (Sys (Metrics_write s)) r) = [s]"
| "record_of _ = []"

definition records :: "trace \<Rightarrow> string list" where
  "records es = concat (map record_of es)"

lemma records_simps [simp]:
  "records [] = []" "records (e # es) = record_of e @ records es" "records (xs @ ys) = records xs @ records ys"
  by (simp_all add: records_def)

lemma no_records: "\<forall>e \<in> set es. \<not> metrics_call (ev_call e) \<Longrightarrow> records es = []"
proof (induction es)
  case (Cons e es)
  then show ?case by (cases e rule: record_of.cases) auto
qed simp

lemma plain_socket_setup:
  "only_calls plain (set_timeouts E fd r s)" "only_calls plain (set_tcp_nodelay E fd b)"
  "only_calls plain (peer_address E fd)" "only_calls plain (new_ssl E)"
  "only_calls plain (describe_verify_result E v)"
  unfolding set_timeouts_def set_tcp_nodelay_def peer_address_def new_ssl_def describe_verify_result_def
  by (intro calls_intros; simp)+

lemma plain_subject_name: "only_calls plain (subject_name_to_string E name)"
  unfolding subject_name_to_string_def by (intro calls_intros; simp)

lemma plain_checks:
  "only_calls plain (inspect E)" "only_calls plain (enforce_peer_verification E cfg b)"
  "only_calls plain (ssl_graceful_shutdown E)"
  unfolding inspect_def enforce_peer_verification_def ssl_graceful_shutdown_def
  by (intro calls_intros plain_socket_setup plain_subject_name; simp)+

lemma plain_clock:
  "only_calls plain (generate_uuid_v4 E)" "only_calls plain (iso8601_now E)"
  "only_calls plain (stopwatch_start E)" "only_calls plain (elapsed_ns E t)" "only_calls plain (sample_usage E m)"
  unfolding generate_uuid_v4_def iso8601_now_def stopwatch_start_def elapsed_ns_def sample_usage_def Let_def
  by (intro calls_intros; simp)+

lemma plain_messages:
  "only_calls plain (parse J E text)" "only_calls plain (make_acknowledgement J E req status)"
  "only_calls plain (make_error J E r reason)"
  unfolding parse_def parse_message_id_def parse_timestamp_def make_acknowledgement_def make_error_def
  by (auto split: sum.split intro!: calls_intros plain_clock)

text \<open>What a connection may do besides: carry application data.\<close>

definition session_call :: "call \<Rightarrow> bool" where
  "session_call c \<longleftrightarrow> plain c \<or> app_data c"

lemma session_call_keeps_fds: "session_call c \<Longrightarrow> keeps_fds c"
  unfolding session_call_def using plain_keeps_fds by (cases c) auto

lemma session_call_intros [intro]: "plain c \<Longrightarrow> session_call c" "app_data c \<Longrightarrow> session_call c"
  by (simp_all add: session_call_def)

lemma plain_is_session: "only_calls plain m \<Longrightarrow> only_calls session_call m"
  by (erule only_calls_mono) blast

lemma session_no_metrics: "session_call c \<Longrightarrow> \<not> metrics_call c"
  unfolding session_call_def using plain_no_metrics by (cases c rule: metrics_call.cases) auto

lemma plain_is_quiet: "only_calls plain m \<Longrightarrow> only_calls quiet m"
  by (erule only_calls_mono) simp

lemma quiet_is_silent: "only_calls quiet m \<Longrightarrow> only_calls (\<lambda>c. \<not> app_data c) m"
  by (erule only_calls_mono) (simp add: quiet_def)

lemma session_write: "only_calls session_call (ssl_write_all E data c)"
proof (induction E data c rule: ssl_write_all.induct)
  case (1 E data c)
  show ?case
    by (subst ssl_write_all.simps) (intro calls_intros 1 session_call_intros; simp)
qed

lemma session_read: "only_calls session_call (ssl_read_some E n c)"
  unfolding ssl_read_some_def by (intro calls_intros session_call_intros; simp)

lemmas plain_parts = plain_socket_setup plain_checks plain_clock plain_messages

section \<open>Clearance\<close>

text \<open>
  A trace clears a connection for a profile when the negotiated group was asked for and is one the
  profile permits and, unless the insecure development mode is on, the verification result was asked
  for and is \<open>X509_V_OK\<close> and, where a certificate is required, one was there.
\<close>

definition group_checked :: "SecurityProfile \<Rightarrow> trace \<Rightarrow> bool" where
  "group_checked p es \<longleftrightarrow> (\<exists>g. Ev (Ssl SSL_get0_group_name) (RStr (Some g)) \<in> set es \<and> permits_negotiated_group p g)"

definition peer_checked :: "CommonConfig \<Rightarrow> bool \<Rightarrow> trace \<Rightarrow> bool" where
  "peer_checked cfg require es \<longleftrightarrow>
     cc_insecure_development_mode cfg \<or>
     Ev (Ssl SSL_get_verify_result) (RInt kX509VOk) \<in> set es \<and>
     (require \<longrightarrow> (\<exists>x. x \<noteq> 0 \<and> Ev (Ssl SSL_get1_peer_certificate) (RInt x) \<in> set es))"

definition cleared :: "SecurityProfile \<Rightarrow> CommonConfig \<Rightarrow> bool \<Rightarrow> trace \<Rightarrow> bool" where
  "cleared p cfg require es \<longleftrightarrow> group_checked p es \<and> peer_checked cfg require es"

lemma cleared_append: "cleared p cfg b xs \<or> cleared p cfg b ys \<Longrightarrow> cleared p cfg b (xs @ ys)"
  by (auto simp: cleared_def group_checked_def peer_checked_def)

text \<open>\<open>gated C es\<close>: whatever precedes a call that carries application data satisfies \<open>C\<close>.\<close>

definition gated :: "(trace \<Rightarrow> bool) \<Rightarrow> trace \<Rightarrow> bool" where
  "gated C es \<longleftrightarrow> (\<forall>xs e ys. es = xs @ e # ys \<and> app_data (ev_call e) \<longrightarrow> C xs)"

lemma gated_quiet: "\<forall>e \<in> set es. \<not> app_data (ev_call e) \<Longrightarrow> gated C es"
  by (auto simp: gated_def)

lemma append_eq_split:
  "es @ fs = xs @ e # ys \<longleftrightarrow>
     (\<exists>us. es = xs @ e # us \<and> ys = us @ fs) \<or> (\<exists>us. xs = es @ us \<and> fs = us @ e # ys)"
  by (auto simp: append_eq_append_conv2 append_eq_Cons_conv Cons_eq_append_conv)

lemma gated_after:
  assumes quiet: "\<forall>e \<in> set es. \<not> app_data (ev_call e)" and clear: "\<And>zs. C (es @ zs)"
  shows "gated C (es @ fs)"
  using assms by (auto simp: gated_def append_eq_split)

lemma gated_append_quiet:
  assumes "gated C es" and "\<forall>e \<in> set fs. \<not> app_data (ev_call e)"
  shows "gated C (es @ fs)"
  using assms by (auto simp: gated_def append_eq_split)

lemma subject_name_trace: "subject_name_to_string E name tr = (r, tr') \<Longrightarrow> \<exists>es. tr' = tr @ es"
  by (rule only_callsD [OF plain_subject_name]) auto

lemma inspect_group:
  assumes "inspect E tr = (Inr outcome, tr')"
  shows "\<exists>es r. tr' = tr @ es \<and> Ev (Ssl SSL_get0_group_name) (RStr r) \<in> set es \<and>
    h_negotiated_group outcome = text_or_empty r"
  using assms unfolding inspect_def
  by (auto simp: io_simps if_io_eq split: if_splits dest!: subject_name_trace)

lemma enforce_peer_verification_checked:
  assumes "enforce_peer_verification E cfg b tr = (Inr u, tr')"
  shows "\<exists>es. tr' = tr @ es \<and> peer_checked cfg b es"
  using assms unfolding enforce_peer_verification_def by (auto simp: io_simps peer_checked_def split: if_splits)

lemma group_policy_checked:
  assumes "Ev (Ssl SSL_get0_group_name) (RStr r) \<in> set es"
    and "enforce_group_policy p outcome = Inr ()" and "h_negotiated_group outcome = text_or_empty r"
  shows "group_checked p es"
  using assms by (cases r) (auto simp: enforce_group_policy_def text_or_empty_def group_checked_def throw_sub_def
      permits_negotiated_group_def split: if_splits)

lemma gated_quiet_append:
  assumes "\<forall>e \<in> set es. \<not> app_data (ev_call e)" and "gated C fs" and "\<And>xs ys. C ys \<Longrightarrow> C (xs @ ys)"
  shows "gated C (es @ fs)"
  using assms by (auto simp: gated_def append_eq_split)

text \<open>\<open>gates C m\<close>: every run of \<open>m\<close> appends a gated trace.\<close>

definition gates :: "(trace \<Rightarrow> bool) \<Rightarrow> 'a io \<Rightarrow> bool" where
  "gates C m \<longleftrightarrow> (\<forall>tr. \<exists>es. snd (m tr) = tr @ es \<and> gated C es)"

lemma gatesD:
  assumes "gates C m" and "m tr = (r, tr')"
  obtains es where "tr' = tr @ es" "gated C es"
  using assms unfolding gates_def by (metis snd_conv)

lemma gates_after_quiet:
  assumes "only_calls (\<lambda>c. \<not> app_data c) m" and "\<And>x. gates C (f x)" and "\<And>xs ys. C ys \<Longrightarrow> C (xs @ ys)"
  shows "gates C (bindIO m f)"
  unfolding gates_def
proof
  fix tr
  obtain r tr1 where m: "m tr = (r, tr1)" by (cases "m tr")
  with assms(1) obtain es where es: "tr1 = tr @ es" "\<forall>e \<in> set es. \<not> app_data (ev_call e)" by (rule only_callsD)
  show "\<exists>es. snd (bindIO m f tr) = tr @ es \<and> gated C es"
  proof (cases r)
    case (Inl e)
    then show ?thesis using m es gated_quiet by (auto simp: bindIO_def)
  next
    case (Inr x)
    obtain fs where fs: "snd (f x tr1) = tr1 @ fs" "gated C fs" using assms(2) [of x] by (auto simp: gates_def)
    have "gated C (es @ fs)" using es(2) fs(2) assms(3) by (rule gated_quiet_append)
    then show ?thesis using m es(1) fs(1) Inr by (auto simp: bindIO_def)
  qed
qed

lemma gates_before_quiet:
  assumes "gates C m" and "\<And>x. only_calls (\<lambda>c. \<not> app_data c) (f x)"
  shows "gates C (bindIO m f)"
  unfolding gates_def
proof
  fix tr
  obtain r tr1 where m: "m tr = (r, tr1)" by (cases "m tr")
  with assms(1) obtain es where es: "tr1 = tr @ es" "gated C es" by (rule gatesD)
  show "\<exists>es. snd (bindIO m f tr) = tr @ es \<and> gated C es"
  proof (cases r)
    case (Inl e)
    then show ?thesis using m es by (auto simp: bindIO_def)
  next
    case (Inr x)
    obtain q tr2 where q: "f x tr1 = (q, tr2)" by (cases "f x tr1")
    with assms(2) obtain fs where "tr2 = tr1 @ fs" "\<forall>e \<in> set fs. \<not> app_data (ev_call e)" by (rule only_callsD)
    then show ?thesis using m es Inr q gated_append_quiet [OF es(2)] by (auto simp: bindIO_def)
  qed
qed

section \<open>The contract of a connection\<close>

text \<open>
  \<open>establish\<close> makes no call that carries application data and returns a value that is passed
  only with a clearance; \<open>exchange\<close> only extends the trace, and carries no application data when
  the value is not passed.
\<close>

locale gated_session =
  fixes establish :: "'a io" and passed :: "'a \<Rightarrow> bool" and exchange :: "'a \<Rightarrow> 'b io" and C :: "trace \<Rightarrow> bool"
  assumes establish_quiet: "only_calls (\<lambda>c. \<not> app_data c) establish"
    and establish_clears: "establish tr = (Inr x, tr @ es) \<Longrightarrow> passed x \<Longrightarrow> C es"
    and clearance_stays: "C es \<Longrightarrow> C (es @ fs)"
    and exchange_extends: "only_calls (\<lambda>c. True) (exchange x)"
    and exchange_refused: "\<not> passed x \<Longrightarrow> only_calls (\<lambda>c. \<not> app_data c) (exchange x)"
begin

lemma session_gated:
  assumes "bindIO establish exchange tr = (r, tr')"
  obtains es where "tr' = tr @ es" "gated C es"
proof -
  obtain q tr1 where q: "establish tr = (q, tr1)" by (cases "establish tr")
  obtain es where es: "tr1 = tr @ es" "\<forall>e \<in> set es. \<not> app_data (ev_call e)"
    using establish_quiet q by (rule only_callsD)
  consider (error) e where "q = Inl e" | (pass) x where "q = Inr x" "passed x" | (refuse) x where "q = Inr x" "\<not> passed x"
    by (cases q) auto
  then show ?thesis
  proof cases
    case error
    then show ?thesis using that [of es] es gated_quiet [OF es(2)] q assms by (simp add: bindIO_def)
  next
    case pass
    then have "exchange x tr1 = (r, tr')" using q assms by (simp add: bindIO_def)
    then obtain fs where fs: "tr' = tr1 @ fs" using exchange_extends by (metis only_callsD)
    have "C es" using establish_clears q es(1) pass by blast
    then show ?thesis using that [of "es @ fs"] fs es gated_after [OF es(2)] clearance_stays by simp
  next
    case refuse
    then have "exchange x tr1 = (r, tr')" using q assms by (simp add: bindIO_def)
    with exchange_refused [OF refuse(2)] obtain fs where "tr' = tr1 @ fs" "\<forall>e \<in> set fs. \<not> app_data (ev_call e)"
      by (rule only_callsD)
    then show ?thesis using that [of "es @ fs"] es gated_append_quiet [OF gated_quiet [OF es(2)]] by simp
  qed
qed

end

section \<open>Metrics records\<close>

text \<open>The metrics stream is open throughout.\<close>

definition stream_open :: "'e env_scheme \<Rightarrow> bool" where
  "stream_open E \<longleftrightarrow> (\<forall>tr. e_int E tr (Sys Metrics_is_open) \<noteq> 0)"

text \<open>\<open>recorded J w m es\<close>: the trace wrote one record, of the metrics \<open>m\<close>, if there is a writer.\<close>

definition recorded :: "('j, 'z) json_api_scheme \<Rightarrow> bool \<Rightarrow> ConnectionMetrics \<Rightarrow> trace \<Rightarrow> bool" where
  "recorded J w m es \<longleftrightarrow>
     (if w then (\<exists>line. to_jsonl_line J m = Inr line \<and> records es = [line @ [CHR 0x0A]]) else records es = [])"

lemma recorded_after: "records xs = [] \<Longrightarrow> recorded J w m ys \<Longrightarrow> recorded J w m (xs @ ys)"
  by (simp add: recorded_def)

lemma recorded_before: "records ys = [] \<Longrightarrow> recorded J w m xs \<Longrightarrow> recorded J w m (xs @ ys)"
  by (simp add: recorded_def)

lemma record_metrics_recorded:
  assumes "record_metrics J E w m tr = (Inr u, tr')" and "stream_open E"
  shows "\<exists>es. tr' = tr @ es \<and> recorded J w m es"
  using assms unfolding record_metrics_def metrics_write_def metrics_enabled_def
  by (auto simp: io_simps stream_open_def recorded_def split: if_splits elim!: bindIO_InrE)

lemma record_metrics_calls:
  "only_calls (\<lambda>c. \<not> app_data c) (record_metrics J E w m)" "only_calls keeps_fds (record_metrics J E w m)"
  unfolding record_metrics_def metrics_write_def metrics_enabled_def by (intro calls_intros; simp)+

section \<open>The stream of a connection\<close>

text \<open>What both peers do to send a message, and to count it.\<close>

definition send_message ::
  "('j, 'z) json_api_scheme \<Rightarrow> 'e env_scheme \<Rightarrow> u32 \<Rightarrow> 'j Message \<Rightarrow> IoCounters \<Rightarrow> IoCounters io" where
  "send_message J E max_frame message counters =
     bindIO (liftE (serialize J message)) (\<lambda>payload.
     bindIO (liftE (encode payload max_frame)) (\<lambda>frame.
     ssl_write_all E frame counters))"

definition count_message :: "ConnectionMetrics \<Rightarrow> ConnectionMetrics" where
  "count_message m = m\<lparr>cm_protocol_message_count := cm_protocol_message_count m + 1\<rparr>"

text \<open>What was negotiated, and that it is permitted by the profile and truthfully classified.\<close>

definition negotiation_of :: "ConnectionMetrics \<Rightarrow> string \<times> bool \<times> bool" where
  "negotiation_of m = (cm_negotiated_group m, cm_pq_key_establishment m, cm_hybrid_key_establishment m)"

definition negotiated_under :: "SecurityProfile \<Rightarrow> ConnectionMetrics \<Rightarrow> bool" where
  "negotiated_under profile m \<longleftrightarrow> (case negotiation_of m of (negotiated, pq, hybrid) \<Rightarrow>
     permits_negotiated_group profile negotiated \<and> pq = is_post_quantum_group negotiated \<and> hybrid = is_hybrid_group negotiated)"

lemma negotiated_under_cong: "negotiation_of m = negotiation_of m' \<Longrightarrow> negotiated_under p m = negotiated_under p m'"
  by (simp add: negotiated_under_def)

lemma negotiation_updates [simp]:
  "negotiation_of (count_message m) = negotiation_of m" "negotiation_of (m\<lparr>cm_connection_ns := ns\<rparr>) = negotiation_of m"
  "negotiation_of (m\<lparr>cm_application_bytes_sent := a\<rparr>) = negotiation_of m"
  "negotiation_of (m\<lparr>cm_application_bytes_received := b\<rparr>) = negotiation_of m"
  "negotiation_of (m\<lparr>cm_success := ok\<rparr>) = negotiation_of m" "negotiation_of (m\<lparr>cm_error_category := c\<rparr>) = negotiation_of m"
  by (simp_all add: negotiation_of_def count_message_def)

lemma sample_usage_negotiation: "sample_usage E m tr = (Inr m', tr') \<Longrightarrow> negotiation_of m' = negotiation_of m"
  unfolding sample_usage_def by (auto simp: io_simps negotiation_of_def split: list.splits)

lemma only_calls_prod: "(\<And>x y. only_calls Q (f x y)) \<Longrightarrow> only_calls Q (case p of (x, y) \<Rightarrow> f x y)"
  by (simp split: prod.split)

lemma session_balanced:
  assumes "only_calls session_call m" and "m tr = (r, tr')"
  obtains es where "tr' = tr @ es" "opened es = {#}" "closed es = {#}"
  using assms keeps_fds_trace session_call_keeps_fds by (metis only_callsD)

text \<open>A read: the received bytes are the ones the TLS layer delivered, and nothing is sent.\<close>

lemma ssl_read_some_stream:
  assumes "ssl_read_some E n c tr = (Inr (bytes, c'), tr')"
  shows "\<exists>es. tr' = tr @ es \<and> received es = bytes \<and> sent es = [] \<and> bytes_sent c' = bytes_sent c \<and>
    bytes_received c' = bytes_received c + of_nat (length bytes)"
proof -
  have nothrow: "throw_ssl_error E op tr0 \<noteq> (Inr y, tr1)" for op tr0 and y :: "byte list \<times> IoCounters" and tr1
    using throw_ssl_error_class [of E op tr0, where ?'a = "byte list \<times> IoCounters"]
    by (auto simp: transport_failure_def throws_def)
  show ?thesis using assms unfolding ssl_read_some_def drain_openssl_errors_def
    by (auto simp: io_simps nothrow split: if_splits)
qed

text \<open>\<open>frame_for J m msg f\<close>: the bytes that carry a message; \<open>reads_as\<close>: a response text and its message.\<close>

definition frame_for :: "('j, 'z) json_api_scheme \<Rightarrow> u32 \<Rightarrow> 'j Message \<Rightarrow> byte list \<Rightarrow> bool" where
  "frame_for J m msg f \<longleftrightarrow> (\<exists>p. serialize J msg = Inr p \<and> encode p m = Inr f)"

definition reads_as :: "('j, 'z) json_api_scheme \<Rightarrow> 'e env_scheme \<Rightarrow> string \<Rightarrow> 'j Message \<Rightarrow> bool" where
  "reads_as J E text msg \<longleftrightarrow> (\<exists>tr tr'. parse J E text tr = (Inr msg, tr'))"

text \<open>A write receives nothing.\<close>

fun no_read :: "call \<Rightarrow> bool" where
  "no_read (SSL_read n) = False"
| "no_read c = True"

lemma no_read_receives: "\<forall>e \<in> set es. no_read (ev_call e) \<Longrightarrow> received es = []"
proof (induction es)
  case (Cons e es)
  then show ?case by (cases e rule: received_of.cases) auto
qed simp

lemma no_read_write: "only_calls no_read (ssl_write_all E data c)"
proof (induction E data c rule: ssl_write_all.induct)
  case (1 E data c)
  show ?case by (subst ssl_write_all.simps) (intro calls_intros 1; simp)
qed

lemma send_message_stream:
  assumes "send_message J E m msg c tr = (Inr c', tr')"
  shows "\<exists>es f. tr' = tr @ es \<and> frame_for J m msg f \<and> sent es = f \<and> received es = [] \<and>
    c' = c\<lparr>bytes_sent := bytes_sent c + of_nat (length f)\<rparr>"
proof -
  obtain p f where f: "serialize J msg = Inr p" "encode p m = Inr f" "ssl_write_all E f c tr = (Inr c', tr')"
    using assms unfolding send_message_def by (elim bindIO_InrE liftE_InrE) simp
  obtain es where es: "tr' = tr @ es" "c' = c\<lparr>bytes_sent := bytes_sent c + of_nat (length f)\<rparr>" "sent es = f"
    using ssl_write_all_outcome [of E f c tr] f(3) by (auto simp: transport_failure_def throws_def)
  have "received es = []" using no_read_write f(3) es(1) no_read_receives by (metis only_callsD same_append_eq)
  then show ?thesis using f es by (auto simp: frame_for_def)
qed

lemma frames_of_split:
  "split_frame m (s @ x) = Inr (Some (p, r)) \<Longrightarrow> fst (frames_of m (s @ x @ y)) = p # fst (frames_of m (r @ y))"
  using split_frame_prefix [of m "s @ x" p r y]
  by (subst frames_of.simps) (simp split: prod.split)

lemma sample_usage_keeps:
  assumes "sample_usage E m tr = (Inr m', tr')"
  shows "cm_application_bytes_sent m' = cm_application_bytes_sent m \<and>
    cm_application_bytes_received m' = cm_application_bytes_received m"
  using assms unfolding sample_usage_def by (auto simp: io_simps split: list.splits)

lemma mk_Decoder_fresh: "mk_Decoder m = Inr d \<Longrightarrow> d = \<lparr>max_frame_size = m, buffer = [], consumed = 0\<rparr>"
  by (auto simp: mk_Decoder_def throw_sub_def split: if_splits)


section \<open>A sample world\<close>

text \<open>A peer that accepts everything and answers each read with a ping, and a JSON library that knows one document, by a short name.\<close>

definition loop_env :: env where
  "loop_env = \<lparr>e_int = (\<lambda>tr c. case c of Sys (Socket f) \<Rightarrow> 3 | Sys (Connect fd i) \<Rightarrow> 0 | Sys (Setsockopt fd opt) \<Rightarrow> 0
       | Sys Load_stopping \<Rightarrow> 0 | Ssl SSL_get_verify_result \<Rightarrow> 0 | SSL_write b \<Rightarrow> int (length b) | _ \<Rightarrow> 1),
     e_str = (\<lambda>tr c. Some ''X25519MLKEM768''), e_strs = (\<lambda>_ _. []),
     e_bytes = (\<lambda>tr c. case c of SSL_read n \<Rightarrow> frame_of ''1'' | _ \<Rightarrow> replicate 16 0),
     e_ints = (\<lambda>tr c. [0, 2]), e_getenv = (\<lambda>_. None)\<rparr>"

definition terse_json :: "jvalue json_api" where
  "terse_json = (json_reference [])\<lparr>j_dump := (\<lambda>d. Inr ''{}''),
     j_parse := (\<lambda>s. if s = ''1'' then Inr ping_doc else Inl ''parse error'')\<rparr>"

lemma stream_open_loop_env: "stream_open loop_env"
  by (simp add: stream_open_def loop_env_def)

end
