(* ===== verification/Client.thy ===== *)
theory Client
  imports Session "HOL-Library.Code_Target_Nat"
begin

text \<open>
  The TLS client: \<open>include/pqtls/client.hpp\<close> and \<open>src/client/client.cpp\<close> up to the
  benchmark.  A \<open>PqTlsClient\<close> is its configuration, the profile of its context and the cached
  session, an optional handle.  \<open>connect_and_exchange\<close> is split where the code changes from
  setting the connection up to using it; the split keeps the cached session, which survives a later
  exception.  Memory owned by OpenSSL is not modelled; the socket is closed when its scope ends.
\<close>

definition kReadChunk :: nat where
  "kReadChunk = 16 * 1024"

record 'j ClientResult =
  r_ok :: bool
  r_metrics :: ConnectionMetrics
  r_responses :: "'j Message list"

definition ClientResult_default :: "'j ClientResult" where
  "ClientResult_default = \<lparr>r_ok = False, r_metrics = ConnectionMetrics_default, r_responses = []\<rparr>"

definition populate_negotiation_fields ::
  "ConnectionMetrics \<Rightarrow> SecurityProfile \<Rightarrow> HandshakeOutcome \<Rightarrow> ConnectionMetrics" where
  "populate_negotiation_fields metrics profile outcome =
     (let sig = h_peer_signature_algorithm outcome in
      metrics\<lparr>cm_tls_version := h_tls_version outcome,
        cm_negotiated_group := h_negotiated_group outcome,
        cm_cipher_suite := h_cipher_suite outcome,
        cm_session_reused := h_session_reused outcome,
        cm_authentication := (if sig = '''' then to_string_AuthenticationType (d_authentication (def_of profile)) else sig),
        cm_pq_key_establishment := is_post_quantum_group (h_negotiated_group outcome),
        cm_hybrid_key_establishment := is_hybrid_group (h_negotiated_group outcome),
        cm_pq_authentication := contains_substring sig ''mldsa'' \<or> contains_substring sig ''ML-DSA'' \<or>
          contains_substring sig ''dilithium''\<rparr>)"

section \<open>Setting the connection up\<close>

text \<open>Identification, the timer and the TCP connection: the metrics, the start time and the socket.\<close>

definition client_open :: "'e env_scheme \<Rightarrow> ClientConfig \<Rightarrow> (ConnectionMetrics \<times> int \<times> int) io" where
  "client_open E cfg =
     bindIO (generate_uuid_v4 E) (\<lambda>cid.
     bindIO (iso8601_now E) (\<lambda>timestamp.
     bindIO (stopwatch_start E) (\<lambda>timer.
     bindIO (tcp_connect E (cl_host cfg) (cl_port cfg) (cc_handshake_timeout_ms (cl_common cfg))) (\<lambda>fd.
     returnIO (ConnectionMetrics_default\<lparr>cm_connection_id := cid, cm_timestamp := timestamp, cm_role := Client,
         cm_requested_profile := cc_profile_id (cl_common cfg),
         cm_experiment_id := cc_experiment_id (cl_common cfg)\<rparr>, timer, fd)))))"

definition client_setup_ssl :: "'e env_scheme \<Rightarrow> ClientConfig \<Rightarrow> int option \<Rightarrow> int \<Rightarrow> unit io" where
  "client_setup_ssl E cfg cached fd =
     bindIO (set_timeouts E fd (cc_io_timeout_ms (cl_common cfg)) (cc_io_timeout_ms (cl_common cfg))) (\<lambda>_.
     bindIO (new_ssl E) (\<lambda>_.
     bindIO (ext_int E (Ssl (SSL_set_fd fd))) (\<lambda>r.
     if r \<noteq> 1 then throw_openssl_error E Internal ''SSL_set_fd failed'' else
     bindIO (ext_int E (Ssl (SSL_set_tlsext_host_name (c_str (effective_server_name cfg))))) (\<lambda>r.
     if r \<noteq> 1
     then throw_openssl_error E Configuration (''failed to set the TLS SNI hostname to '' @ quoted (effective_server_name cfg))
     else
     bindIO (if \<not> cc_insecure_development_mode (cl_common cfg)
             then bindIO (call_IO E (Ssl SSL_set_hostflags)) (\<lambda>_.
                  bindIO (ext_int E (Ssl (SSL_set1_host (c_str (effective_server_name cfg))))) (\<lambda>r.
                  if r \<noteq> 1
                  then throw_openssl_error E Configuration (''failed to enable hostname verification for '' @
                         quoted (effective_server_name cfg))
                  else returnIO ()))
             else returnIO ()) (\<lambda>_.
     case (if cl_reuse_session cfg then cached else None) of
       Some session \<Rightarrow>
         bindIO (ext_int E (Ssl (SSL_set_session session))) (\<lambda>r.
         if r \<noteq> 1 then bindIO (drain_openssl_errors E) (\<lambda>_. returnIO ()) else returnIO ())
     | None \<Rightarrow> returnIO ())))))"

definition client_handshake :: "'e env_scheme \<Rightarrow> ClientConfig \<Rightarrow> ConnectionMetrics \<Rightarrow> ConnectionMetrics io" where
  "client_handshake E cfg metrics =
     bindIO (stopwatch_start E) (\<lambda>timer.
     bindIO (ext_int E (Ssl SSL_connect)) (\<lambda>handshake_result.
     bindIO (elapsed_ns E timer) (\<lambda>ns.
     if handshake_result \<noteq> 1
     then
       bindIO (ext_int E (Ssl SSL_get_error)) (\<lambda>ssl_error.
       bindIO (drain_openssl_errors E) (\<lambda>details.
       bindIO (ext_int E (Ssl SSL_get_verify_result)) (\<lambda>verify_result.
       if verify_result \<noteq> kX509VOk
       then bindIO (describe_verify_result E verify_result) (\<lambda>text.
              throwIO Certificate (''TLS handshake failed during certificate verification: '' @ text) details)
       else if ssl_error = kSslErrorSyscall \<or> ssl_error = kSslErrorZeroReturn
       then throwIO Network ''TLS handshake failed: the connection was closed by the peer'' details
       else throwIO Handshake (''TLS handshake failed against '' @ cl_host cfg @ '':'' @ dec_nat (unat (cl_port cfg))) details)))
     else returnIO (metrics\<lparr>cm_handshake_ns := ns\<rparr>))))"

text \<open>Inspection, then certificate verification, then the downgrade check, then the session cache.\<close>

definition client_cache ::
  "'e env_scheme \<Rightarrow> ClientConfig \<Rightarrow> int option \<Rightarrow> ConnectionMetrics \<Rightarrow> (ConnectionMetrics \<times> int option) io" where
  "client_cache E cfg cached metrics =
     (if cl_reuse_session cfg
      then bindIO (ext_int E (Ssl SSL_get1_session)) (\<lambda>session.
             returnIO (metrics, if session \<noteq> 0 then Some session else cached))
      else returnIO (metrics, cached))"

definition client_check ::
  "'e env_scheme \<Rightarrow> ClientConfig \<Rightarrow> SecurityProfile \<Rightarrow> int option \<Rightarrow> ConnectionMetrics \<Rightarrow>
     (ConnectionMetrics \<times> int option) io" where
  "client_check E cfg profile cached metrics =
     bindIO (inspect E) (\<lambda>outcome.
     let metrics = (populate_negotiation_fields metrics profile outcome)\<lparr>cm_negotiated_profile := profile_id profile\<rparr> in
     bindIO (enforce_peer_verification E (cl_common cfg) True) (\<lambda>_.
     bindIO (liftE (enforce_group_policy profile outcome)) (\<lambda>_.
     client_cache E cfg cached metrics)))"

definition client_establish ::
  "'e env_scheme \<Rightarrow> ClientConfig \<Rightarrow> SecurityProfile \<Rightarrow> int option \<Rightarrow> int \<Rightarrow> ConnectionMetrics \<Rightarrow>
     (ConnectionMetrics \<times> int option) io" where
  "client_establish E cfg profile cached fd metrics =
     bindIO (peer_address E fd) (\<lambda>peer.
     bindIO (client_setup_ssl E cfg cached fd) (\<lambda>_.
     bindIO (client_handshake E cfg (metrics\<lparr>cm_peer_address := peer\<rparr>)) (\<lambda>metrics.
     client_check E cfg profile cached metrics)))"

section \<open>Exchanging messages\<close>

text \<open>
  Read until a complete frame is assembled.  The loop ends because a read that does not complete a
  frame leaves less room for one.
\<close>

function read_response :: "'e env_scheme \<Rightarrow> Decoder \<Rightarrow> IoCounters \<Rightarrow> (string \<times> Decoder \<times> IoCounters) io" where
  "read_response E decoder counters =
     (case next_frame decoder of
        (Inl e, d) \<Rightarrow> liftE (Inl e)
      | (Inr (Some text), d) \<Rightarrow> returnIO (text, d, counters)
      | (Inr None, d) \<Rightarrow>
          bindIO (ssl_read_some E kReadChunk counters) (\<lambda>(bytes, counters).
          if bytes = []
          then throwIO Protocol ''the server closed the connection before a complete response frame arrived'' []
          else (case feed d bytes of
                  (Inl e, d) \<Rightarrow> liftE (Inl e)
                | (Inr u, d) \<Rightarrow> read_response E d counters)))"
  by pat_completeness auto

termination
  by (relation "measure (\<lambda>(E, d, c). decoder_room d)") (auto intro: feed_progress [OF sym sym])

declare read_response.simps [simp del]

record 'j exchange_state =
  x_metrics :: ConnectionMetrics
  x_decoder :: Decoder
  x_counters :: IoCounters
  x_responses :: "'j Message list"

text \<open>The state after a message went out, and after a response came in.\<close>

definition after_send :: "'j exchange_state \<Rightarrow> IoCounters \<Rightarrow> 'j exchange_state" where
  "after_send st counters = st\<lparr>x_metrics := count_message (x_metrics st), x_counters := counters\<rparr>"

definition after_response :: "'j exchange_state \<Rightarrow> Decoder \<Rightarrow> IoCounters \<Rightarrow> 'j Message \<Rightarrow> 'j exchange_state" where
  "after_response st d counters response =
     st\<lparr>x_metrics := count_message (x_metrics st), x_decoder := d, x_counters := counters,
        x_responses := x_responses st @ [response]\<rparr>"

fun exchange_messages ::
  "('j, 'z) json_api_scheme \<Rightarrow> 'e env_scheme \<Rightarrow> u32 \<Rightarrow> 'j Message list \<Rightarrow> 'j exchange_state \<Rightarrow> 'j exchange_state io" where
  "exchange_messages J E max_frame [] st = returnIO st"
| "exchange_messages J E max_frame (message # rest) st =
     bindIO (send_message J E max_frame message (x_counters st)) (\<lambda>counters.
     if m_type message = Close_message then returnIO (after_send st counters)
     else
       bindIO (read_response E (x_decoder st) counters) (\<lambda>(text, d, counters2).
       bindIO (parse J E text) (\<lambda>response.
       exchange_messages J E max_frame rest (after_response (after_send st counters) d counters2 response))))"

definition client_exchange ::
  "('j, 'z) json_api_scheme \<Rightarrow> 'e env_scheme \<Rightarrow> ClientConfig \<Rightarrow> 'j Message list \<Rightarrow> int \<Rightarrow> ConnectionMetrics \<Rightarrow>
     'j ClientResult io" where
  "client_exchange J E cfg messages timer metrics =
     bindIO (liftE (mk_Decoder (cc_max_frame_size (cl_common cfg)))) (\<lambda>decoder.
     bindIO (exchange_messages J E (cc_max_frame_size (cl_common cfg)) messages
              \<lparr>x_metrics = metrics, x_decoder = decoder, x_counters = IoCounters_zero, x_responses = []\<rparr>) (\<lambda>st.
     bindIO (ssl_graceful_shutdown E) (\<lambda>_.
     bindIO (elapsed_ns E timer) (\<lambda>ns.
     bindIO (sample_usage E ((x_metrics st)\<lparr>cm_application_bytes_sent := bytes_sent (x_counters st),
               cm_application_bytes_received := bytes_received (x_counters st), cm_connection_ns := ns\<rparr>)) (\<lambda>metrics.
     returnIO \<lparr>r_ok = True, r_metrics = metrics\<lparr>cm_success := True, cm_error_category := None_category\<rparr>,
               r_responses = x_responses st\<rparr>)))))"

text \<open>\<open>connect_and_exchange\<close>: the outcome with the cached session, and the trace.\<close>

definition connect_and_exchange ::
  "('j, 'z) json_api_scheme \<Rightarrow> 'e env_scheme \<Rightarrow> ClientConfig \<Rightarrow> SecurityProfile \<Rightarrow> int option \<Rightarrow> 'j Message list \<Rightarrow>
     trace \<Rightarrow> ('j ClientResult result \<times> int option) \<times> trace" where
  "connect_and_exchange J E cfg profile cached messages tr =
     (case client_open E cfg tr of
        (Inl e, tr1) \<Rightarrow> ((Inl e, cached), tr1)
      | (Inr (metrics, timer, fd), tr1) \<Rightarrow>
          (case client_establish E cfg profile cached fd metrics tr1 of
             (Inl e, tr2) \<Rightarrow> ((Inl e, cached), snd (socket_close E fd tr2))
           | (Inr (metrics, cached'), tr2) \<Rightarrow>
               (case client_exchange J E cfg messages timer metrics tr2 of
                  (r, tr3) \<Rightarrow> ((r, cached'), snd (socket_close E fd tr3)))))"

text \<open>The two handlers of \<open>run_once\<close>: a fresh result with the failure recorded.\<close>

definition failed_result :: "exn \<Rightarrow> 'j ClientResult" where
  "failed_result e =
     ClientResult_default\<lparr>r_metrics := ConnectionMetrics_default\<lparr>cm_success := False,
        cm_error_category := exn_category e, cm_error_message := Some (exn_message e)\<rparr>\<rparr>"

text \<open>The fields that must be present in any case, and the metrics record.\<close>

definition complete_metrics :: "ClientConfig \<Rightarrow> string \<Rightarrow> string \<Rightarrow> ConnectionMetrics \<Rightarrow> ConnectionMetrics" where
  "complete_metrics cfg cid timestamp m =
     m\<lparr>cm_connection_id := cid, cm_timestamp := timestamp, cm_role := Client,
       cm_requested_profile := cc_profile_id (cl_common cfg), cm_experiment_id := cc_experiment_id (cl_common cfg)\<rparr>"

definition finish_result ::
  "('j, 'z) json_api_scheme \<Rightarrow> 'e env_scheme \<Rightarrow> ClientConfig \<Rightarrow> bool \<Rightarrow> 'j ClientResult \<Rightarrow> 'j ClientResult io" where
  "finish_result J E cfg has_writer result =
     bindIO (if cm_connection_id (r_metrics result) = '''' then generate_uuid_v4 E
             else returnIO (cm_connection_id (r_metrics result))) (\<lambda>cid.
     bindIO (if cm_timestamp (r_metrics result) = '''' then iso8601_now E
             else returnIO (cm_timestamp (r_metrics result))) (\<lambda>timestamp.
     let metrics = complete_metrics cfg cid timestamp (r_metrics result) in
     bindIO (record_metrics J E has_writer metrics) (\<lambda>_. returnIO (result\<lparr>r_metrics := metrics\<rparr>))))"

definition run_once ::
  "('j, 'z) json_api_scheme \<Rightarrow> 'e env_scheme \<Rightarrow> ClientConfig \<Rightarrow> SecurityProfile \<Rightarrow> bool \<Rightarrow> int option \<Rightarrow>
     'j Message list \<Rightarrow> trace \<Rightarrow> ('j ClientResult result \<times> int option) \<times> trace" where
  "run_once J E cfg profile has_writer cached messages tr =
     (case connect_and_exchange J E cfg profile cached messages tr of
        ((r, cached'), tr1) \<Rightarrow>
          (case r of
             Inr result \<Rightarrow> (case finish_result J E cfg has_writer result tr1 of (q, tr2) \<Rightarrow> ((q, cached'), tr2))
           | Inl e \<Rightarrow>
               if catchable e
               then (case finish_result J E cfg has_writer (failed_result e) tr1 of (q, tr2) \<Rightarrow> ((q, cached'), tr2))
               else ((Inl e, cached'), tr1)))"

text \<open>The overload for a single message, and \<open>clear_cached_session\<close>.\<close>

definition run_once_message ::
  "('j, 'z) json_api_scheme \<Rightarrow> 'e env_scheme \<Rightarrow> ClientConfig \<Rightarrow> SecurityProfile \<Rightarrow> bool \<Rightarrow> int option \<Rightarrow>
     'j Message \<Rightarrow> trace \<Rightarrow> ('j ClientResult result \<times> int option) \<times> trace" where
  "run_once_message J E cfg profile has_writer cached message = run_once J E cfg profile has_writer cached [message]"

definition clear_cached_session :: "int option \<Rightarrow> int option" where
  "clear_cached_session cached = None"

text \<open>The constructor: the profile is looked up, then the context built; logging is left out.\<close>

definition PqTlsClient :: "'e env_scheme \<Rightarrow> ClientConfig \<Rightarrow> ProfileRegistry \<Rightarrow> SecurityProfile io" where
  "PqTlsClient E cfg registry =
     bindIO (liftE (get_profile registry (cc_profile_id (cl_common cfg)))) (\<lambda>p.
     bindIO (create_client E p (cl_common cfg)) (\<lambda>profile.
     bindIO (ignore_sigpipe E) (\<lambda>_. returnIO profile)))"

section \<open>Which calls the parts make\<close>

lemma plain_client_cache: "only_calls plain (client_cache E cfg cached m)"
  unfolding client_cache_def by (intro calls_intros; simp)

lemma plain_client_parts:
  "only_calls plain (client_setup_ssl E cfg cached fd)" "only_calls plain (client_handshake E cfg m)"
  "only_calls plain (client_check E cfg profile cached m)"
  unfolding client_setup_ssl_def client_handshake_def client_check_def Let_def
  by (intro calls_intros plain_parts plain_client_cache; simp)+

lemma plain_client_establish: "only_calls plain (client_establish E cfg profile cached fd m)"
  unfolding client_establish_def by (intro calls_intros plain_parts plain_client_parts)

lemma session_read_response: "only_calls session_call (read_response E d c)"
proof (induction E d c rule: read_response.induct)
  case (1 E d c)
  show ?case
    by (subst read_response.simps)
       (auto split: prod.splits sum.splits option.splits intro!: calls_intros session_read 1)
qed

lemma session_exchange: "only_calls session_call (exchange_messages J E m msgs st)"
proof (induction msgs arbitrary: st)
  case Nil
  then show ?case by (simp add: calls_intros)
next
  case (Cons msg msgs)
  show ?case unfolding exchange_messages.simps send_message_def Let_def
    by (intro calls_intros only_calls_prod session_write session_read_response plain_is_session [OF plain_messages(1)] Cons)
qed

lemma session_client_exchange: "only_calls session_call (client_exchange J E cfg msgs timer m)"
  unfolding client_exchange_def
  by (intro calls_intros session_exchange plain_is_session [OF plain_checks(3)]
      plain_is_session [OF plain_clock(4)] plain_is_session [OF plain_clock(5)])

lemma quiet_try_candidates:
  assumes "\<And>fd i fam. only_calls quiet (attempt fd i fam)"
  shows "only_calls quiet (try_candidates E attempt fams i le)"
proof (induction fams arbitrary: i le)
  case Nil
  then show ?case by (simp add: calls_intros)
next
  case (Cons fam fams)
  show ?case unfolding try_candidates.simps socket_close_def
    by (intro calls_intros Cons assms; simp)
qed

lemma quiet_client_open: "only_calls quiet (client_open E cfg)"
proof -
  have "only_calls plain (connect_candidate E t fd i fam)" for t fd i fam
    unfolding connect_candidate_def by (intro calls_intros plain_parts; simp)
  note cand = quiet_try_candidates [OF plain_is_quiet [OF this]]
  have "only_calls plain (resolve E host port b)" "only_calls plain (gai_strerror E rc)" for host port b rc
    unfolding resolve_def gai_strerror_def by (auto split: list.split intro!: calls_intros)
  note res = this [THEN plain_is_quiet]
  have verdict: "only_calls quiet (case r of Inl fd \<Rightarrow> returnIO fd | Inr e \<Rightarrow> throwIO Network (msg e) [])"
    for r :: "int + string" and msg
    by (auto split: sum.split intro: calls_intros)
  have "only_calls quiet (tcp_connect E host port t)" for host port t
    unfolding tcp_connect_def by (intro calls_intros only_calls_prod cand res verdict)
  then show ?thesis unfolding client_open_def
    by (intro calls_intros plain_is_quiet [OF plain_clock(1)] plain_is_quiet [OF plain_clock(2)] plain_is_quiet [OF plain_clock(3)])
qed

section \<open>The client as a gated session\<close>

lemma client_check_clears:
  assumes "client_check E cfg profile cached m tr = (Inr x, tr')"
  shows "\<exists>es. tr' = tr @ es \<and> cleared profile (cl_common cfg) True es"
proof -
  obtain outcome tr1 tr2 m2 where a: "inspect E tr = (Inr outcome, tr1)"
    and b: "enforce_peer_verification E (cl_common cfg) True tr1 = (Inr (), tr2)"
      "enforce_group_policy profile outcome = Inr ()" "client_cache E cfg cached m2 tr2 = (Inr x, tr')"
    using assms unfolding client_check_def Let_def by (elim bindIO_InrE liftE_InrE) simp
  obtain fs where fs: "tr' = tr2 @ fs" using plain_client_cache b(3) by (rule only_callsD)
  obtain es1 r where i: "tr1 = tr @ es1" "Ev (Ssl SSL_get0_group_name) (RStr r) \<in> set es1"
    "h_negotiated_group outcome = text_or_empty r" using inspect_group [OF a] by blast
  obtain es2 where p: "tr2 = tr1 @ es2" "peer_checked (cl_common cfg) True es2"
    using enforce_peer_verification_checked [OF b(1)] by blast
  have "cleared profile (cl_common cfg) True (es1 @ es2 @ fs)"
    using group_policy_checked [OF i(2) b(2) i(3)] p(2)
    by (auto simp: cleared_def group_checked_def peer_checked_def)
  then show ?thesis using i(1) p(1) fs by auto
qed

lemma client_establish_clears:
  assumes "client_establish E cfg profile cached fd m tr = (Inr x, tr @ es)"
  shows "cleared profile (cl_common cfg) True es"
proof -
  obtain p tr1 u tr2 m3 tr3 where a: "peer_address E fd tr = (Inr p, tr1)"
    "client_setup_ssl E cfg cached fd tr1 = (Inr u, tr2)"
    "client_handshake E cfg (m\<lparr>cm_peer_address := p\<rparr>) tr2 = (Inr m3, tr3)"
    "client_check E cfg profile cached m3 tr3 = (Inr x, tr @ es)"
    using assms unfolding client_establish_def by (auto simp: io_simps)
  obtain es1 where "tr1 = tr @ es1" using plain_socket_setup(3) a(1) by (rule only_callsD)
  moreover obtain es2 where "tr2 = tr1 @ es2" using plain_client_parts(1) a(2) by (rule only_callsD)
  moreover obtain es3 where "tr3 = tr2 @ es3" using plain_client_parts(2) a(3) by (rule only_callsD)
  moreover obtain es4 where "tr @ es = tr3 @ es4" "cleared profile (cl_common cfg) True es4"
    using client_check_clears [OF a(4)] by blast
  ultimately show ?thesis using cleared_append [of profile _ True "es1 @ es2 @ es3" es4] by simp
qed

interpretation client: gated_session "client_establish E cfg profile cached fd metrics" "\<lambda>x. True"
  "\<lambda>(m, c). client_exchange J E cfg messages timer m" "cleared profile (cl_common cfg) True"
  for E cfg profile cached fd metrics J messages timer
proof unfold_locales
  show "only_calls (\<lambda>c. \<not> app_data c) (client_establish E cfg profile cached fd metrics)"
    by (rule quiet_is_silent [OF plain_is_quiet [OF plain_client_establish]])
  show "only_calls (\<lambda>c. True) ((\<lambda>(m, c). client_exchange J E cfg messages timer m) x)" for x
    by (cases x) (simp add: only_calls_mono [OF session_client_exchange])
qed (auto intro: client_establish_clears cleared_append)

text \<open>A connection is the opening, the session, and the closing of its socket.\<close>

lemma connect_and_exchange_trace:
  "snd (connect_and_exchange J E cfg profile cached messages tr) =
     (case client_open E cfg tr of
        (Inl e, tr1) \<Rightarrow> tr1
      | (Inr (metrics, timer, fd), tr1) \<Rightarrow>
          snd (socket_close E fd (snd (bindIO (client_establish E cfg profile cached fd metrics)
            (\<lambda>(m, c). client_exchange J E cfg messages timer m) tr1))))"
  by (auto simp: connect_and_exchange_def bindIO_def split: prod.split sum.split)

lemma socket_close_trace: "snd (socket_close E fd tr) = tr @ (if fd \<ge> 0 then [Ev (Sys (Close fd)) RVoid] else [])"
  by (simp add: socket_close_def call_IO_def returnIO_def)

lemma connect_and_exchange_gated:
  "\<exists>es. snd (connect_and_exchange J E cfg profile cached messages tr) = tr @ es \<and>
     gated (cleared profile (cl_common cfg) True) es"
proof (cases "client_open E cfg tr")
  case (Pair r tr1)
  obtain es1 where es1: "tr1 = tr @ es1" "\<forall>e \<in> set es1. \<not> app_data (ev_call e)"
    using quiet_is_silent [OF quiet_client_open] Pair by (rule only_callsD)
  show ?thesis
  proof (cases r)
    case (Inl e)
    then show ?thesis using Pair es1 gated_quiet by (auto simp: connect_and_exchange_trace)
  next
    case (Inr x)
    obtain metrics timer fd where x: "x = (metrics, timer, fd)" by (cases x)
    obtain q tr2 where q: "bindIO (client_establish E cfg profile cached fd metrics)
        (\<lambda>(m, c). client_exchange J E cfg messages timer m) tr1 = (q, tr2)" by (metis prod.exhaust)
    obtain es2 where es2: "tr2 = tr1 @ es2" "gated (cleared profile (cl_common cfg) True) es2"
      using q by (rule client.session_gated)
    have "gated (cleared profile (cl_common cfg) True) (es1 @ es2)"
      by (rule gated_quiet_append [OF es1(2) es2(2)]) (simp add: cleared_append)
    then have "gated (cleared profile (cl_common cfg) True) ((es1 @ es2) @ (if fd \<ge> 0 then [Ev (Sys (Close fd)) RVoid] else []))"
      by (rule gated_append_quiet) simp
    then show ?thesis using Pair Inr x q es1(1) es2(1)
      by (simp add: connect_and_exchange_trace socket_close_trace)
  qed
qed

section \<open>Descriptors\<close>

lemma client_open_balanced:
  "\<exists>es. snd (client_open E cfg tr) = tr @ es \<and>
     (case fst (client_open E cfg tr) of Inl e \<Rightarrow> balanced es {#} | Inr (m, t, fd) \<Rightarrow> balanced es {#fd#} \<and> fd \<ge> 0)"
proof -
  define ids :: "(string \<times> string \<times> int) io" where "ids = bindIO (generate_uuid_v4 E) (\<lambda>cid. bindIO (iso8601_now E) (\<lambda>ts.
     bindIO (stopwatch_start E) (\<lambda>t. returnIO (cid, ts, t))))"
  have "only_calls plain ids" unfolding ids_def by (intro calls_intros plain_clock)
  moreover obtain r tr1 where r: "ids tr = (r, tr1)" by (cases "ids tr")
  ultimately obtain es1 where es1: "tr1 = tr @ es1" "\<forall>e \<in> set es1. plain (ev_call e)" by (rule only_callsD)
  then have quiet: "opened es1 = {#} \<and> closed es1 = {#}" by (intro keeps_fds_trace ballI plain_keeps_fds) blast
  define conn where "conn = tcp_connect E (cl_host cfg) (cl_port cfg) (cc_handshake_timeout_ms (cl_common cfg))"
  have split: "client_open E cfg = bindIO ids (\<lambda>(cid, ts, t). bindIO conn (\<lambda>fd.
     returnIO (ConnectionMetrics_default\<lparr>cm_connection_id := cid, cm_timestamp := ts, cm_role := Client,
         cm_requested_profile := cc_profile_id (cl_common cfg),
         cm_experiment_id := cc_experiment_id (cl_common cfg)\<rparr>, t, fd)))"
    by (rule ext) (simp add: client_open_def ids_def conn_def bindIO_def returnIO_def split: prod.split sum.split)
  show ?thesis
  proof (cases r)
    case (Inl e)
    then show ?thesis using r es1(1) quiet by (simp add: split bindIO_def balanced_def)
  next
    case (Inr x)
    obtain cid ts t where x: "x = (cid, ts, t)" by (cases x)
    obtain q tr2 where q: "conn tr1 = (q, tr2)" by (cases "conn tr1")
    obtain es2 where es2: "tr2 = tr1 @ es2" "balanced es2 (kept_fd q)"
      using tcp_connect_balanced [of E "cl_host cfg" "cl_port cfg" "cc_handshake_timeout_ms (cl_common cfg)" tr1] q
      by (auto simp: conn_def)
    have "q = Inr fd \<Longrightarrow> fd \<ge> 0" for fd using tcp_connect_valid q unfolding conn_def by blast
    then show ?thesis using r Inr x q es1(1) es2 quiet
      by (cases q) (auto simp: split bindIO_def returnIO_def balanced_def)
  qed
qed

lemma connect_and_exchange_balanced:
  "\<exists>es. snd (connect_and_exchange J E cfg profile cached messages tr) = tr @ es \<and> balanced es {#}"
proof -
  obtain r tr1 where r: "client_open E cfg tr = (r, tr1)" by (cases "client_open E cfg tr")
  obtain es1 where es1: "tr1 = tr @ es1"
    "case r of Inl e \<Rightarrow> balanced es1 {#} | Inr (m, t, fd) \<Rightarrow> balanced es1 {#fd#} \<and> fd \<ge> 0"
    using client_open_balanced [of E cfg tr] r by auto
  show ?thesis
  proof (cases r)
    case (Inl e)
    then show ?thesis using r es1 by (simp add: connect_and_exchange_trace)
  next
    case (Inr x)
    obtain metrics timer fd where x: "x = (metrics, timer, fd)" by (cases x)
    define body where "body = bindIO (client_establish E cfg profile cached fd metrics)
        (\<lambda>(m, c). client_exchange J E cfg messages timer m)"
    have "only_calls session_call body" unfolding body_def
      by (intro calls_intros only_calls_prod plain_is_session [OF plain_client_establish] session_client_exchange)
    moreover obtain q tr2 where q: "body tr1 = (q, tr2)" by (cases "body tr1")
    ultimately obtain es2 where es2: "tr2 = tr1 @ es2" "opened es2 = {#}" "closed es2 = {#}" by (rule session_balanced)
    show ?thesis using r Inr x q es1 es2
      by (simp add: connect_and_exchange_trace socket_close_trace balanced_def flip: body_def)
  qed
qed

section \<open>What is exchanged\<close>

lemma read_response_stream:
  assumes "read_response E d c tr = (Inr (text, d', c'), tr')" and "wf_decoder d"
  shows "\<exists>es. tr' = tr @ es \<and> split_frame (max_frame_size d) (pending d @ received es) = Inr (Some (text, pending d')) \<and>
    wf_decoder d' \<and> max_frame_size d' = max_frame_size d \<and> sent es = [] \<and> bytes_sent c' = bytes_sent c \<and>
    bytes_received c' = bytes_received c + of_nat (length (received es))"
  using assms
proof (induction E d c arbitrary: tr rule: read_response.induct)
  case (1 E d c)
  obtain r d1 where n: "next_frame d = (r, d1)" by (cases "next_frame d")
  consider (err) e where "r = Inl e" | (some) p where "r = Inr (Some p)" | (none) "r = Inr None"
    by (cases r; cases "projr r") auto
  then show ?case
  proof cases
    case err
    then show ?thesis using 1(2) n by (simp add: read_response.simps [of E d] liftE_def)
  next
    case some
    then have eq: "text = p" "d' = d1" "c' = c" "tr' = tr"
      using 1(2) n by (simp_all add: read_response.simps [of E d] returnIO_def)
    show ?thesis using dec.next_SomeE [OF 1(3), of p d1] n some eq by fastforce
  next
    case none
    have d1: "d1 = d" using dec.next_NoneD [OF 1(3)] n none by blast
    obtain bytes c1 tr1 where rd: "ssl_read_some E kReadChunk c tr = (Inr (bytes, c1), tr1)"
      and rest: "(if bytes = [] then throwIO Protocol ''the server closed the connection before a complete response frame arrived'' []
          else (case feed d1 bytes of (Inl e, d) \<Rightarrow> liftE (Inl e) | (Inr u, d) \<Rightarrow> read_response E d c1)) tr1
        = (Inr (text, d', c'), tr')"
      using 1(2) n none by (auto simp: read_response.simps [of E d] elim!: bindIO_InrE)
    obtain es1 where es1: "tr1 = tr @ es1" "received es1 = bytes" "sent es1 = []" "bytes_sent c1 = bytes_sent c"
      "bytes_received c1 = bytes_received c + of_nat (length bytes)" using ssl_read_some_stream [OF rd] by blast
    have ne: "bytes \<noteq> []" using rest by (auto simp: io_simps)
    obtain q d2 where f: "feed d1 bytes = (q, d2)" by (cases "feed d1 bytes")
    have q: "q = Inr ()" using rest ne f by (cases q) (auto simp: liftE_def)
    have rec: "read_response E d2 c1 tr1 = (Inr (text, d', c'), tr')" using rest ne f q by simp
    have d2: "pending d2 = pending d @ bytes" "wf_decoder d2" "max_frame_size d2 = max_frame_size d"
      using feed_pending_eq [OF 1(3), of bytes] f d1 by auto
    have "(r, d1) = next_frame d" "(q, d2) = feed d1 bytes" using n f by simp_all
    from 1(1) [OF this(1) none refl ne this(2) q rec d2(2)]
    obtain es2 where "tr' = tr1 @ es2" "split_frame (max_frame_size d) (pending d2 @ received es2) = Inr (Some (text, pending d'))"
      "wf_decoder d' \<and> max_frame_size d' = max_frame_size d \<and> sent es2 = [] \<and> bytes_sent c' = bytes_sent c1 \<and>
       bytes_received c' = bytes_received c1 + of_nat (length (received es2))"
      using d2(3) by auto
    then show ?thesis using es1 d2(1) by (intro exI [of _ "es1 @ es2"]) simp
  qed
qed

text \<open>
  The messages that go out (all up to the first \<open>close\<close>), and those that get a response.
\<close>

fun requests :: "'j Message list \<Rightarrow> 'j Message list" where
  "requests [] = []"
| "requests (m # ms) = (if m_type m = Close_message then [m] else m # requests ms)"

definition answered :: "'j Message list \<Rightarrow> 'j Message list" where
  "answered ms = takeWhile (\<lambda>m. m_type m \<noteq> Close_message) ms"

lemma after_simps:
  "x_decoder (after_send st c) = x_decoder st" "x_counters (after_send st c) = c"
  "x_responses (after_send st c) = x_responses st"
  "x_decoder (after_response st d c r) = d" "x_counters (after_response st d c r) = c"
  "x_responses (after_response st d c r) = x_responses st @ [r]"
  by (simp_all add: after_send_def after_response_def)

lemma exchange_stream:
  assumes "exchange_messages J E m msgs st tr = (Inr st', tr')"
    and "wf_decoder (x_decoder st)" and "max_frame_size (x_decoder st) = m"
  shows "\<exists>es frames texts resp rest. tr' = tr @ es \<and>
     list_all2 (frame_for J m) (requests msgs) frames \<and> sent es = concat frames \<and>
     x_responses st' = x_responses st @ resp \<and> list_all2 (reads_as J E) texts resp \<and>
     length resp = length (answered msgs) \<and>
     fst (frames_of m (pending (x_decoder st) @ received es)) = texts @ rest \<and>
     bytes_sent (x_counters st') = bytes_sent (x_counters st) + of_nat (length (sent es)) \<and>
     bytes_received (x_counters st') = bytes_received (x_counters st) + of_nat (length (received es))"
  using assms
proof (induction msgs arbitrary: st tr)
  case Nil
  show ?case
    by (rule exI [of _ "[]"], rule exI [of _ "[]"], rule exI [of _ "[]"], rule exI [of _ "[]"],
        rule exI [of _ "fst (frames_of m (pending (x_decoder st)))"])
       (use Nil in \<open>simp add: returnIO_eq answered_def\<close>)
next
  case (Cons msg msgs)
  obtain c1 tr1 where s: "send_message J E m msg (x_counters st) tr = (Inr c1, tr1)"
    using Cons.prems(1) unfolding exchange_messages.simps by (elim bindIO_InrE)
  obtain es1 f where es1: "tr1 = tr @ es1" "frame_for J m msg f" "sent es1 = f" "received es1 = []"
    "c1 = (x_counters st)\<lparr>bytes_sent := bytes_sent (x_counters st) + of_nat (length f)\<rparr>"
    using send_message_stream [OF s] by blast
  show ?case
  proof (cases "m_type msg = Close_message")
    case True
    then have st': "st' = after_send st c1" "tr' = tr1"
      using Cons.prems(1) s by (simp_all add: bindIO_def returnIO_def)
    show ?thesis
      by (rule exI [of _ es1], rule exI [of _ "[f]"], rule exI [of _ "[]"], rule exI [of _ "[]"],
          rule exI [of _ "fst (frames_of m (pending (x_decoder st)))"])
         (use True es1 st' in \<open>simp add: answered_def after_simps\<close>)
  next
    case False
    let ?st = "\<lambda>d c2 response. after_response (after_send st c1) d c2 response"
    obtain body d c2 tr2 response tr3 where r: "read_response E (x_decoder st) c1 tr1 = (Inr (body, d, c2), tr2)"
      "parse J E body tr2 = (Inr response, tr3)" "exchange_messages J E m msgs (?st d c2 response) tr3 = (Inr st', tr')"
      using Cons.prems(1) s False by (auto elim!: bindIO_InrE)
    obtain es2 where es2: "tr2 = tr1 @ es2"
      "split_frame m (pending (x_decoder st) @ received es2) = Inr (Some (body, pending d))"
      "wf_decoder d" "max_frame_size d = m" "sent es2 = []" "bytes_sent c2 = bytes_sent c1"
      "bytes_received c2 = bytes_received c1 + of_nat (length (received es2))"
      using read_response_stream [OF r(1) Cons.prems(2)] Cons.prems(3) by auto
    obtain es3 where es3: "tr3 = tr2 @ es3" "sent es3 = []" "received es3 = []"
      using plain_messages(1) r(2) no_app_data_trace plain_quiet by (metis only_callsD)
    obtain es4 frames texts resp tail where es4: "tr' = tr3 @ es4" "list_all2 (frame_for J m) (requests msgs) frames"
      "sent es4 = concat frames" "x_responses st' = (x_responses st @ [response]) @ resp" "list_all2 (reads_as J E) texts resp"
      "length resp = length (answered msgs)" "fst (frames_of m (pending d @ received es4)) = texts @ tail"
      "bytes_sent (x_counters st') = bytes_sent c2 + of_nat (length (sent es4))"
      "bytes_received (x_counters st') = bytes_received c2 + of_nat (length (received es4))"
      using Cons.IH [OF r(3)] es2(3,4) by (auto simp: after_simps)
    have ra: "reads_as J E body response" using r(2) by (auto simp: reads_as_def)
    have fr: "fst (frames_of m (pending (x_decoder st) @ received es2 @ received es4)) = body # texts @ tail"
      using frames_of_split [OF es2(2)] es4(7) by simp
    show ?thesis
      by (rule exI [of _ "es1 @ es2 @ es3 @ es4"], rule exI [of _ "f # frames"], rule exI [of _ "body # texts"],
          rule exI [of _ "response # resp"], rule exI [of _ tail])
         (use False es1 es2 es3 es4 ra fr in \<open>simp add: answered_def\<close>)
  qed
qed

lemma client_exchange_stream:
  fixes cfg
  defines "m \<equiv> cc_max_frame_size (cl_common cfg)"
  assumes "client_exchange J E cfg messages timer metrics tr = (Inr result, tr')"
  shows "\<exists>es frames texts rest. tr' = tr @ es \<and> list_all2 (frame_for J m) (requests messages) frames \<and>
     sent es = concat frames \<and> list_all2 (reads_as J E) texts (r_responses result) \<and>
     length (r_responses result) = length (answered messages) \<and> fst (frames_of m (received es)) = texts @ rest \<and>
     cm_application_bytes_sent (r_metrics result) = of_nat (length (sent es)) \<and>
     cm_application_bytes_received (r_metrics result) = of_nat (length (received es)) \<and>
     r_ok result \<and> cm_success (r_metrics result) \<and> cm_error_category (r_metrics result) = None_category"
proof -
  obtain d st tr1 u tr2 ns tr3 m3 where a: "mk_Decoder m = Inr d"
    "exchange_messages J E m messages \<lparr>x_metrics = metrics, x_decoder = d, x_counters = IoCounters_zero, x_responses = []\<rparr> tr = (Inr st, tr1)"
    "ssl_graceful_shutdown E tr1 = (Inr u, tr2)" "elapsed_ns E timer tr2 = (Inr ns, tr3)"
    "sample_usage E ((x_metrics st)\<lparr>cm_application_bytes_sent := bytes_sent (x_counters st),
               cm_application_bytes_received := bytes_received (x_counters st), cm_connection_ns := ns\<rparr>) tr3 = (Inr m3, tr')"
    and result: "result = \<lparr>r_ok = True, r_metrics = m3\<lparr>cm_success := True, cm_error_category := None_category\<rparr>,
               r_responses = x_responses st\<rparr>"
    using assms(2) unfolding client_exchange_def m_def [symmetric]
    by (elim bindIO_InrE liftE_InrE) (simp only: returnIO_eq)
  note d = mk_Decoder_fresh [OF a(1)]
  obtain es1 frames texts resp rest where es1: "tr1 = tr @ es1" "list_all2 (frame_for J m) (requests messages) frames"
    "sent es1 = concat frames" "x_responses st = resp" "list_all2 (reads_as J E) texts resp"
    "length resp = length (answered messages)" "fst (frames_of m (received es1)) = texts @ rest"
    "bytes_sent (x_counters st) = of_nat (length (sent es1))" "bytes_received (x_counters st) = of_nat (length (received es1))"
    using exchange_stream [OF a(2)] d by (auto simp: wf_decoder_def pending_def IoCounters_zero_def)
  define tail where "tail = (bindIO (ssl_graceful_shutdown E) (\<lambda>_. bindIO (elapsed_ns E timer) (\<lambda>ns.
     sample_usage E ((x_metrics st)\<lparr>cm_application_bytes_sent := bytes_sent (x_counters st),
               cm_application_bytes_received := bytes_received (x_counters st), cm_connection_ns := ns\<rparr>))))"
  have "only_calls plain tail" unfolding tail_def by (intro calls_intros plain_parts)
  moreover have "tail tr1 = (Inr m3, tr')" using a(3-5) by (simp add: tail_def bindIO_def)
  ultimately obtain es2 where "tr' = tr1 @ es2" "sent es2 = []" "received es2 = []"
    using no_app_data_trace plain_quiet by (metis only_callsD)
  then show ?thesis using es1 sample_usage_keeps [OF a(5)] result
    by (intro exI [of _ "es1 @ es2"] exI [of _ frames] exI [of _ texts] exI [of _ rest]) simp
qed

section \<open>The result and its record\<close>

lemma exchange_negotiation:
  "exchange_messages J E m msgs st tr = (Inr st', tr') \<Longrightarrow> negotiation_of (x_metrics st') = negotiation_of (x_metrics st)"
proof (induction msgs arbitrary: st tr)
  case (Cons msg msgs)
  have keep: "negotiation_of (x_metrics (after_send st c)) = negotiation_of (x_metrics st)"
    "negotiation_of (x_metrics (after_response (after_send st c) d c2 r)) = negotiation_of (x_metrics st)" for c d c2 r
    by (simp_all add: after_send_def after_response_def)
  show ?case
    using Cons.prems Cons.IH keep by (auto elim!: bindIO_InrE simp: returnIO_eq split: if_splits)
qed (simp add: returnIO_eq)

lemma client_check_negotiated:
  assumes "client_check E cfg profile cached m tr = (Inr (m', c), tr')"
  shows "negotiated_under profile m'"
proof -
  obtain outcome m1 tr1 where o: "enforce_group_policy profile outcome = Inr ()"
    "m1 = (populate_negotiation_fields m profile outcome)\<lparr>cm_negotiated_profile := profile_id profile\<rparr>"
    "client_cache E cfg cached m1 tr1 = (Inr (m', c), tr')"
    using assms unfolding client_check_def Let_def by (auto elim!: bindIO_InrE liftE_InrE)
  have "m' = m1" using o(3) by (auto simp: client_cache_def io_simps split: if_splits)
  moreover have "permits_negotiated_group profile (h_negotiated_group outcome)"
    using o(1) by (auto simp: enforce_group_policy_def throw_sub_def split: if_splits)
  ultimately show ?thesis using o(2)
    by (simp add: negotiated_under_def negotiation_of_def populate_negotiation_fields_def Let_def)
qed

lemma client_exchange_negotiation:
  assumes "client_exchange J E cfg messages timer metrics tr = (Inr result, tr')"
  shows "negotiation_of (r_metrics result) = negotiation_of metrics"
  using assms unfolding client_exchange_def
  by (elim bindIO_InrE liftE_InrE) (auto simp: returnIO_eq dest!: exchange_negotiation sample_usage_negotiation)

lemma connect_and_exchange_no_records:
  "\<exists>es. snd (connect_and_exchange J E cfg profile cached messages tr) = tr @ es \<and> records es = []"
proof -
  obtain r tr1 where r: "client_open E cfg tr = (r, tr1)" by (cases "client_open E cfg tr")
  obtain es1 where es1: "tr1 = tr @ es1" "\<forall>e \<in> set es1. quiet (ev_call e)"
    using quiet_client_open r by (rule only_callsD)
  have n1: "records es1 = []" using es1(2) by (intro no_records) (simp add: quiet_def)
  show ?thesis
  proof (cases r)
    case (Inl e)
    then show ?thesis using r es1 n1 by (simp add: connect_and_exchange_trace)
  next
    case (Inr x)
    obtain metrics timer fd where x: "x = (metrics, timer, fd)" by (cases x)
    define body where "body = bindIO (client_establish E cfg profile cached fd metrics)
        (\<lambda>(m, c). client_exchange J E cfg messages timer m)"
    have "only_calls session_call body" unfolding body_def
      by (intro calls_intros only_calls_prod plain_is_session [OF plain_client_establish] session_client_exchange)
    moreover obtain q tr2 where q: "body tr1 = (q, tr2)" by (cases "body tr1")
    ultimately obtain es2 where es2: "tr2 = tr1 @ es2" "\<forall>e \<in> set es2. session_call (ev_call e)" by (rule only_callsD)
    then have "records es2 = []" by (intro no_records) (simp add: session_no_metrics)
    then show ?thesis using r Inr x q es1(1) es2(1) n1
      by (simp add: connect_and_exchange_trace socket_close_trace flip: body_def)
  qed
qed

lemma connect_and_exchange_InrE:
  assumes "connect_and_exchange J E cfg profile cached messages tr = ((Inr result, c), tr')"
  obtains m timer fd tr1 m2 tr2 tr3 where "client_open E cfg tr = (Inr (m, timer, fd), tr1)"
    "client_establish E cfg profile cached fd m tr1 = (Inr (m2, c), tr2)"
    "client_exchange J E cfg messages timer m2 tr2 = (Inr result, tr3)" "tr' = snd (socket_close E fd tr3)"
proof (cases "client_open E cfg tr")
  case (Pair r tr1)
  then obtain m timer fd where r: "r = Inr (m, timer, fd)"
    using assms by (cases r) (auto simp: connect_and_exchange_def)
  obtain q tr2 where q: "client_establish E cfg profile cached fd m tr1 = (q, tr2)"
    by (cases "client_establish E cfg profile cached fd m tr1")
  then obtain m2 c2 where q2: "q = Inr (m2, c2)"
    using assms Pair r by (cases q) (auto simp: connect_and_exchange_def)
  obtain y tr3 where y: "client_exchange J E cfg messages timer m2 tr2 = (y, tr3)"
    by (cases "client_exchange J E cfg messages timer m2 tr2")
  show thesis using assms Pair r q q2 y that by (simp add: connect_and_exchange_def)
qed

lemma connect_and_exchange_ok:
  assumes "connect_and_exchange J E cfg profile cached messages tr = ((Inr result, c), tr')"
  shows "r_ok result \<and> cm_success (r_metrics result) \<and> cm_error_category (r_metrics result) = None_category"
proof (rule connect_and_exchange_InrE [OF assms])
  fix m timer fd tr1 m2 tr2 tr3
  assume "client_exchange J E cfg messages timer m2 tr2 = (Inr result, tr3)"
  from client_exchange_stream [OF this] show ?thesis by blast
qed

lemma connect_and_exchange_negotiated:
  assumes "connect_and_exchange J E cfg profile cached messages tr = ((Inr result, c), tr')"
  shows "negotiated_under profile (r_metrics result)"
proof (rule connect_and_exchange_InrE [OF assms])
  fix m timer fd tr1 m2 tr2 tr3
  assume a: "client_establish E cfg profile cached fd m tr1 = (Inr (m2, c), tr2)"
    "client_exchange J E cfg messages timer m2 tr2 = (Inr result, tr3)"
  have "negotiated_under profile m2"
    using a(1) client_check_negotiated unfolding client_establish_def by (elim bindIO_InrE) blast
  then show ?thesis using negotiated_under_cong [OF client_exchange_negotiation [OF a(2)]] by simp
qed

lemma finish_result_fields:
  assumes "finish_result J E cfg w result tr = (Inr result', tr')"
  shows "r_ok result' = r_ok result \<and> r_responses result' = r_responses result \<and>
    cm_success (r_metrics result') = cm_success (r_metrics result) \<and>
    cm_error_category (r_metrics result') = cm_error_category (r_metrics result) \<and>
    cm_error_message (r_metrics result') = cm_error_message (r_metrics result) \<and>
    negotiation_of (r_metrics result') = negotiation_of (r_metrics result) \<and>
    cm_role (r_metrics result') = Client \<and> cm_requested_profile (r_metrics result') = cc_profile_id (cl_common cfg) \<and>
    cm_experiment_id (r_metrics result') = cc_experiment_id (cl_common cfg) \<and>
    (stream_open E \<longrightarrow> (\<exists>es. tr' = tr @ es \<and> recorded J w (r_metrics result') es))"
proof -
  let ?cid = "if cm_connection_id (r_metrics result) = '''' then generate_uuid_v4 E
             else returnIO (cm_connection_id (r_metrics result))"
  let ?ts = "if cm_timestamp (r_metrics result) = '''' then iso8601_now E
             else returnIO (cm_timestamp (r_metrics result))"
  obtain cid tr1 ts tr2 where a: "?cid tr = (Inr cid, tr1)" "?ts tr1 = (Inr ts, tr2)"
    and w: "record_metrics J E w (complete_metrics cfg cid ts (r_metrics result)) tr2 = (Inr (), tr')"
    and res: "result' = result\<lparr>r_metrics := complete_metrics cfg cid ts (r_metrics result)\<rparr>"
    using assms unfolding finish_result_def Let_def by (elim bindIO_InrE) (simp add: returnIO_eq)
  have "only_calls plain ?cid" "only_calls plain ?ts" by (intro calls_intros plain_clock)+
  then obtain es1 es2 where es: "tr1 = tr @ es1" "records es1 = []" "tr2 = tr1 @ es2" "records es2 = []"
    using a no_records plain_no_metrics by (metis only_callsD)
  have "stream_open E \<longrightarrow> (\<exists>es. tr' = tr @ es \<and> recorded J w (r_metrics result') es)"
  proof
    assume "stream_open E"
    from record_metrics_recorded [OF w this] obtain es3 where "tr' = tr2 @ es3" "recorded J w (r_metrics result') es3"
      using res by auto
    then show "\<exists>es. tr' = tr @ es \<and> recorded J w (r_metrics result') es"
      using es recorded_after [of "es1 @ es2"] by (intro exI [of _ "(es1 @ es2) @ es3"]) simp
  qed
  then show ?thesis using res by (simp add: complete_metrics_def negotiation_of_def)
qed

text \<open>What a successful connection sent and received.\<close>

lemma connect_and_exchange_stream:
  assumes "connect_and_exchange J E cfg profile cached messages tr = ((Inr result, c), tr')"
  shows "\<exists>es frames texts rest. tr' = tr @ es \<and>
    list_all2 (frame_for J (cc_max_frame_size (cl_common cfg))) (requests messages) frames \<and> sent es = concat frames \<and>
    list_all2 (reads_as J E) texts (r_responses result) \<and> length (r_responses result) = length (answered messages) \<and>
    fst (frames_of (cc_max_frame_size (cl_common cfg)) (received es)) = texts @ rest \<and>
    cm_application_bytes_sent (r_metrics result) = of_nat (length (sent es)) \<and>
    cm_application_bytes_received (r_metrics result) = of_nat (length (received es))"
proof (rule connect_and_exchange_InrE [OF assms])
  fix m timer fd tr1 m2 tr2 tr3
  assume a: "client_open E cfg tr = (Inr (m, timer, fd), tr1)"
    "client_establish E cfg profile cached fd m tr1 = (Inr (m2, c), tr2)"
    "client_exchange J E cfg messages timer m2 tr2 = (Inr result, tr3)" "tr' = snd (socket_close E fd tr3)"
  obtain es1 where e1: "tr1 = tr @ es1" "\<forall>e \<in> set es1. \<not> app_data (ev_call e)"
    using quiet_is_silent [OF quiet_client_open] a(1) by (rule only_callsD)
  obtain es2 where e2: "tr2 = tr1 @ es2" "\<forall>e \<in> set es2. \<not> app_data (ev_call e)"
    using client.establish_quiet a(2) by (rule only_callsD)
  note pre = e1(1) e2(1) no_app_data_trace [OF e1(2)] no_app_data_trace [OF e2(2)]
  obtain es3 frames texts rest where "tr3 = tr2 @ es3"
    "list_all2 (frame_for J (cc_max_frame_size (cl_common cfg))) (requests messages) frames" "sent es3 = concat frames"
    "list_all2 (reads_as J E) texts (r_responses result)" "length (r_responses result) = length (answered messages)"
    "fst (frames_of (cc_max_frame_size (cl_common cfg)) (received es3)) = texts @ rest"
    "cm_application_bytes_sent (r_metrics result) = of_nat (length (sent es3))"
    "cm_application_bytes_received (r_metrics result) = of_nat (length (received es3))"
    using client_exchange_stream [OF a(3)] by blast
  then show ?thesis using pre a(4)
    by (intro exI [of _ "es1 @ es2 @ es3 @ (if fd \<ge> 0 then [Ev (Sys (Close fd)) RVoid] else [])"]
        exI [of _ frames] exI [of _ texts] exI [of _ rest]) (simp add: socket_close_trace)
qed

text \<open>What a run returns, and what it records.\<close>

lemma run_once_facts:
  assumes "run_once J E cfg profile w cached messages tr = ((Inr result, c), tr')" and "stream_open E"
  shows "r_ok result = cm_success (r_metrics result) \<and>
    (r_ok result \<longrightarrow> cm_error_category (r_metrics result) = None_category \<and> negotiated_under profile (r_metrics result)) \<and>
    (\<not> r_ok result \<longrightarrow> r_responses result = [] \<and> cm_error_message (r_metrics result) \<noteq> None) \<and>
    cm_role (r_metrics result) = Client \<and> cm_requested_profile (r_metrics result) = cc_profile_id (cl_common cfg) \<and>
    cm_experiment_id (r_metrics result) = cc_experiment_id (cl_common cfg) \<and>
    (\<exists>es. tr' = tr @ es \<and> recorded J w (r_metrics result) es)"
proof -
  obtain r c1 tr1 where conn: "connect_and_exchange J E cfg profile cached messages tr = ((r, c1), tr1)"
    by (metis prod.exhaust)
  obtain es1 where es1: "tr1 = tr @ es1" "records es1 = []"
    using connect_and_exchange_no_records [of J E cfg profile cached messages tr] conn by auto
  define raw where "raw = (case r of Inr x \<Rightarrow> x | Inl e \<Rightarrow> failed_result e)"
  have fin: "finish_result J E cfg w raw tr1 = (Inr result, tr')"
    using assms(1) conn by (auto simp: run_once_def raw_def split: sum.splits prod.splits if_splits)
  have neg: "r_ok raw \<Longrightarrow> negotiated_under profile (r_metrics raw)"
    using connect_and_exchange_negotiated conn by (cases r; fastforce simp: raw_def failed_result_def ClientResult_default_def)
  have raw: "r_ok raw = cm_success (r_metrics raw)" "r_ok raw \<Longrightarrow> cm_error_category (r_metrics raw) = None_category"
    "\<not> r_ok raw \<Longrightarrow> r_responses raw = [] \<and> cm_error_message (r_metrics raw) \<noteq> None"
    using connect_and_exchange_ok conn
    by (cases r; fastforce simp: raw_def failed_result_def ClientResult_default_def)+
  have "negotiation_of (r_metrics result) = negotiation_of (r_metrics raw)" using finish_result_fields [OF fin] by blast
  then have "r_ok result \<Longrightarrow> negotiated_under profile (r_metrics result)"
    using neg negotiated_under_cong finish_result_fields [OF fin] by metis
  then show ?thesis using finish_result_fields [OF fin] raw es1 recorded_after [OF es1(2)] assms(2) by auto
qed

section \<open>Properties\<close>

text \<open>
  C2.  No application data before the policy has been enforced: whatever the peer and the libraries
  do, every \<open>SSL_write\<close> and \<open>SSL_read\<close> of a client connection comes after the negotiated
  group was read and found permitted by the profile and, unless the insecure development mode is on,
  after the verification result was read as \<open>X509_V_OK\<close> and a peer certificate was there.  Every descriptor the connection opened
  is closed when it ends, however it ends.
\<close>

theorem client_data_after_policy:
  "(\<exists>es. snd (connect_and_exchange J E cfg profile cached messages tr) = tr @ es \<and>
     gated (cleared profile (cl_common cfg) True) es \<and> opened es = closed es)"
  using connect_and_exchange_gated [of J E cfg profile cached messages tr]
    connect_and_exchange_balanced [of J E cfg profile cached messages tr]
  by (auto simp: balanced_def)

text \<open>
  C15.  A successful exchange is complete: what went out is exactly the frames of the messages up to the
  first \<open>close\<close>, in order; there is one response per message that is not a \<open>close\<close>; the
  responses are what \<open>Message::parse\<close> makes of the first frames of the received stream; and the
  byte counts of the metrics are those of the stream (modulo \<open>2 ^ 64\<close>).
\<close>

theorem client_exchange_complete:
  assumes "connect_and_exchange J E cfg profile cached messages tr = ((Inr result, c), tr')"
  shows "\<exists>es frames texts rest. tr' = tr @ es \<and>
    list_all2 (frame_for J (cc_max_frame_size (cl_common cfg))) (requests messages) frames \<and> sent es = concat frames \<and>
    list_all2 (reads_as J E) texts (r_responses result) \<and> length (r_responses result) = length (answered messages) \<and>
    fst (frames_of (cc_max_frame_size (cl_common cfg)) (received es)) = texts @ rest \<and>
    cm_application_bytes_sent (r_metrics result) = of_nat (length (sent es)) \<and>
    cm_application_bytes_received (r_metrics result) = of_nat (length (received es))"
  by (rule connect_and_exchange_stream [OF assms])

definition loop_connection :: "(jvalue ClientResult result \<times> int option) \<times> trace" where
  "loop_connection = connect_and_exchange terse_json loop_env ClientConfig_default hybrid_profile None [ping_message] []"

lemma run_outcome:
  assumes "case fst (fst x) of Inr r \<Rightarrow> P r | Inl e \<Rightarrow> False"
  obtains r c tr where "x = ((Inr r, c), tr)" "P r"
  using assms by (cases x) (auto split: sum.splits)

lemma loop_connection_ok: "case fst (fst loop_connection) of Inr r \<Rightarrow> r_ok r | Inl e \<Rightarrow> False"
  by code_simp

theorem client_exchange_complete_witness:
  "\<exists>result c tr'. loop_connection = ((Inr result, c), tr') \<and> length (r_responses result) = 1 \<and>
     cm_application_bytes_sent (r_metrics result) = of_nat (length (sent tr'))"
proof -
  obtain result c tr' where r: "loop_connection = ((Inr result, c), tr')"
    using loop_connection_ok by (rule run_outcome)
  have "length (answered [ping_message]) = 1" by (simp add: answered_def ping_message_def)
  then show ?thesis using r client_exchange_complete [OF r [unfolded loop_connection_def]] by fastforce
qed

text \<open>
  C27.  Every run leaves one truthful record: when \<open>run_once\<close> returns, the result is marked ok
  exactly when its metrics say success, a failure carries its message and no responses, the record
  names the client's role, profile and experiment, a success names a group that the profile permits and
  classifies it correctly, and, while the metrics stream is open, exactly one line was written for it,
  the rendering of the returned metrics (none without a writer).
\<close>

theorem run_once_record:
  assumes "run_once J E cfg profile w cached messages tr = ((Inr result, c), tr')" and "stream_open E"
  shows "r_ok result = cm_success (r_metrics result) \<and>
    (r_ok result \<longrightarrow> cm_error_category (r_metrics result) = None_category \<and> negotiated_under profile (r_metrics result)) \<and>
    (\<not> r_ok result \<longrightarrow> r_responses result = [] \<and> cm_error_message (r_metrics result) \<noteq> None) \<and>
    cm_role (r_metrics result) = Client \<and> cm_requested_profile (r_metrics result) = cc_profile_id (cl_common cfg) \<and>
    cm_experiment_id (r_metrics result) = cc_experiment_id (cl_common cfg) \<and>
    (\<exists>es. tr' = tr @ es \<and> recorded J w (r_metrics result) es)"
  by (rule run_once_facts [OF assms])

definition loop_run :: "(jvalue ClientResult result \<times> int option) \<times> trace" where
  "loop_run = run_once terse_json loop_env ClientConfig_default hybrid_profile True None [ping_message] []"

lemma loop_run_ok: "case fst (fst loop_run) of Inr r \<Rightarrow> r_ok r | Inl e \<Rightarrow> False"
  by code_simp

theorem run_once_record_witness:
  "\<exists>result c tr'. loop_run = ((Inr result, c), tr') \<and> cm_success (r_metrics result) \<and>
     recorded terse_json True (r_metrics result) tr'"
proof -
  obtain result c tr' where r: "loop_run = ((Inr result, c), tr')" "r_ok result"
    using loop_run_ok by (rule run_outcome)
  from run_once_record [OF r(1) [unfolded loop_run_def] stream_open_loop_env] r show ?thesis by auto
qed

end
