(* ===== verification/Server.thy ===== *)
theory Server
  imports Session "HOL-Library.Code_Target_Nat"
begin

text \<open>
  The server's side of one connection: \<open>src/server/server.cpp\<close>, \<open>handle_message\<close>,
  \<open>handle_connection\<close>, the constructor and the start of \<open>run\<close>.  The metrics object of a
  connection is filled in by the \<open>try\<close> block and read after its handlers, so what was measured
  before an exception survives it: the block is a state action, from the metrics to a result and the
  metrics.  The pool of workers is in \<open>ServerPool\<close>.
\<close>

section \<open>State actions\<close>

type_synonym ('s, 'a) sio = "'s \<Rightarrow> ('a result \<times> 's) io"

definition returnS :: "'a \<Rightarrow> ('s, 'a) sio" where
  "returnS x s = returnIO (Inr x, s)"

definition bindS :: "('s, 'a) sio \<Rightarrow> ('a \<Rightarrow> ('s, 'b) sio) \<Rightarrow> ('s, 'b) sio" where
  "bindS m f s = bindIO (m s) (\<lambda>(r, s'). case r of Inl e \<Rightarrow> returnIO (Inl e, s') | Inr x \<Rightarrow> f x s')"

text \<open>An action that does not touch the state; an exception is a value of the pair.\<close>

definition liftS :: "'a io \<Rightarrow> ('s, 'a) sio" where
  "liftS m s tr = (case m tr of (r, tr') \<Rightarrow> (Inr (r, s), tr'))"

definition modifyS :: "('s \<Rightarrow> 's) \<Rightarrow> ('s, unit) sio" where
  "modifyS f s = returnIO (Inr (), f s)"

section \<open>Replies\<close>

definition kServerReadChunk :: nat where
  "kServerReadChunk = 16 * 1024"

definition build_capabilities_payload ::
  "('j, 'z) json_api_scheme \<Rightarrow> SecurityProfile \<Rightarrow> HandshakeOutcome \<Rightarrow> 'j" where
  "build_capabilities_payload J profile outcome =
     (let payload = j_set J (j_null J) ''server_profile'' (j_of_string J (profile_id profile));
          payload = j_set J payload ''tls_version'' (j_of_string J (h_tls_version outcome));
          payload = j_set J payload ''negotiated_group'' (j_of_string J (h_negotiated_group outcome));
          payload = j_set J payload ''cipher_suite'' (j_of_string J (h_cipher_suite outcome));
          payload = j_set J payload ''pq_key_establishment'' (j_of_bool J (is_post_quantum_group (h_negotiated_group outcome)));
          payload = j_set J payload ''hybrid_key_establishment'' (j_of_bool J (is_hybrid_group (h_negotiated_group outcome)));
          payload = j_set J payload ''authentication''
            (j_of_string J (to_string_AuthenticationType (d_authentication (def_of profile))))
      in j_set J payload ''pq_authentication''
           (j_of_bool J (is_post_quantum_authentication (d_authentication (def_of profile)))))"

definition handle_message ::
  "('j, 'z) json_api_scheme \<Rightarrow> 'e env_scheme \<Rightarrow> 'j Message \<Rightarrow> SecurityProfile \<Rightarrow> HandshakeOutcome \<Rightarrow>
     'j Message option io" where
  "handle_message J E request profile outcome =
     (case m_type request of
        Ping \<Rightarrow> bindIO (make_acknowledgement J E request ''accepted'') (\<lambda>reply.
          returnIO (Some (reply\<lparr>m_type := Pong\<rparr>)))
      | Echo \<Rightarrow> bindIO (make_acknowledgement J E request ''accepted'') (\<lambda>reply.
          returnIO (Some (reply\<lparr>m_payload := m_payload request\<rparr>)))
      | Telemetry \<Rightarrow> bindIO (make_acknowledgement J E request ''accepted'') (\<lambda>reply. returnIO (Some reply))
      | Capabilities \<Rightarrow> bindIO (make_acknowledgement J E request ''accepted'') (\<lambda>reply.
          returnIO (Some (reply\<lparr>m_payload := build_capabilities_payload J profile outcome\<rparr>)))
      | Close_message \<Rightarrow> returnIO None
      | _ \<Rightarrow> bindIO (make_error J E (Some request) (''message type '' @ quoted (to_string_MessageType (m_type request)) @
              '' is a response type and is not accepted from a client'')) (\<lambda>reply. returnIO (Some reply)))"

text \<open>
  The inner \<open>try\<close> of the application loop: the reply, and whether the connection is closing.
\<close>

definition server_reply ::
  "('j, 'z) json_api_scheme \<Rightarrow> 'e env_scheme \<Rightarrow> SecurityProfile \<Rightarrow> HandshakeOutcome \<Rightarrow> string \<Rightarrow>
     ('j Message option \<times> bool) io" where
  "server_reply J E profile outcome frame =
     catchIO
       (bindIO (parse J E frame) (\<lambda>request.
        bindIO (handle_message J E request profile outcome) (\<lambda>reply.
        returnIO (reply, case reply of None \<Rightarrow> True | Some r \<Rightarrow> False))))
       is_ProtocolError
       (\<lambda>e. bindIO (make_error J E None (exn_message e)) (\<lambda>reply. returnIO (Some reply, True)))"

section \<open>One connection\<close>

definition server_handshake :: "'e env_scheme \<Rightarrow> string \<Rightarrow> (ConnectionMetrics, unit) sio" where
  "server_handshake E peer =
     bindS (liftS (stopwatch_start E)) (\<lambda>timer.
     bindS (liftS (ext_int E (Ssl SSL_accept))) (\<lambda>handshake_result.
     bindS (liftS (elapsed_ns E timer)) (\<lambda>ns.
     bindS (modifyS (\<lambda>m. m\<lparr>cm_handshake_ns := ns\<rparr>)) (\<lambda>_.
     if handshake_result \<noteq> 1
     then liftS
       (bindIO (drain_openssl_errors E) (\<lambda>details.
        bindIO (ext_int E (Ssl SSL_get_verify_result)) (\<lambda>verify_result.
        if verify_result \<noteq> kX509VOk
        then bindIO (describe_verify_result E verify_result) (\<lambda>t.
               throwIO Certificate (''client certificate verification failed: '' @ t) details)
        else throwIO Handshake (''TLS handshake with '' @ peer @ '' failed'') details)))
     else returnS ()))))"

definition server_negotiation_fields ::
  "SecurityProfile \<Rightarrow> HandshakeOutcome \<Rightarrow> ConnectionMetrics \<Rightarrow> ConnectionMetrics" where
  "server_negotiation_fields profile outcome metrics =
     metrics\<lparr>cm_tls_version := h_tls_version outcome, cm_negotiated_group := h_negotiated_group outcome,
       cm_cipher_suite := h_cipher_suite outcome, cm_session_reused := h_session_reused outcome,
       cm_authentication := to_string_AuthenticationType (d_authentication (def_of profile)),
       cm_pq_key_establishment := is_post_quantum_group (h_negotiated_group outcome),
       cm_hybrid_key_establishment := is_hybrid_group (h_negotiated_group outcome),
       cm_pq_authentication := is_post_quantum_authentication (d_authentication (def_of profile))\<rparr>"

definition want_client_cert :: "ServerConfig \<Rightarrow> SecurityProfile \<Rightarrow> bool" where
  "want_client_cert cfg profile \<longleftrightarrow>
     sv_require_client_certificate cfg \<or> d_require_client_certificate (def_of profile)"

text \<open>From the accepted socket to the checked handshake.\<close>

definition server_setup :: "'e env_scheme \<Rightarrow> ServerConfig \<Rightarrow> int \<Rightarrow> unit io" where
  "server_setup E cfg fd =
     bindIO (set_timeouts E fd (cc_io_timeout_ms (sv_common cfg)) (cc_io_timeout_ms (sv_common cfg))) (\<lambda>_.
     bindIO (set_tcp_nodelay E fd True) (\<lambda>_.
     bindIO (new_ssl E) (\<lambda>_.
     bindIO (ext_int E (Ssl (SSL_set_fd fd))) (\<lambda>r.
     if r \<noteq> 1 then throw_openssl_error E Internal ''SSL_set_fd failed on an accepted socket'' else returnIO ()))))"

definition server_enforce ::
  "'e env_scheme \<Rightarrow> ServerConfig \<Rightarrow> SecurityProfile \<Rightarrow> HandshakeOutcome \<Rightarrow> unit io" where
  "server_enforce E cfg profile outcome =
     bindIO (liftE (enforce_group_policy profile outcome)) (\<lambda>_.
     enforce_peer_verification E (sv_common cfg) (want_client_cert cfg profile))"

definition server_establish ::
  "'e env_scheme \<Rightarrow> ServerConfig \<Rightarrow> SecurityProfile \<Rightarrow> string \<Rightarrow> int \<Rightarrow> (ConnectionMetrics, HandshakeOutcome) sio" where
  "server_establish E cfg profile peer fd =
     bindS (liftS (server_setup E cfg fd)) (\<lambda>_.
     bindS (server_handshake E peer) (\<lambda>_.
     bindS (liftS (inspect E)) (\<lambda>outcome.
     bindS (modifyS (server_negotiation_fields profile outcome)) (\<lambda>_.
     bindS (liftS (server_enforce E cfg profile outcome)) (\<lambda>_.
     returnS outcome)))))"

text \<open>
  The application loop.  It ends because every message counts towards the limit and every read that
  completes no frame leaves less room for one.
\<close>

definition send_reply ::
  "('j, 'z) json_api_scheme \<Rightarrow> 'e env_scheme \<Rightarrow> u32 \<Rightarrow> 'j Message option \<Rightarrow> IoCounters \<Rightarrow> (ConnectionMetrics, IoCounters) sio" where
  "send_reply J E max_frame reply counters =
     (case reply of
        None \<Rightarrow> returnS counters
      | Some r \<Rightarrow> bindS (liftS (send_message J E max_frame r counters)) (\<lambda>counters.
          bindS (modifyS count_message) (\<lambda>_. returnS counters)))"

lemma unat_next:
  assumes "handled < (m :: u32)"
  shows "unat (handled + 1) = unat handled + 1"
proof -
  have "unat handled + 1 < 2 ^ 32" using assms unat_lt2p_32 [of m] by (simp add: word_less_nat_alt)
  then show ?thesis by (simp add: unat_word_ariths)
qed

lemma messages_left:
  assumes "handled < m"
  shows "unat m - unat (handled + 1) < unat m - unat (handled :: u32)"
  using assms by (simp add: unat_next [OF assms] word_less_nat_alt)

function server_loop ::
  "('j, 'z) json_api_scheme \<Rightarrow> 'e env_scheme \<Rightarrow> ServerConfig \<Rightarrow> SecurityProfile \<Rightarrow> HandshakeOutcome \<Rightarrow>
     Decoder \<Rightarrow> IoCounters \<Rightarrow> u32 \<Rightarrow> bool \<Rightarrow> (ConnectionMetrics, IoCounters \<times> u32) sio" where
  "server_loop J E cfg profile outcome decoder counters handled closing =
     (if closing then returnS (counters, handled)
      else bindS (liftS (ext_int E (Sys Load_stopping))) (\<lambda>stopping.
      if stopping \<noteq> 0 \<or> \<not> handled < sv_max_messages_per_connection cfg then returnS (counters, handled)
      else
        (case next_frame decoder of
           (Inl e, d) \<Rightarrow> liftS (liftE (Inl e))
         | (Inr None, d) \<Rightarrow>
             bindS (liftS (ssl_read_some E kServerReadChunk counters)) (\<lambda>(bytes, counters).
             if bytes = [] then returnS (counters, handled)
             else (case feed d bytes of
                     (Inl e, d) \<Rightarrow> liftS (liftE (Inl e))
                   | (Inr u, d) \<Rightarrow> server_loop J E cfg profile outcome d counters handled False))
         | (Inr (Some frame), d) \<Rightarrow>
             bindS (modifyS count_message) (\<lambda>_.
             bindS (liftS (server_reply J E profile outcome frame)) (\<lambda>(reply, closing).
             bindS (send_reply J E (cc_max_frame_size (sv_common cfg)) reply counters) (\<lambda>counters.
             server_loop J E cfg profile outcome d counters (handled + 1) closing))))))"
  by pat_completeness auto

termination
proof (relation "measures [\<lambda>(J, E, cfg, p, out, d, c, handled, cl). unat (sv_max_messages_per_connection cfg) - unat handled,
    \<lambda>(J, E, cfg, p, out, d, c, handled, cl). decoder_room d]")
qed (auto intro: messages_left feed_progress [OF sym sym])

declare server_loop.simps [simp del]

definition server_application ::
  "('j, 'z) json_api_scheme \<Rightarrow> 'e env_scheme \<Rightarrow> ServerConfig \<Rightarrow> SecurityProfile \<Rightarrow> HandshakeOutcome \<Rightarrow>
     (ConnectionMetrics, unit) sio" where
  "server_application J E cfg profile outcome =
     bindS (liftS (liftE (mk_Decoder (cc_max_frame_size (sv_common cfg))))) (\<lambda>decoder.
     bindS (server_loop J E cfg profile outcome decoder IoCounters_zero 0 False) (\<lambda>(counters, handled).
     bindS (liftS (ssl_graceful_shutdown E)) (\<lambda>_.
     modifyS (\<lambda>m. m\<lparr>cm_application_bytes_sent := bytes_sent counters,
       cm_application_bytes_received := bytes_received counters, cm_success := True,
       cm_error_category := None_category\<rparr>))))"

definition server_session ::
  "('j, 'z) json_api_scheme \<Rightarrow> 'e env_scheme \<Rightarrow> ServerConfig \<Rightarrow> SecurityProfile \<Rightarrow> string \<Rightarrow> int \<Rightarrow>
     (ConnectionMetrics, unit) sio" where
  "server_session J E cfg profile peer fd =
     bindS (server_establish E cfg profile peer fd) (server_application J E cfg profile)"

text \<open>The two handlers after the \<open>try\<close> block.\<close>

definition conclude :: "unit result \<Rightarrow> ConnectionMetrics \<Rightarrow> ConnectionMetrics result" where
  "conclude r metrics =
     (case r of
        Inr u \<Rightarrow> Inr metrics
      | Inl e \<Rightarrow> if catchable e
          then Inr (metrics\<lparr>cm_success := False, cm_error_category := exn_category e,
                      cm_error_message := Some (exn_message e)\<rparr>)
          else Inl e)"

definition server_metrics :: "ServerConfig \<Rightarrow> SecurityProfile \<Rightarrow> string \<Rightarrow> string \<Rightarrow> string \<Rightarrow> ConnectionMetrics" where
  "server_metrics cfg profile peer cid timestamp =
     ConnectionMetrics_default\<lparr>cm_connection_id := cid, cm_timestamp := timestamp, cm_role := Server,
       cm_requested_profile := cc_profile_id (sv_common cfg), cm_negotiated_profile := profile_id profile,
       cm_experiment_id := cc_experiment_id (sv_common cfg), cm_peer_address := peer\<rparr>"

text \<open>\<open>handle_connection\<close>; its socket goes out of scope at the end, however it ends.\<close>

definition handle_body ::
  "('j, 'z) json_api_scheme \<Rightarrow> 'e env_scheme \<Rightarrow> ServerConfig \<Rightarrow> SecurityProfile \<Rightarrow> bool \<Rightarrow> string \<Rightarrow> int \<Rightarrow> unit io" where
  "handle_body J E cfg profile has_writer peer fd =
     bindIO (generate_uuid_v4 E) (\<lambda>cid.
     bindIO (iso8601_now E) (\<lambda>timestamp.
     bindIO (stopwatch_start E) (\<lambda>timer.
     bindIO (server_session J E cfg profile peer fd (server_metrics cfg profile peer cid timestamp)) (\<lambda>(r, metrics).
     bindIO (liftE (conclude r metrics)) (\<lambda>metrics.
     bindIO (elapsed_ns E timer) (\<lambda>ns.
     bindIO (sample_usage E (metrics\<lparr>cm_connection_ns := ns\<rparr>)) (\<lambda>metrics.
     record_metrics J E has_writer metrics)))))))"

definition handle_connection ::
  "('j, 'z) json_api_scheme \<Rightarrow> 'e env_scheme \<Rightarrow> ServerConfig \<Rightarrow> SecurityProfile \<Rightarrow> bool \<Rightarrow> int \<times> string \<Rightarrow> unit io" where
  "handle_connection J E cfg profile has_writer conn tr =
     (case conn of (fd, peer) \<Rightarrow>
      case handle_body J E cfg profile has_writer peer fd tr of
        (r, tr') \<Rightarrow> (r, snd (socket_close E fd tr')))"

text \<open>The constructor, without its log line.\<close>

definition PqTlsServer :: "'e env_scheme \<Rightarrow> ServerConfig \<Rightarrow> ProfileRegistry \<Rightarrow> SecurityProfile io" where
  "PqTlsServer E cfg registry =
     bindIO (liftE (get_profile registry (cc_profile_id (sv_common cfg)))) (\<lambda>p.
     bindIO (create_server E p (sv_common cfg) (sv_require_client_certificate cfg)) (\<lambda>profile.
     bindIO (ignore_sigpipe E) (\<lambda>_. returnIO profile)))"

text \<open>
  The start of \<open>run\<close>: the listening socket, and the port that was bound.  The reply of
  \<open>getsockname\<close> is the address family and the port, or nothing when it failed.
\<close>

definition kAfInet :: int where
  "kAfInet = 2"

definition server_bind :: "'e env_scheme \<Rightarrow> ServerConfig \<Rightarrow> u16 \<Rightarrow> (int \<times> u16) io" where
  "server_bind E cfg bound_port =
     bindIO (tcp_listen E (sv_listen_address cfg) (sv_port cfg) (sv_backlog cfg)) (\<lambda>fd.
     bindIO (ext_ints E (Sys (Getsockname fd))) (\<lambda>r. returnIO (fd,
       case r of
         [family, port] \<Rightarrow> if family = kAfInet \<or> family = kAfInet6 then word_of_int port else bound_port
       | _ \<Rightarrow> bound_port)))"

section \<open>Which calls the parts make\<close>

lemma calls_returnS [calls_intros]: "only_calls Q (returnS x s)"
  by (simp add: returnS_def calls_intros)

lemma calls_modifyS [calls_intros]: "only_calls Q (modifyS f s)"
  by (simp add: modifyS_def calls_intros)

lemma calls_liftS [calls_intros]: "only_calls Q m \<Longrightarrow> only_calls Q (liftS m s)"
  by (auto simp: only_calls_def liftS_def split: prod.split) (metis snd_conv)

lemma calls_bindS [calls_intros]:
  "(\<And>s. only_calls Q (m s)) \<Longrightarrow> (\<And>x s. only_calls Q (f x s)) \<Longrightarrow> only_calls Q (bindS m f s)"
  unfolding bindS_def by (auto intro!: calls_intros split: sum.split)

lemma calls_if_S [calls_intros]:
  "(p \<Longrightarrow> only_calls Q (f s)) \<Longrightarrow> (\<not> p \<Longrightarrow> only_calls Q (g s)) \<Longrightarrow> only_calls Q ((if p then f else g) s)"
  by simp

lemma plain_server_parts:
  "only_calls plain (handle_message J E req profile outcome)"
  "only_calls plain (server_setup E cfg fd)" "only_calls plain (server_enforce E cfg profile outcome)"
  unfolding handle_message_def server_setup_def server_enforce_def
  by (auto intro!: calls_intros plain_parts split: MessageType.split)

lemma plain_server_reply: "only_calls plain (server_reply J E profile outcome frame)"
  unfolding server_reply_def by (intro calls_intros plain_parts plain_server_parts)

lemma plain_server_handshake: "only_calls plain (server_handshake E peer s)"
  unfolding server_handshake_def by (intro calls_intros plain_parts; simp)

lemma plain_server_establish: "only_calls plain (server_establish E cfg profile peer fd s)"
  unfolding server_establish_def by (intro calls_intros plain_parts plain_server_parts plain_server_handshake)

lemma session_send_reply: "only_calls session_call (send_reply J E m reply c s)"
  unfolding send_reply_def send_message_def
  by (auto intro!: calls_intros session_write split: option.split)

lemma session_server_loop: "only_calls session_call (server_loop J E cfg profile outcome d c handled closing s)"
proof (induction J E cfg profile outcome d c handled closing arbitrary: s rule: server_loop.induct)
  case (1 J E cfg profile outcome d c handled closing)
  show ?case
    by (subst server_loop.simps)
       (auto split: prod.splits sum.splits option.splits
         intro!: calls_intros session_read session_send_reply plain_is_session [OF plain_server_reply] 1)
qed

lemma session_application: "only_calls session_call (server_application J E cfg profile outcome s)"
  unfolding server_application_def
  by (auto intro!: calls_intros session_server_loop plain_is_session [OF plain_checks(3)] split: prod.splits)

section \<open>The server as a gated session\<close>

lemma bindS_InrE:
  assumes "bindS m f s tr = (Inr (Inr y, s''), tr'')"
  obtains x s' tr' where "m s tr = (Inr (Inr x, s'), tr')" "f x s' tr' = (Inr (Inr y, s''), tr'')"
  using assms unfolding bindS_def by (auto elim!: bindIO_InrE simp: returnIO_eq split: sum.splits)

lemma liftS_InrE:
  assumes "liftS m s tr = (Inr (Inr y, s'), tr')"
  obtains "m tr = (Inr y, tr')" "s' = s"
  using assms by (auto simp: liftS_def split: prod.splits)

lemma returnS_eq: "returnS x s tr = (Inr (Inr y, s'), tr') \<longleftrightarrow> y = x \<and> s' = s \<and> tr' = tr"
  by (auto simp: returnS_def returnIO_def)

lemma modifyS_eq: "modifyS f s tr = (Inr (Inr y, s'), tr') \<longleftrightarrow> s' = f s \<and> tr' = tr"
  by (auto simp: modifyS_def returnIO_def)

lemma server_establish_clears:
  assumes "server_establish E cfg profile peer fd s tr = (Inr (Inr outcome, s'), tr @ es)"
  shows "cleared profile (sv_common cfg) (want_client_cert cfg profile) es"
proof -
  obtain tr1 s2 tr2 tr3 where a: "server_setup E cfg fd tr = (Inr (), tr1)"
    "server_handshake E peer s tr1 = (Inr (Inr (), s2), tr2)" "inspect E tr2 = (Inr outcome, tr3)"
    "server_enforce E cfg profile outcome tr3 = (Inr (), tr @ es)"
    using assms unfolding server_establish_def
    by (elim bindS_InrE liftS_InrE) (simp add: returnS_eq modifyS_eq)
  have b: "enforce_group_policy profile outcome = Inr ()"
    "enforce_peer_verification E (sv_common cfg) (want_client_cert cfg profile) tr3 = (Inr (), tr @ es)"
    using a(4) unfolding server_enforce_def by (auto elim!: bindIO_InrE liftE_InrE)
  obtain es1 where e1: "tr1 = tr @ es1" using plain_server_parts(2) a(1) by (rule only_callsD)
  obtain es2 where e2: "tr2 = tr1 @ es2" using plain_server_handshake a(2) by (rule only_callsD)
  obtain es3 r where i: "tr3 = tr2 @ es3" "Ev (Ssl SSL_get0_group_name) (RStr r) \<in> set es3"
    "h_negotiated_group outcome = text_or_empty r" using inspect_group [OF a(3)] by blast
  obtain es4 where p: "tr @ es = tr3 @ es4" "peer_checked (sv_common cfg) (want_client_cert cfg profile) es4"
    using enforce_peer_verification_checked [OF b(2)] by blast
  have "cleared profile (sv_common cfg) (want_client_cert cfg profile) (es3 @ es4)"
    using group_policy_checked [OF i(2) b(1) i(3)] p(2)
    by (auto simp: cleared_def group_checked_def peer_checked_def)
  then show ?thesis using e1 e2 i(1) p(1) cleared_append [of profile _ _ "es1 @ es2" "es3 @ es4"] by simp
qed

interpretation server: gated_session "server_establish E cfg profile peer fd s" "\<lambda>(r, s'). \<exists>x. r = Inr x"
  "\<lambda>(r, s'). case r of Inl e \<Rightarrow> returnIO (Inl e, s') | Inr x \<Rightarrow> server_application J E cfg profile x s'"
  "cleared profile (sv_common cfg) (want_client_cert cfg profile)"
  for E cfg profile peer fd s J
proof unfold_locales
  show "only_calls (\<lambda>c. \<not> app_data c) (server_establish E cfg profile peer fd s)"
    by (rule quiet_is_silent [OF plain_is_quiet [OF plain_server_establish]])
  show "only_calls (\<lambda>c. True) (case x of (r, s') \<Rightarrow> case r of Inl e \<Rightarrow> returnIO (Inl e, s')
     | Inr x \<Rightarrow> server_application J E cfg profile x s')" for x
    by (auto split: prod.splits sum.splits intro: calls_intros only_calls_mono [OF session_application])
qed (auto split: prod.splits sum.splits intro: calls_intros server_establish_clears cleared_append)

lemma server_session_gated:
  assumes "server_session J E cfg profile peer fd s tr = (r, tr')"
  obtains es where "tr' = tr @ es" "gated (cleared profile (sv_common cfg) (want_client_cert cfg profile)) es"
  using server.session_gated [OF assms [unfolded server_session_def bindS_def]] by blast

lemma session_server_session: "only_calls session_call (server_session J E cfg profile peer fd s)"
  unfolding server_session_def
  by (intro calls_intros plain_is_session [OF plain_server_establish] session_application)

section \<open>The whole handler\<close>

text \<open>What follows the \<open>try\<close> block.\<close>

definition server_tail ::
  "('j, 'z) json_api_scheme \<Rightarrow> 'e env_scheme \<Rightarrow> bool \<Rightarrow> int \<Rightarrow> unit result \<times> ConnectionMetrics \<Rightarrow> unit io" where
  "server_tail J E has_writer timer x =
     (case x of (r, metrics) \<Rightarrow>
     bindIO (liftE (conclude r metrics)) (\<lambda>metrics.
     bindIO (elapsed_ns E timer) (\<lambda>ns.
     bindIO (sample_usage E (metrics\<lparr>cm_connection_ns := ns\<rparr>)) (\<lambda>metrics.
     record_metrics J E has_writer metrics))))"

lemma handle_body_eq:
  "handle_body J E cfg profile w peer fd =
     bindIO (generate_uuid_v4 E) (\<lambda>cid. bindIO (iso8601_now E) (\<lambda>ts. bindIO (stopwatch_start E) (\<lambda>timer.
     bindIO (server_session J E cfg profile peer fd (server_metrics cfg profile peer cid ts)) (server_tail J E w timer))))"
  unfolding handle_body_def server_tail_def ..

lemma server_tail_calls:
  "only_calls (\<lambda>c. \<not> app_data c) (server_tail J E w timer x)" "only_calls keeps_fds (server_tail J E w timer x)"
  unfolding server_tail_def
  by (auto split: prod.split intro!: calls_intros record_metrics_calls
      quiet_is_silent [OF plain_is_quiet [OF plain_clock(4)]] quiet_is_silent [OF plain_is_quiet [OF plain_clock(5)]]
      only_calls_mono [OF plain_clock(4) plain_keeps_fds] only_calls_mono [OF plain_clock(5) plain_keeps_fds])

lemma handle_body_gates:
  "gates (cleared profile (sv_common cfg) (want_client_cert cfg profile)) (handle_body J E cfg profile w peer fd)"
proof -
  have "gates (cleared profile (sv_common cfg) (want_client_cert cfg profile)) (server_session J E cfg profile peer fd s)" for s
    unfolding gates_def by (metis prod.collapse server_session_gated)
  then show ?thesis unfolding handle_body_eq
    by (intro gates_after_quiet gates_before_quiet server_tail_calls cleared_append disjI2
        plain_clock [THEN plain_is_quiet, THEN quiet_is_silent])
qed

lemma handle_body_keeps_fds: "only_calls keeps_fds (handle_body J E cfg profile w peer fd)"
  unfolding handle_body_eq
  by (intro calls_intros server_tail_calls only_calls_mono [OF session_server_session session_call_keeps_fds]
      plain_clock [THEN only_calls_mono, OF plain_keeps_fds])

lemma handle_connection_trace:
  "snd (handle_connection J E cfg profile w (fd, peer) tr) = snd (handle_body J E cfg profile w peer fd tr) @
     (if fd \<ge> 0 then [Ev (Sys (Close fd)) RVoid] else [])"
  by (simp add: handle_connection_def socket_close_def call_IO_def returnIO_def split: prod.split)

section \<open>What the loop exchanges\<close>

text \<open>\<open>answers J E p o m text (out, closing)\<close>: the bytes sent for a received text, and whether it ends the connection.\<close>

definition answers ::
  "('j, 'z) json_api_scheme \<Rightarrow> 'e env_scheme \<Rightarrow> SecurityProfile \<Rightarrow> HandshakeOutcome \<Rightarrow> u32 \<Rightarrow> string \<Rightarrow> byte list \<times> bool \<Rightarrow> bool" where
  "answers J E profile outcome m text0 x \<longleftrightarrow>
     (\<exists>tr tr' reply. server_reply J E profile outcome text0 tr = (Inr (reply, snd x), tr') \<and>
        (case reply of None \<Rightarrow> fst x = [] | Some r \<Rightarrow> frame_for J m r (fst x)))"

lemma send_reply_stream:
  assumes "send_reply J E m reply c s tr = (Inr (Inr c', s'), tr')"
  shows "\<exists>es out. tr' = tr @ es \<and> (case reply of None \<Rightarrow> out = [] | Some r \<Rightarrow> frame_for J m r out) \<and>
    sent es = out \<and> received es = [] \<and> c' = c\<lparr>bytes_sent := bytes_sent c + of_nat (length out)\<rparr>"
proof (cases reply)
  case None
  then show ?thesis using assms by (intro exI [of _ "[]"]) (simp add: send_reply_def returnS_eq)
next
  case (Some r)
  then have "send_message J E m r c tr = (Inr c', tr')"
    using assms unfolding send_reply_def
    by (auto elim!: bindS_InrE liftS_InrE simp: modifyS_eq returnS_eq)
  from send_message_stream [OF this] Some show ?thesis by auto
qed

definition loop_spec ::
  "('j, 'z) json_api_scheme \<Rightarrow> 'e env_scheme \<Rightarrow> ServerConfig \<Rightarrow> SecurityProfile \<Rightarrow> HandshakeOutcome \<Rightarrow>
     Decoder \<Rightarrow> IoCounters \<Rightarrow> u32 \<Rightarrow> bool \<Rightarrow> IoCounters \<Rightarrow> u32 \<Rightarrow> trace \<Rightarrow> bool" where
  "loop_spec J E cfg profile outcome d c handled closing c' handled' es \<longleftrightarrow>
     (\<exists>texts outs rest. list_all2 (answers J E profile outcome (max_frame_size d)) texts outs \<and>
        sent es = concat (map fst outs) \<and> fst (frames_of (max_frame_size d) (pending d @ received es)) = texts @ rest \<and>
        unat handled' = unat handled + length texts \<and>
        (handled \<le> sv_max_messages_per_connection cfg \<longrightarrow> handled' \<le> sv_max_messages_per_connection cfg) \<and>
        (\<forall>x \<in> set (butlast outs). \<not> snd x) \<and> (closing \<longrightarrow> texts = []) \<and>
        bytes_sent c' = bytes_sent c + of_nat (length (sent es)) \<and>
        bytes_received c' = bytes_received c + of_nat (length (received es)))"

lemma loop_spec_stop:
  "sent es = [] \<Longrightarrow> received es = [] \<Longrightarrow> loop_spec J E cfg profile outcome d c handled closing c handled es"
  unfolding loop_spec_def
  by (rule exI [of _ "[]"], rule exI [of _ "[]"], rule exI [of _ "fst (frames_of (max_frame_size d) (pending d))"]) simp

lemma loop_spec_end:
  "sent es = [] \<Longrightarrow> received es = [] \<Longrightarrow> bytes_sent c' = bytes_sent c \<Longrightarrow> bytes_received c' = bytes_received c \<Longrightarrow>
   loop_spec J E cfg profile outcome d c handled closing c' handled es"
  using loop_spec_stop unfolding loop_spec_def by metis

lemma loop_spec_read:
  assumes "loop_spec J E cfg profile outcome d2 c1 handled False c' handled' fs"
    and "pending d2 = pending d @ received es" and "max_frame_size d2 = max_frame_size d" and "sent es = []"
    and "bytes_sent c1 = bytes_sent c" and "bytes_received c1 = bytes_received c + of_nat (length (received es))"
  shows "loop_spec J E cfg profile outcome d c handled False c' handled' (es @ fs)"
  using assms unfolding loop_spec_def by (simp add: add.assoc)

lemma loop_spec_message:
  assumes spec: "loop_spec J E cfg profile outcome d2 c1 (handled + 1) closing c' handled' fs"
    and frame: "split_frame (max_frame_size d) (pending d) = Inr (Some (frame, pending d2))" "max_frame_size d2 = max_frame_size d"
    and ans: "answers J E profile outcome (max_frame_size d) frame (sent es, closing)" and quiet: "received es = []"
    and below: "handled < sv_max_messages_per_connection cfg"
    and c1: "c1 = c\<lparr>bytes_sent := bytes_sent c + of_nat (length (sent es))\<rparr>"
  shows "loop_spec J E cfg profile outcome d c handled False c' handled' (es @ fs)"
proof -
  obtain texts outs rest where s: "list_all2 (answers J E profile outcome (max_frame_size d)) texts outs"
    "sent fs = concat (map fst outs)" "fst (frames_of (max_frame_size d) (pending d2 @ received fs)) = texts @ rest"
    "unat handled' = unat (handled + 1) + length texts"
    "handled + 1 \<le> sv_max_messages_per_connection cfg \<longrightarrow> handled' \<le> sv_max_messages_per_connection cfg"
    "\<forall>x \<in> set (butlast outs). \<not> snd x" "closing \<longrightarrow> texts = []"
    "bytes_sent c' = bytes_sent c1 + of_nat (length (sent fs))"
    "bytes_received c' = bytes_received c1 + of_nat (length (received fs))"
    using spec unfolding loop_spec_def frame(2) by blast
  have "fst (frames_of (max_frame_size d) (pending d @ received fs)) = frame # texts @ rest"
    using frames_of_split [of "max_frame_size d" "pending d" "[]" frame "pending d2" "received fs"] frame(1) s(3) by simp
  moreover have "handled + 1 \<le> sv_max_messages_per_connection cfg" by (rule inc_le [OF below])
  moreover have "closing \<longrightarrow> outs = []" using s(1,7) by auto
  ultimately show ?thesis unfolding loop_spec_def
    using s ans quiet unat_next [OF below] c1
    by (intro exI [of _ "frame # texts"] exI [of _ "(sent es, closing) # outs"] exI [of _ rest]) (auto simp: add.assoc)
qed

lemma plain_silent:
  assumes "only_calls plain m" and "m tr = (r, tr')"
  obtains es where "tr' = tr @ es" "sent es = []" "received es = []"
  using assms no_app_data_trace plain_quiet by (metis only_callsD)

lemma server_loop_stream:
  assumes "server_loop J E cfg profile outcome d c handled closing s tr = (Inr (Inr (c', handled'), s'), tr')"
    and "wf_decoder d" and "max_frame_size d = cc_max_frame_size (sv_common cfg)"
  shows "\<exists>es. tr' = tr @ es \<and> loop_spec J E cfg profile outcome d c handled closing c' handled' es"
  using assms
proof (induction J E cfg profile outcome d c handled closing arbitrary: s tr rule: server_loop.induct)
  case (1 J E cfg profile outcome d c handled closing)
  note step = 1(3) [unfolded server_loop.simps [of J E cfg profile outcome d c handled closing]]
  show ?case
  proof (cases closing)
    case True
    then show ?thesis using step loop_spec_stop [of "[]"] by (auto simp: returnS_eq)
  next
    case False
    obtain st tr1 where st: "ext_int E (Sys Load_stopping) tr = (Inr st, tr1)"
      and rest: "(if st \<noteq> 0 \<or> \<not> handled < sv_max_messages_per_connection cfg then returnS (c, handled)
        else case next_frame d of (Inl e, d) \<Rightarrow> liftS (liftE (Inl e))
         | (Inr None, d) \<Rightarrow>
             bindS (liftS (ssl_read_some E kServerReadChunk c)) (\<lambda>(bytes, counters).
             if bytes = [] then returnS (counters, handled)
             else (case feed d bytes of
                     (Inl e, d) \<Rightarrow> liftS (liftE (Inl e))
                   | (Inr u, d) \<Rightarrow> server_loop J E cfg profile outcome d counters handled False))
         | (Inr (Some frame), d) \<Rightarrow>
             bindS (modifyS count_message) (\<lambda>_.
             bindS (liftS (server_reply J E profile outcome frame)) (\<lambda>(reply, closing).
             bindS (send_reply J E (cc_max_frame_size (sv_common cfg)) reply c) (\<lambda>counters.
             server_loop J E cfg profile outcome d counters (handled + 1) closing)))) s tr1 = (Inr (Inr (c', handled'), s'), tr')"
      using step False by (auto elim!: bindS_InrE liftS_InrE)
    define e0 where "e0 = [Ev (Sys Load_stopping) (RInt st)]"
    have e0: "tr1 = tr @ e0" "sent e0 = []" "received e0 = []" using st by (simp_all add: e0_def ext_int_eq)
    show ?thesis
    proof (cases "st \<noteq> 0 \<or> \<not> handled < sv_max_messages_per_connection cfg")
      case True
      then show ?thesis using rest e0 loop_spec_stop [OF e0(2,3)] by (auto simp: returnS_eq)
    next
      case go: False
      obtain r d1 where n: "next_frame d = (r, d1)" by (cases "next_frame d")
      consider (err) e where "r = Inl e" | (none) "r = Inr None" | (some) frame where "r = Inr (Some frame)"
        by (cases r; cases "projr r") auto
      then show ?thesis
      proof cases
        case err
        then show ?thesis using rest go n by (simp add: liftS_def liftE_def)
      next
        case none
        have d1: "d1 = d" using dec.next_NoneD [OF 1(4)] n none by blast
        obtain bytes c1 tr2 where rd: "ssl_read_some E kServerReadChunk c tr1 = (Inr (bytes, c1), tr2)"
          and more: "(if bytes = [] then returnS (c1, handled)
             else (case feed d1 bytes of
                     (Inl e, d) \<Rightarrow> liftS (liftE (Inl e))
                   | (Inr u, d) \<Rightarrow> server_loop J E cfg profile outcome d c1 handled False)) s tr2 = (Inr (Inr (c', handled'), s'), tr')"
          using rest go n none by (auto elim!: bindS_InrE liftS_InrE)
        obtain es where es: "tr2 = tr1 @ es" "received es = bytes" "sent es = []" "bytes_sent c1 = bytes_sent c"
          "bytes_received c1 = bytes_received c + of_nat (length bytes)" using ssl_read_some_stream [OF rd] by blast
        show ?thesis
        proof (cases "bytes = []")
          case True
          then have "c' = c1" "handled' = handled" "tr' = tr @ e0 @ es" using more es(1) e0(1) by (auto simp: returnS_eq)
          then show ?thesis using loop_spec_end [of "e0 @ es"] True es e0 False by auto
        next
          case ne: False
          obtain q d2 where f: "feed d1 bytes = (q, d2)" by (cases "feed d1 bytes")
          have q: "q = Inr ()" using more ne f by (cases q) (auto simp: liftS_def liftE_def)
          have rec: "server_loop J E cfg profile outcome d2 c1 handled False s tr2 = (Inr (Inr (c', handled'), s'), tr')"
            using more ne f q by simp
          have d2: "pending d2 = pending d @ bytes" "wf_decoder d2" "max_frame_size d2 = max_frame_size d"
            using feed_pending_eq [OF 1(4), of bytes] f d1 by auto
          from 1(1) [OF False go n [symmetric] none refl ne f [symmetric] q rec d2(2)] d2(3) 1(5)
          obtain fs where fs: "tr' = tr2 @ fs" "loop_spec J E cfg profile outcome d2 c1 handled False c' handled' fs" by auto
          have "loop_spec J E cfg profile outcome d c handled False c' handled' ((e0 @ es) @ fs)"
            by (rule loop_spec_read [OF fs(2)]) (use d2 es e0 in auto)
          then show ?thesis using False fs(1) es(1) e0(1) by auto
        qed
      next
        case some
        obtain reply closing1 tr2 c1 s2 tr3 where
          rp: "server_reply J E profile outcome frame tr1 = (Inr (reply, closing1), tr2)" and
          sd: "send_reply J E (cc_max_frame_size (sv_common cfg)) reply c (count_message s) tr2 = (Inr (Inr c1, s2), tr3)" and
          rec: "server_loop J E cfg profile outcome d1 c1 (handled + 1) closing1 s2 tr3 = (Inr (Inr (c', handled'), s'), tr')"
          using rest go n some by (auto elim!: bindS_InrE liftS_InrE simp: modifyS_eq)
        obtain es1 where es1: "tr2 = tr1 @ es1" "sent es1 = []" "received es1 = []"
          using plain_server_reply rp by (rule plain_silent)
        obtain es2 out where es2: "tr3 = tr2 @ es2" "sent es2 = out" "received es2 = []"
          "case reply of None \<Rightarrow> out = [] | Some r \<Rightarrow> frame_for J (cc_max_frame_size (sv_common cfg)) r out"
          "c1 = c\<lparr>bytes_sent := bytes_sent c + of_nat (length out)\<rparr>" using send_reply_stream [OF sd] by blast
        have sp: "split_frame (max_frame_size d) (pending d) = Inr (Some (frame, pending d1))" "wf_decoder d1" "max_frame_size d1 = max_frame_size d"
          using dec.next_SomeE [OF 1(4), of frame d1] n some by metis+
        have ans: "answers J E profile outcome (max_frame_size d) frame (sent (e0 @ es1 @ es2), closing1)"
          using rp es2(2,4) es1(2) e0(2) 1(5) unfolding answers_def
          by (intro exI [of _ tr1] exI [of _ tr2] exI [of _ reply]) (cases reply; simp)
        from 1(2) [OF False go n [symmetric] some refl rec sp(2)] sp(3) 1(5)
        obtain fs where fs: "tr' = tr3 @ fs" "loop_spec J E cfg profile outcome d1 c1 (handled + 1) closing1 c' handled' fs" by auto
        have "loop_spec J E cfg profile outcome d c handled False c' handled' ((e0 @ es1 @ es2) @ fs)"
          by (rule loop_spec_message [OF fs(2) sp(1,3) ans]) (use go e0 es1 es2 in auto)
        then show ?thesis using False fs(1) es2(1) es1(1) e0(1) by auto
      qed
    qed
  qed
qed

section \<open>The record of a connection\<close>

definition identity_of :: "ConnectionMetrics \<Rightarrow> (string \<times> string \<times> Role) \<times> string \<times> string \<times> string \<times> string \<times> string option" where
  "identity_of m = ((cm_connection_id m, cm_timestamp m, cm_role m), cm_requested_profile m, cm_negotiated_profile m,
     cm_experiment_id m, cm_peer_address m, cm_error_message m)"

text \<open>An action that leaves a view \<open>v\<close> of the metrics alone.\<close>

definition keeps_view :: "(ConnectionMetrics \<Rightarrow> 'v) \<Rightarrow> (ConnectionMetrics, 'a) sio \<Rightarrow> bool" where
  "keeps_view v m \<longleftrightarrow> (\<forall>s tr r s' tr'. m s tr = (Inr (r, s'), tr') \<longrightarrow> v s' = v s)"

lemma keeps_viewD: "keeps_view v m \<Longrightarrow> m s tr = (Inr (r, s'), tr') \<Longrightarrow> v s' = v s"
  unfolding keeps_view_def by blast

lemma keeps_view_basic:
  "keeps_view v (returnS x)" "keeps_view v (liftS a)" "(\<And>s. v (f s) = v s) \<Longrightarrow> keeps_view v (modifyS f)"
  by (auto simp: keeps_view_def returnS_def liftS_def modifyS_def returnIO_def split: prod.splits)

lemma keeps_view_bind:
  assumes "keeps_view v m" and "\<And>x. keeps_view v (f x)"
  shows "keeps_view v (bindS m f)"
  unfolding keeps_view_def
proof (intro allI impI)
  fix s tr r s'' tr''
  assume "bindS m f s tr = (Inr (r, s''), tr'')"
  then obtain q s' tr' where q: "m s tr = (Inr (q, s'), tr')"
    and c: "(case q of Inl e \<Rightarrow> returnIO (Inl e, s') | Inr x \<Rightarrow> f x s') tr' = (Inr (r, s''), tr'')"
    unfolding bindS_def by (auto elim!: bindIO_InrE)
  have "v s' = v s" using assms(1) q by (rule keeps_viewD)
  moreover have "v s'' = v s'"
  proof (cases q)
    case (Inl e)
    then show ?thesis using c by (simp add: returnIO_eq)
  next
    case (Inr x)
    then have "f x s' tr' = (Inr (r, s''), tr'')" using c by simp
    then show ?thesis by (rule keeps_viewD [OF assms(2)])
  qed
  ultimately show "v s'' = v s" by simp
qed

lemma keeps_view_if:
  "(p \<Longrightarrow> keeps_view v f) \<Longrightarrow> (\<not> p \<Longrightarrow> keeps_view v g) \<Longrightarrow> keeps_view v (if p then f else g)"
  by simp

lemma identity_updates:
  "identity_of (count_message m) = identity_of m" "identity_of (server_negotiation_fields p out m) = identity_of m"
  "identity_of (m\<lparr>cm_handshake_ns := ns\<rparr>) = identity_of m"
  by (simp_all add: identity_of_def count_message_def server_negotiation_fields_def)

lemmas keeps_view_intros = keeps_view_basic keeps_view_bind keeps_view_if identity_updates

lemma establish_keeps_identity: "keeps_view identity_of (server_establish E cfg profile peer fd)"
  unfolding server_establish_def server_handshake_def by (intro keeps_view_intros)

text \<open>The application loop changes nothing but the message count.\<close>

lemma send_reply_keeps: "(\<And>m. v (count_message m) = v m) \<Longrightarrow> keeps_view v (send_reply J E m reply c)"
  unfolding send_reply_def by (auto split: option.split intro!: keeps_view_intros)

lemma loop_keeps:
  assumes "\<And>m. v (count_message m) = v m"
  shows "keeps_view v (server_loop J E cfg profile outcome d c handled closing)"
proof (induction J E cfg profile outcome d c handled closing rule: server_loop.induct)
  case (1 J E cfg profile outcome d c handled closing)
  show ?case
    by (subst server_loop.simps)
       (auto split: prod.splits sum.splits option.splits intro!: keeps_view_intros send_reply_keeps assms 1)
qed

lemma application_keeps:
  assumes "\<And>m. v (count_message m) = v m"
    and "\<And>m a b. v (m\<lparr>cm_application_bytes_sent := a, cm_application_bytes_received := b, cm_success := True,
        cm_error_category := None_category\<rparr>) = v m"
  shows "keeps_view v (server_application J E cfg profile outcome)"
  unfolding server_application_def
  by (auto split: prod.splits intro!: keeps_view_intros loop_keeps simp: assms)

lemma application_keeps_identity: "keeps_view identity_of (server_application J E cfg profile outcome)"
  by (rule application_keeps) (simp_all add: identity_of_def count_message_def)

lemma application_keeps_negotiation: "keeps_view negotiation_of (server_application J E cfg profile outcome)"
  by (rule application_keeps) (simp_all add: negotiation_of_def count_message_def)

lemma application_succeeds:
  "server_application J E cfg profile outcome s tr = (Inr (Inr (), s'), tr') \<Longrightarrow> cm_success s' \<and> cm_error_category s' = None_category"
  unfolding server_application_def by (auto elim!: bindS_InrE liftS_InrE simp: modifyS_eq)

lemma establish_negotiated:
  assumes "server_establish E cfg profile peer fd s tr = (Inr (Inr outcome, s'), tr')"
  shows "negotiated_under profile s' \<and> permits_negotiated_group profile (h_negotiated_group outcome)"
  using assms unfolding server_establish_def server_enforce_def
  by (auto elim!: bindS_InrE liftS_InrE bindIO_InrE liftE_InrE
      simp: returnS_eq modifyS_eq enforce_group_policy_def throw_sub_def negotiated_under_def negotiation_of_def
        server_negotiation_fields_def split: if_splits)

lemma session_metrics:
  assumes "server_session J E cfg profile peer fd s tr = (Inr (r, s'), tr')"
  shows "identity_of s' = identity_of s"
    "r = Inr () \<Longrightarrow> cm_success s' \<and> cm_error_category s' = None_category \<and> negotiated_under profile s'"
proof -
  have "keeps_view identity_of (server_session J E cfg profile peer fd)"
    unfolding server_session_def by (intro keeps_view_bind establish_keeps_identity application_keeps_identity)
  then show "identity_of s' = identity_of s" using assms by (rule keeps_viewD)
  assume "r = Inr ()"
  with assms obtain outcome s1 tr1 where a: "server_establish E cfg profile peer fd s tr = (Inr (Inr outcome, s1), tr1)"
    "server_application J E cfg profile outcome s1 tr1 = (Inr (Inr (), s'), tr')"
    unfolding server_session_def by (auto elim!: bindS_InrE)
  have "negotiated_under profile s'"
    using establish_negotiated [OF a(1)] keeps_viewD [OF application_keeps_negotiation a(2)] negotiated_under_cong by blast
  then show "cm_success s' \<and> cm_error_category s' = None_category \<and> negotiated_under profile s'"
    using application_succeeds [OF a(2)] by blast
qed

section \<open>What can escape a handler\<close>

text \<open>An action that always returns, and a state action, which always returns a pair.\<close>

definition returns :: "'a io \<Rightarrow> bool" where
  "returns m \<longleftrightarrow> (\<forall>tr. \<exists>x tr'. m tr = (Inr x, tr'))"

lemma returns_bindIO:
  assumes "returns m" and "\<And>x. returns (f x)"
  shows "returns (bindIO m f)"
  unfolding returns_def
proof
  fix tr
  obtain x tr1 where "m tr = (Inr x, tr1)" using assms(1) unfolding returns_def by blast
  moreover obtain y tr2 where "f x tr1 = (Inr y, tr2)" using assms(2) [of x] unfolding returns_def by blast
  ultimately show "\<exists>y tr2. bindIO m f tr = (Inr y, tr2)" by (simp add: bindIO_def)
qed

lemma returns_basic: "returns (returnIO x)" "returns (ext_int E c)" "returns (ext_ints E c)" "returns (liftS a s)"
  "returns (returnS y s)" "returns (modifyS f s)"
  by (simp_all add: returns_def returnIO_def ext_int_def ext_ints_def liftS_def returnS_def modifyS_def split: prod.split)

lemma returns_bindS:
  assumes "\<And>s. returns (m s)" and "\<And>x s. returns (f x s)"
  shows "returns (bindS m f s)"
  unfolding bindS_def using assms by (auto intro!: returns_bindIO returns_basic split: sum.split)

lemma returns_if_S: "(p \<Longrightarrow> returns (f s)) \<Longrightarrow> (\<not> p \<Longrightarrow> returns (g s)) \<Longrightarrow> returns ((if p then f else g) s)"
  by simp

lemmas returns_intros = returns_bindIO returns_basic returns_bindS returns_if_S

lemma returns_server_loop: "returns (server_loop J E cfg profile outcome d c handled closing s)"
proof (induction J E cfg profile outcome d c handled closing arbitrary: s rule: server_loop.induct)
  case (1 J E cfg profile outcome d c handled closing)
  have "returns (send_reply J E m reply c s)" for m reply c s
    unfolding send_reply_def by (auto split: option.split intro!: returns_intros)
  then show ?case
    by (subst server_loop.simps) (auto split: prod.splits sum.splits option.splits intro!: returns_intros 1)
qed

lemma returns_server_session: "returns (server_session J E cfg profile peer fd s)"
  unfolding server_session_def server_establish_def server_handshake_def server_application_def
  by (auto intro!: returns_intros returns_server_loop split: prod.splits)

lemma returns_clock: "returns (iso8601_now E)" "returns (stopwatch_start E)" "returns (elapsed_ns E t)" "returns (sample_usage E m)"
  unfolding iso8601_now_def stopwatch_start_def elapsed_ns_def sample_usage_def by (intro returns_intros)+

lemma bindIO_InlE:
  assumes "bindIO m f tr = (Inl e, tr'')"
  obtains "m tr = (Inl e, tr'')" | x tr' where "m tr = (Inr x, tr')" "f x tr' = (Inl e, tr'')"
  using assms by (auto simp: bindIO_def split: prod.splits sum.splits)

lemma returns_bindE:
  assumes "bindIO m f tr = (Inl e, tr'')" and "returns m"
  obtains x tr' where "f x tr' = (Inl e, tr'')"
  using assms unfolding returns_def by (metis Inl_Inr_False bindIO_InlE prod.inject)

lemma record_metrics_error:
  assumes "record_metrics J E w m tr = (Inl e, tr')"
  shows "to_jsonl_line J m = Inl e"
  using assms unfolding record_metrics_def metrics_write_def metrics_enabled_def
  by (auto elim!: bindIO_InlE simp: ext_int_def returnIO_def liftE_def call_IO_def split: if_splits)

lemma conclude_error: "conclude r m = Inl e \<Longrightarrow> \<exists>why. e = UB why"
  by (cases e) (auto simp: conclude_def split: sum.splits if_splits)

lemma server_tail_error:
  assumes "server_tail J E w timer x tr = (Inl e, tr')"
  shows "(\<exists>m. to_jsonl_line J m = Inl e) \<or> (\<exists>why. e = UB why)"
proof (cases x)
  case (Pair r metrics)
  note t = assms [unfolded server_tail_def Pair prod.case]
  from t show ?thesis
  proof (rule bindIO_InlE)
    assume "liftE (conclude r metrics) tr = (Inl e, tr')"
    then show ?thesis using conclude_error by (auto simp: liftE_def)
  next
    fix m2 tr1
    assume "bindIO (elapsed_ns E timer) (\<lambda>ns. bindIO (sample_usage E (m2\<lparr>cm_connection_ns := ns\<rparr>))
       (\<lambda>metrics. record_metrics J E w metrics)) tr1 = (Inl e, tr')"
    then obtain ns tr2 where "bindIO (sample_usage E (m2\<lparr>cm_connection_ns := ns\<rparr>))
       (\<lambda>metrics. record_metrics J E w metrics) tr2 = (Inl e, tr')" using returns_clock(3) by (rule returns_bindE)
    then obtain m3 tr3 where "record_metrics J E w m3 tr3 = (Inl e, tr')" using returns_clock(4) by (rule returns_bindE)
    then show ?thesis using record_metrics_error by blast
  qed
qed

lemma handle_body_error:
  assumes "handle_body J E cfg profile w peer fd tr = (Inl e, tr')"
  shows "fst (generate_uuid_v4 E tr) = Inl e \<or> (\<exists>m. to_jsonl_line J m = Inl e) \<or> (\<exists>why. e = UB why)"
  using assms unfolding handle_body_eq
proof (rule bindIO_InlE)
  assume "generate_uuid_v4 E tr = (Inl e, tr')"
  then show ?thesis by simp
next
  fix cid tr1
  assume "bindIO (iso8601_now E) (\<lambda>ts. bindIO (stopwatch_start E) (\<lambda>timer. bindIO (server_session J E cfg profile peer fd
      (server_metrics cfg profile peer cid ts)) (server_tail J E w timer))) tr1 = (Inl e, tr')"
  then obtain ts tr2 where "bindIO (stopwatch_start E) (\<lambda>timer. bindIO (server_session J E cfg profile peer fd
      (server_metrics cfg profile peer cid ts)) (server_tail J E w timer)) tr2 = (Inl e, tr')"
    using returns_clock(1) by (rule returns_bindE)
  then obtain timer tr3 where "bindIO (server_session J E cfg profile peer fd
      (server_metrics cfg profile peer cid ts)) (server_tail J E w timer) tr3 = (Inl e, tr')"
    using returns_clock(2) by (rule returns_bindE)
  then obtain x tr4 where "server_tail J E w timer x tr4 = (Inl e, tr')"
    using returns_server_session by (rule returns_bindE)
  then show ?thesis using server_tail_error by blast
qed

text \<open>What a successful application phase sent and received.\<close>

lemma application_stream:
  assumes "server_application J E cfg profile outcome s tr = (Inr (Inr (), s'), tr')"
  shows "\<exists>es texts outs rest. tr' = tr @ es \<and>
    list_all2 (answers J E profile outcome (cc_max_frame_size (sv_common cfg))) texts outs \<and>
    sent es = concat (map fst outs) \<and>
    fst (frames_of (cc_max_frame_size (sv_common cfg)) (received es)) = texts @ rest \<and>
    length texts \<le> unat (sv_max_messages_per_connection cfg) \<and> (\<forall>x \<in> set (butlast outs). \<not> snd x) \<and>
    cm_application_bytes_sent s' = of_nat (length (sent es)) \<and>
    cm_application_bytes_received s' = of_nat (length (received es))"
proof -
  obtain d c handled s1 tr1 where a: "mk_Decoder (cc_max_frame_size (sv_common cfg)) = Inr d"
    "server_loop J E cfg profile outcome d IoCounters_zero 0 False s tr = (Inr (Inr (c, handled), s1), tr1)"
    "ssl_graceful_shutdown E tr1 = (Inr (), tr')"
    "cm_application_bytes_sent s' = bytes_sent c" "cm_application_bytes_received s' = bytes_received c"
    using assms unfolding server_application_def
    by (auto elim!: bindS_InrE liftS_InrE liftE_InrE simp: modifyS_eq)
  note d = mk_Decoder_fresh [OF a(1)]
  have "wf_decoder d" "max_frame_size d = cc_max_frame_size (sv_common cfg)" "pending d = []"
    by (simp_all add: d wf_decoder_def pending_def)
  note d = this
  obtain es where es: "tr1 = tr @ es" "loop_spec J E cfg profile outcome d IoCounters_zero 0 False c handled es"
    using server_loop_stream [OF a(2) d(1,2)] by blast
  obtain fs where fs: "tr' = tr1 @ fs" "sent fs = []" "received fs = []"
    using plain_checks(3) a(3) by (rule plain_silent)
  obtain texts outs rest where "list_all2 (answers J E profile outcome (cc_max_frame_size (sv_common cfg))) texts outs"
    "sent es = concat (map fst outs)" "fst (frames_of (cc_max_frame_size (sv_common cfg)) (received es)) = texts @ rest"
    "unat handled = length texts" "handled \<le> sv_max_messages_per_connection cfg" "\<forall>x \<in> set (butlast outs). \<not> snd x"
    "bytes_sent c = of_nat (length (sent es))" "bytes_received c = of_nat (length (received es))"
    using es(2) unfolding loop_spec_def d(2,3) IoCounters_zero_def by auto
  then show ?thesis using es(1) fs a(4,5)
    by (intro exI [of _ "es @ fs"] exI [of _ texts] exI [of _ outs] exI [of _ rest]) (simp add: word_le_nat_alt)
qed

section \<open>Properties\<close>

text \<open>
  C3.  The server enforces the policy too: every \<open>SSL_read\<close> and \<open>SSL_write\<close> of a connection
  comes after the negotiated group was found permitted by the profile and, unless the insecure
  development mode is on, the verification result was \<open>X509_V_OK\<close> and, where the configuration
  or the profile requires client certificates, one was presented.  However the handler ends, it closes
  the descriptor it was given, once, and touches no other.
\<close>

theorem server_data_after_policy:
  "\<exists>es. snd (handle_connection J E cfg profile w (fd, peer) tr) = tr @ es \<and>
     gated (cleared profile (sv_common cfg) (want_client_cert cfg profile)) es \<and>
     opened es = {#} \<and> closed es = (if fd \<ge> 0 then {#fd#} else {#})"
proof -
  obtain r tr1 where r: "handle_body J E cfg profile w peer fd tr = (r, tr1)" by (metis prod.exhaust)
  obtain es where es: "tr1 = tr @ es" "gated (cleared profile (sv_common cfg) (want_client_cert cfg profile)) es"
    using handle_body_gates r by (rule gatesD)
  obtain es' where "tr1 = tr @ es'" "\<forall>e \<in> set es'. keeps_fds (ev_call e)"
    using handle_body_keeps_fds r by (rule only_callsD)
  then have fds: "opened es = {#}" "closed es = {#}" using es(1) keeps_fds_trace by auto
  have "gated (cleared profile (sv_common cfg) (want_client_cert cfg profile))
      (es @ (if fd \<ge> 0 then [Ev (Sys (Close fd)) RVoid] else []))"
    using es(2) by (rule gated_append_quiet) simp
  then show ?thesis using es(1) fds r
    by (intro exI [of _ "es @ (if fd \<ge> 0 then [Ev (Sys (Close fd)) RVoid] else [])"])
       (simp add: handle_connection_trace)
qed

text \<open>The reply to a request, as a table.\<close>

fun reply_type :: "MessageType \<Rightarrow> MessageType option" where
  "reply_type Ping = Some Pong"
| "reply_type Echo = Some Acknowledgement"
| "reply_type Telemetry = Some Acknowledgement"
| "reply_type Capabilities = Some Acknowledgement"
| "reply_type Close_message = None"
| "reply_type _ = Some Error_message"

definition reply_payload ::
  "('j, 'z) json_api_scheme \<Rightarrow> SecurityProfile \<Rightarrow> HandshakeOutcome \<Rightarrow> 'j Message \<Rightarrow> 'j" where
  "reply_payload J profile outcome req =
     (if m_type req = Echo then m_payload req
      else if m_type req = Capabilities then build_capabilities_payload J profile outcome
      else if reply_type (m_type req) = Some Error_message
      then j_set J (j_null J) ''reason'' (j_of_string J (''message type '' @ quoted (to_string_MessageType (m_type req)) @
             '' is a response type and is not accepted from a client''))
      else j_object J)"



definition two_messages :: ServerConfig where
  "two_messages = ServerConfig_default\<lparr>sv_max_messages_per_connection := 2\<rparr>"

definition group_outcome :: HandshakeOutcome where
  "group_outcome = \<lparr>h_tls_version = ''TLSv1.3'', h_negotiated_group = ''X25519MLKEM768'', h_cipher_suite = [],
     h_peer_signature_algorithm = [], h_peer_certificate_subject = [], h_peer_certificate_issuer = [],
     h_session_reused = False, h_peer_certificate_present = False\<rparr>"

definition loop_application :: "(unit result \<times> ConnectionMetrics) result \<times> trace" where
  "loop_application = server_application terse_json loop_env two_messages hybrid_profile group_outcome ConnectionMetrics_default []"

lemma loop_application_ok: "case fst loop_application of Inr (Inr u, m) \<Rightarrow> cm_protocol_message_count m = 4 | _ \<Rightarrow> False"
  by code_simp

lemma application_outcome:
  assumes "case fst x of Inr (Inr u, m) \<Rightarrow> P m | _ \<Rightarrow> False"
  obtains m tr where "x = (Inr (Inr (), m), tr)"
proof (cases x)
  case (Pair a b)
  then show thesis using assms that by (cases a; cases "projr a"; cases "fst (projr a)") auto
qed


text \<open>What is written after the \<open>try\<close> block.\<close>

lemma conclude_metrics:
  assumes "conclude r m = Inr m'" and "cm_error_message m = None" and "r = Inr () \<Longrightarrow> cm_success m \<and> negotiated_under profile m"
  shows "cm_success m' \<Longrightarrow> negotiated_under profile m'" "cm_success m' = (cm_error_message m' = None)" "cm_role m' = cm_role m"
    "cm_requested_profile m' = cm_requested_profile m" "cm_negotiated_profile m' = cm_negotiated_profile m"
    "cm_experiment_id m' = cm_experiment_id m" "cm_peer_address m' = cm_peer_address m"
  using assms by (auto simp: conclude_def split: sum.splits if_splits)

lemma sample_usage_identity:
  assumes "sample_usage E m tr = (Inr m', tr')"
  shows "identity_of m' = identity_of m \<and> cm_success m' = cm_success m"
  using assms unfolding sample_usage_def by (auto simp: io_simps identity_of_def split: list.splits)

lemma handle_body_record:
  assumes "handle_body J E cfg profile w peer fd tr = (Inr (), tr')" and "stream_open E"
  shows "\<exists>es m. tr' = tr @ es \<and> recorded J w m es \<and> cm_role m = Server \<and>
    cm_requested_profile m = cc_profile_id (sv_common cfg) \<and> cm_negotiated_profile m = profile_id profile \<and>
    cm_experiment_id m = cc_experiment_id (sv_common cfg) \<and> cm_peer_address m = peer \<and>
    cm_success m = (cm_error_message m = None) \<and> (cm_success m \<longrightarrow> negotiated_under profile m)"
proof -
  obtain cid ts timer tr1 tr2 tr3 r m tr4 m2 ns tr5 m3 tr6 where a: "generate_uuid_v4 E tr = (Inr cid, tr1)"
    "iso8601_now E tr1 = (Inr ts, tr2)" "stopwatch_start E tr2 = (Inr timer, tr3)"
    and s: "server_session J E cfg profile peer fd (server_metrics cfg profile peer cid ts) tr3 = (Inr (r, m), tr4)"
    and c: "conclude r m = Inr m2" and t: "elapsed_ns E timer tr4 = (Inr ns, tr5)"
      "sample_usage E (m2\<lparr>cm_connection_ns := ns\<rparr>) tr5 = (Inr m3, tr6)"
    and w: "record_metrics J E w m3 tr6 = (Inr (), tr')"
    using assms(1) unfolding handle_body_def by (elim bindIO_InrE liftE_InrE) (auto elim!: bindIO_InrE liftE_InrE)
  have silent: "\<exists>es. t' = t @ es \<and> records es = []" if "only_calls Q x" "x t = (q, t')" "\<And>c. Q c \<Longrightarrow> \<not> metrics_call c"
    for Q x t t' and q :: "'q result"
    using that no_records by (metis only_callsD)
  have "\<exists>es. tr6 = tr @ es \<and> records es = []"
  proof -
    obtain e1 where e1: "tr1 = tr @ e1" "records e1 = []" using silent [OF plain_clock(1) a(1) plain_no_metrics] by blast
    obtain e2 where e2: "tr2 = tr1 @ e2" "records e2 = []" using silent [OF plain_clock(2) a(2) plain_no_metrics] by blast
    obtain e3 where e3: "tr3 = tr2 @ e3" "records e3 = []" using silent [OF plain_clock(3) a(3) plain_no_metrics] by blast
    obtain e4 where e4: "tr4 = tr3 @ e4" "records e4 = []"
      using silent [OF session_server_session s session_no_metrics] by blast
    obtain e5 where e5: "tr5 = tr4 @ e5" "records e5 = []" using silent [OF plain_clock(4) t(1) plain_no_metrics] by blast
    obtain e6 where "tr6 = tr5 @ e6" "records e6 = []" using silent [OF plain_clock(5) t(2) plain_no_metrics] by blast
    then show ?thesis using e1 e2 e3 e4 e5 by simp
  qed
  then obtain es0 where es0: "tr6 = tr @ es0" "records es0 = []" by blast
  obtain es1 where es1: "tr' = tr6 @ es1" "recorded J w m3 es1" using record_metrics_recorded [OF w assms(2)] by blast
  have "identity_of m = identity_of (server_metrics cfg profile peer cid ts)" by (rule session_metrics(1) [OF s])
  then have m: "cm_error_message m = None" "cm_role m = Server" "cm_requested_profile m = cc_profile_id (sv_common cfg)"
    "cm_negotiated_profile m = profile_id profile" "cm_experiment_id m = cc_experiment_id (sv_common cfg)" "cm_peer_address m = peer"
    by (simp_all add: identity_of_def server_metrics_def ConnectionMetrics_default_def)
  have "cm_success m \<and> negotiated_under profile m" if "r = Inr ()" using session_metrics(2) [OF s that] by blast
  note m2 = conclude_metrics [OF c m(1) this]
  have "cm_role m3 = Server \<and> cm_requested_profile m3 = cc_profile_id (sv_common cfg) \<and> cm_negotiated_profile m3 = profile_id profile \<and>
    cm_experiment_id m3 = cc_experiment_id (sv_common cfg) \<and> cm_peer_address m3 = peer \<and> cm_success m3 = (cm_error_message m3 = None) \<and>
    (cm_success m3 \<longrightarrow> negotiated_under profile m3)"
    using sample_usage_identity [OF t(2)] negotiated_under_cong [OF sample_usage_negotiation [OF t(2)]]
      negotiated_under_cong [of "m2\<lparr>cm_connection_ns := ns\<rparr>" m2] m2 m by (simp add: identity_of_def)
  moreover have "recorded J w m3 (es0 @ es1)" using es0(2) es1(2) by (rule recorded_after)
  ultimately show ?thesis using es0(1) es1(1) by (intro exI [of _ "es0 @ es1"] exI [of _ m3]) simp
qed

text \<open>What a handled connection records.\<close>

lemma handle_connection_facts:
  assumes "handle_connection J E cfg profile w (fd, peer) tr = (Inr (), tr')" and "stream_open E"
  shows "\<exists>es m. tr' = tr @ es \<and> recorded J w m es \<and> cm_role m = Server \<and>
    cm_requested_profile m = cc_profile_id (sv_common cfg) \<and> cm_negotiated_profile m = profile_id profile \<and>
    cm_experiment_id m = cc_experiment_id (sv_common cfg) \<and> cm_peer_address m = peer \<and>
    cm_success m = (cm_error_message m = None) \<and> (cm_success m \<longrightarrow> negotiated_under profile m)"
proof -
  obtain tr1 where b: "handle_body J E cfg profile w peer fd tr = (Inr (), tr1)"
    and tr': "tr' = tr1 @ (if fd \<ge> 0 then [Ev (Sys (Close fd)) RVoid] else [])"
    using assms(1) handle_connection_trace [of J E cfg profile w fd peer tr]
    by (auto simp: handle_connection_def split: prod.splits)
  from handle_body_record [OF b assms(2)] tr' show ?thesis
    by (elim exE conjE) (rule exI, rule exI, intro conjI, simp, rule recorded_before, auto)
qed

text \<open>
  C26.  Every connection leaves one truthful record: when \<open>handle_connection\<close> returns and the
  metrics stream is open, exactly one line was written (none without a writer), of metrics that name
  the server's role, the requested and the enforced profile, the experiment and the peer, that carry
  an error message exactly when they do not say success, and that in a success name a group which the
  enforced profile permits, correctly classified.
\<close>

theorem handle_connection_record:
  assumes "handle_connection J E cfg profile w (fd, peer) tr = (Inr (), tr')" and "stream_open E"
  shows "\<exists>es m. tr' = tr @ es \<and> recorded J w m es \<and> cm_role m = Server \<and>
    cm_requested_profile m = cc_profile_id (sv_common cfg) \<and> cm_negotiated_profile m = profile_id profile \<and>
    cm_experiment_id m = cc_experiment_id (sv_common cfg) \<and> cm_peer_address m = peer \<and>
    cm_success m = (cm_error_message m = None) \<and> (cm_success m \<longrightarrow> negotiated_under profile m)"
  by (rule handle_connection_facts [OF assms])

definition loop_handled :: "unit result \<times> trace" where
  "loop_handled = handle_connection terse_json loop_env (two_messages\<lparr>sv_max_messages_per_connection := 1\<rparr>) hybrid_profile True (7, ''peer'') []"

lemma loop_handled_ok: "fst loop_handled = Inr ()"
  by code_simp

theorem handle_connection_record_witness:
  "\<exists>m. recorded terse_json True m (snd loop_handled) \<and> cm_role m = Server \<and> cm_peer_address m = ''peer''"
proof -
  have "loop_handled = (Inr (), snd loop_handled)" using loop_handled_ok by (metis prod.collapse)
  from handle_connection_record [OF this [unfolded loop_handled_def] stream_open_loop_env]
  show ?thesis by (auto simp: loop_handled_def)
qed


text \<open>
  C17.  One client cannot take a worker down: whatever the peer sends and however the handshake, the
  policy checks and the application loop fail, no exception leaves \<open>handle_connection\<close>, except a
  failure of the random generator before the connection is touched and a failure to render the
  metrics record after it is done (and runs in which a library broke its contract).
\<close>

theorem handle_connection_isolated:
  "case fst (handle_connection J E cfg profile w (fd, peer) tr) of Inr u \<Rightarrow> True
   | Inl e \<Rightarrow> fst (generate_uuid_v4 E tr) = Inl e \<or> (\<exists>m. to_jsonl_line J m = Inl e) \<or> (\<exists>why. e = UB why)"
proof -
  obtain r tr1 where r: "handle_body J E cfg profile w peer fd tr = (r, tr1)" by (metis prod.exhaust)
  then show ?thesis using handle_body_error [of J E cfg profile w peer fd tr]
    by (auto simp: handle_connection_def split: sum.split)
qed

end
