(* ===== verification/Sockets.thy ===== *)
theory Sockets
  imports Prelude "HOL-Library.Multiset"
begin

text \<open>
  Ownership of file descriptors.  The first part is the contract that any party handling descriptors
  has to meet, with what follows from it: nothing leaks, nothing is closed twice, nothing has two
  owners.  The second part is the class \<open>Socket\<close> of \<open>include/pqtls/transport.hpp\<close> and
  \<open>src/common/transport.cpp\<close>, whose constructors, assignments and destructor pass descriptors
  between objects: an explicit store of objects, as the claim is about what they share.
\<close>

section \<open>Custody of descriptors\<close>

text \<open>
  The state tells which descriptors were opened and closed so far and which are in somebody's hands.
  A step takes a descriptor over from the system, which hands out none that is open, or gives some up
  by closing them; it hands the others around.
\<close>

definition in_order :: "int multiset \<Rightarrow> int multiset \<Rightarrow> int multiset \<Rightarrow> bool" where
  "in_order opened closed held \<longleftrightarrow> opened = closed + held \<and> (\<forall>fd. count held fd \<le> 1)"

locale fd_custody =
  fixes init :: 's
    and move :: "'s \<Rightarrow> 's \<Rightarrow> bool"
    and opened :: "'s \<Rightarrow> int multiset"
    and closed :: "'s \<Rightarrow> int multiset"
    and held :: "'s \<Rightarrow> int multiset"
  assumes init_in_order: "in_order (opened init) (closed init) (held init)"
    and move_accounts: "move s s' \<Longrightarrow>
      closed s' = closed s \<and> (\<exists>fd. fd \<notin># opened s - closed s \<and> opened s' = add_mset fd (opened s) \<and> held s' = add_mset fd (held s)) \<or>
      opened s' = opened s \<and> (\<exists>given. closed s' = closed s + given \<and> held s = held s' + given)"
begin

lemma move_in_order:
  assumes "move s s'" and inv: "in_order (opened s) (closed s) (held s)"
  shows "in_order (opened s') (closed s') (held s')"
  using move_accounts [OF assms(1)]
proof (elim disjE conjE exE)
  fix fd
  assume fd: "fd \<notin># opened s - closed s" "opened s' = add_mset fd (opened s)" "held s' = add_mset fd (held s)" "closed s' = closed s"
  then have "count (held s) fd = 0" using inv by (simp add: in_order_def not_in_iff)
  then show ?thesis using fd inv by (simp add: in_order_def)
next
  fix given
  assume g: "opened s' = opened s" "closed s' = closed s + given" "held s = held s' + given"
  have "count (held s') fd \<le> 1" for fd
    using inv unfolding in_order_def g(3) by (metis add_leE count_union)
  then show ?thesis using g(1,2) inv unfolding in_order_def g(3) by (simp add: ac_simps)
qed

lemma custody: "move\<^sup>*\<^sup>* init s \<Longrightarrow> in_order (opened s) (closed s) (held s)"
  by (induction rule: rtranclp_induct) (auto intro: init_in_order move_in_order)

text \<open>A step closes only what is open, so it cannot hit a descriptor that was closed and used again.\<close>

lemma closes_only_open:
  assumes "move\<^sup>*\<^sup>* init s" and "move s s'"
  shows "closed s' - closed s \<subseteq># opened s' - closed s"
proof -
  have "opened s' = closed s' + held s'"
    using custody [OF rtranclp.rtrancl_into_rtrancl [OF assms]] by (simp add: in_order_def)
  moreover obtain given where "closed s' = closed s + given" using move_accounts [OF assms(2)] that [of "{#}"] by auto
  ultimately show ?thesis by simp
qed

lemma nothing_held_nothing_open: "move\<^sup>*\<^sup>* init s \<Longrightarrow> held s = {#} \<Longrightarrow> opened s = closed s"
  using custody by (simp add: in_order_def)

end

section \<open>The class\<close>

text \<open>
  An object is a cell of \<open>so_objects\<close>, dead cells are \<open>None\<close> and a live one holds \<open>fd_\<close>.
  \<open>so_loose\<close> are the descriptors that code holds as plain integers: what \<open>socket\<close> and
  \<open>accept\<close> returned, what \<open>release\<close> gave away, the \<open>fd\<close> of a \<open>PendingConnection\<close>.
\<close>

record sockets =
  so_objects :: "int option list"
  so_loose :: "int multiset"
  so_opened :: "int multiset"
  so_closed :: "int multiset"

definition no_sockets :: sockets where
  "no_sockets = \<lparr>so_objects = [], so_loose = {#}, so_opened = {#}, so_closed = {#}\<rparr>"

definition alive :: "sockets \<Rightarrow> nat \<Rightarrow> bool" where
  "alive s x \<longleftrightarrow> x < length (so_objects s) \<and> so_objects s ! x \<noteq> None"

definition fd_of :: "sockets \<Rightarrow> nat \<Rightarrow> int" where
  "fd_of s x = (case so_objects s ! x of Some fd \<Rightarrow> fd | None \<Rightarrow> - 1)"

definition set_fd :: "nat \<Rightarrow> int \<Rightarrow> sockets \<Rightarrow> sockets" where
  "set_fd x fd s = s\<lparr>so_objects := (so_objects s)[x := Some fd]\<rparr>"

text \<open>The descriptor in a cell, if any.\<close>

definition object_fds :: "int option \<Rightarrow> int multiset" where
  "object_fds c = (case c of Some fd \<Rightarrow> if fd \<ge> 0 then {#fd#} else {#} | None \<Rightarrow> {#})"

text \<open>\<open>valid()\<close>.\<close>

definition valid :: "sockets \<Rightarrow> nat \<Rightarrow> bool" where
  "valid s x \<longleftrightarrow> fd_of s x \<ge> 0"

text \<open>The constructors: \<open>Socket()\<close>, \<open>Socket(int)\<close> and the move constructor; the new object is the last cell.\<close>

definition Socket_default :: "sockets \<Rightarrow> sockets" where
  "Socket_default s = s\<lparr>so_objects := so_objects s @ [Some (- 1)]\<rparr>"

definition Socket_of_fd :: "int \<Rightarrow> sockets \<Rightarrow> sockets" where
  "Socket_of_fd fd s = s\<lparr>so_objects := so_objects s @ [Some fd], so_loose := so_loose s - object_fds (Some fd)\<rparr>"

definition Socket_move :: "nat \<Rightarrow> sockets \<Rightarrow> sockets" where
  "Socket_move other s = set_fd other (- 1) (s\<lparr>so_objects := so_objects s @ [Some (fd_of s other)]\<rparr>)"

text \<open>\<open>close()\<close>, with \<open>close_fd\<close> in it.\<close>

definition Socket_close :: "nat \<Rightarrow> sockets \<Rightarrow> sockets" where
  "Socket_close x s =
     (if fd_of s x \<ge> 0 then set_fd x (- 1) (s\<lparr>so_closed := add_mset (fd_of s x) (so_closed s)\<rparr>) else s)"

text \<open>The move assignment.\<close>

definition Socket_assign :: "nat \<Rightarrow> nat \<Rightarrow> sockets \<Rightarrow> sockets" where
  "Socket_assign x other s =
     (if x \<noteq> other then
        let s1 = Socket_close x s; s2 = set_fd x (fd_of s1 other) s1 in set_fd other (- 1) s2
      else s)"

definition Socket_release :: "nat \<Rightarrow> sockets \<Rightarrow> sockets" where
  "Socket_release x s =
     (let fd = fd_of s x; s1 = set_fd x (- 1) s in
      if fd \<ge> 0 then s1\<lparr>so_loose := add_mset fd (so_loose s1)\<rparr> else s1)"

text \<open>The destructor closes, and the object is gone.\<close>

definition Socket_destroy :: "nat \<Rightarrow> sockets \<Rightarrow> sockets" where
  "Socket_destroy x s = (let s1 = Socket_close x s in s1\<lparr>so_objects := (so_objects s1)[x := None]\<rparr>)"

text \<open>
  A program that uses the class: the system hands out a descriptor that is not open, an object takes
  over a descriptor that is loose (or none), and live objects are operated on.
\<close>

inductive socket_step :: "sockets \<Rightarrow> sockets \<Rightarrow> bool" where
  system_opens: "fd \<ge> 0 \<Longrightarrow> fd \<notin># so_opened s - so_closed s \<Longrightarrow>
    socket_step s (s\<lparr>so_opened := add_mset fd (so_opened s), so_loose := add_mset fd (so_loose s)\<rparr>)"
| construct: "socket_step s (Socket_default s)"
| construct_of: "fd < 0 \<or> fd \<in># so_loose s \<Longrightarrow> socket_step s (Socket_of_fd fd s)"
| construct_move: "alive s other \<Longrightarrow> socket_step s (Socket_move other s)"
| assign: "alive s x \<Longrightarrow> alive s other \<Longrightarrow> socket_step s (Socket_assign x other s)"
| close: "alive s x \<Longrightarrow> socket_step s (Socket_close x s)"
| release: "alive s x \<Longrightarrow> socket_step s (Socket_release x s)"
| destroy: "alive s x \<Longrightarrow> socket_step s (Socket_destroy x s)"

section \<open>Who owns what\<close>

definition objects_fds :: "int option list \<Rightarrow> int multiset" where
  "objects_fds cs = sum_list (map object_fds cs)"

definition so_held :: "sockets \<Rightarrow> int multiset" where
  "so_held s = so_loose s + objects_fds (so_objects s)"

lemma object_fds_simps [simp]: "object_fds None = {#}" "object_fds (Some (- 1)) = {#}" "fd \<ge> 0 \<Longrightarrow> object_fds (Some fd) = {#fd#}"
  "fd < 0 \<Longrightarrow> object_fds (Some fd) = {#}"
  by (simp_all add: object_fds_def)

lemma objects_fds_append [simp]: "objects_fds [] = {#}" "objects_fds (cs @ [c]) = objects_fds cs + object_fds c"
  by (simp_all add: objects_fds_def)

lemma objects_fds_update:
  assumes "x < length cs"
  shows "objects_fds (cs[x := c]) + object_fds (cs ! x) = objects_fds cs + object_fds c"
  using assms
proof (induction cs arbitrary: x)
  case (Cons d cs)
  then show ?case by (cases x) (auto simp: objects_fds_def ac_simps)
qed simp

lemma alive_fds: "alive s x \<Longrightarrow> object_fds (so_objects s ! x) = object_fds (Some (fd_of s x))"
  by (auto simp: alive_def fd_of_def)

lemma set_fd_simps [simp]:
  "so_loose (set_fd x fd s) = so_loose s" "so_opened (set_fd x fd s) = so_opened s" "so_closed (set_fd x fd s) = so_closed s"
  "alive s x \<Longrightarrow> alive (set_fd y fd s) x"
  "alive s y \<Longrightarrow> fd_of (set_fd y fd s) x = (if x = y then fd else fd_of s x)"
  by (cases "x = y"; simp add: set_fd_def alive_def fd_of_def)+

text \<open>Writing \<open>fd_\<close> of one object.\<close>

lemma set_fd_objects:
  assumes "alive s x"
  shows "objects_fds (so_objects (set_fd x fd s)) + object_fds (Some (fd_of s x)) =
    objects_fds (so_objects s) + object_fds (Some fd)"
  using objects_fds_update [of x "so_objects s" "Some fd"] assms
  by (simp add: set_fd_def flip: alive_fds) (simp add: alive_def)

text \<open>An operation that closes the descriptors \<open>g\<close> and keeps the others in custody.\<close>

definition gives_up :: "int multiset \<Rightarrow> sockets \<Rightarrow> sockets \<Rightarrow> bool" where
  "gives_up g s s' \<longleftrightarrow> so_opened s' = so_opened s \<and> so_closed s' = so_closed s + g \<and> so_held s = so_held s' + g"

lemma gives_up_trans: "gives_up g s t \<Longrightarrow> gives_up h t u \<Longrightarrow> gives_up (g + h) s u"
  by (simp add: gives_up_def ac_simps)

lemma gives_up_close:
  assumes "alive s x"
  shows "gives_up (object_fds (Some (fd_of s x))) s (Socket_close x s)"
  using set_fd_objects [OF assms, of "- 1"]
  by (cases "fd_of s x \<ge> 0") (auto simp: gives_up_def Socket_close_def so_held_def set_fd_def)

lemma close_keeps:
  assumes "alive s x"
  shows "alive s y \<Longrightarrow> alive (Socket_close x s) y" "\<not> valid (Socket_close x s) x"
    "y \<noteq> x \<Longrightarrow> fd_of (Socket_close x s) y = fd_of s y" "length (so_objects (Socket_close x s)) = length (so_objects s)"
  using assms by (auto simp: Socket_close_def valid_def alive_def fd_of_def set_fd_def nth_list_update)

lemma gives_up_move:
  assumes "alive s other"
  shows "gives_up {#} s (Socket_move other s)"
proof -
  define t where "t = s\<lparr>so_objects := so_objects s @ [Some (fd_of s other)]\<rparr>"
  have t: "alive t other" "fd_of t other = fd_of s other" using assms by (auto simp: t_def alive_def fd_of_def nth_append)
  have "objects_fds (so_objects (set_fd other (- 1) t)) = objects_fds (so_objects s)"
    using set_fd_objects [OF t(1), of "- 1"] t(2) by (simp add: t_def)
  then show ?thesis by (simp add: gives_up_def Socket_move_def so_held_def t_def)
qed

text \<open>The second half of the assignment: the emptied object takes over what the other one has.\<close>

lemma gives_up_take_over:
  assumes "alive s x" "alive s other" "x \<noteq> other" "\<not> valid s x"
  shows "gives_up {#} s (set_fd other (- 1) (set_fd x (fd_of s other) s))"
proof -
  define t where "t = set_fd x (fd_of s other) s"
  have t: "alive t other" "fd_of t other = fd_of s other" using assms by (auto simp: t_def)
  have "objects_fds (so_objects t) = objects_fds (so_objects s) + object_fds (Some (fd_of s other))"
    using set_fd_objects [OF assms(1), of "fd_of s other"] assms(4) by (simp add: t_def valid_def)
  then have "objects_fds (so_objects (set_fd other (- 1) t)) = objects_fds (so_objects s)"
    using set_fd_objects [OF t(1), of "- 1"] t(2) by simp
  then show ?thesis by (simp add: gives_up_def so_held_def t_def)
qed

lemma gives_up_assign:
  assumes "alive s x" "alive s other"
  shows "\<exists>g. gives_up g s (Socket_assign x other s)"
proof (cases "x = other")
  case True
  then show ?thesis by (intro exI [of _ "{#}"]) (simp add: Socket_assign_def gives_up_def)
next
  case False
  note c = close_keeps [OF assms(1)]
  have "gives_up {#} (Socket_close x s) (Socket_assign x other s)"
    using gives_up_take_over [OF c(1) [OF assms(1)] c(1) [OF assms(2)] False c(2)] False by (simp add: Socket_assign_def Let_def)
  then show ?thesis using gives_up_trans [OF gives_up_close [OF assms(1)]] by blast
qed

lemma gives_up_release:
  assumes "alive s x"
  shows "gives_up {#} s (Socket_release x s)"
  using set_fd_objects [OF assms, of "- 1"]
  by (cases "fd_of s x \<ge> 0") (auto simp: gives_up_def Socket_release_def Let_def so_held_def)

lemma gives_up_destroy:
  assumes "alive s x"
  shows "\<exists>g. gives_up g s (Socket_destroy x s)"
proof -
  define t where "t = Socket_close x s"
  have t: "alive t x" "\<not> valid t x" using close_keeps [OF assms] assms by (auto simp: t_def)
  have "gives_up {#} t (t\<lparr>so_objects := (so_objects t)[x := None]\<rparr>)"
    using objects_fds_update [of x "so_objects t" None] t alive_fds [OF t(1)]
    by (auto simp: gives_up_def so_held_def valid_def alive_def)
  then show ?thesis
    using gives_up_trans [OF gives_up_close [OF assms]] unfolding Socket_destroy_def Let_def t_def by blast
qed

lemma gives_up_construct: "gives_up {#} s (Socket_default s)"
  "fd < 0 \<or> fd \<in># so_loose s \<Longrightarrow> gives_up {#} s (Socket_of_fd fd s)"
  by (auto simp: gives_up_def Socket_default_def Socket_of_fd_def so_held_def object_fds_def)

lemmas gives_up_intros = gives_up_close gives_up_move gives_up_release gives_up_construct

lemma socket_step_gives_up:
  assumes "socket_step s s'"
  obtains fd where "fd \<ge> 0" "fd \<notin># so_opened s - so_closed s"
      "s' = s\<lparr>so_opened := add_mset fd (so_opened s), so_loose := add_mset fd (so_loose s)\<rparr>"
  | g where "gives_up g s s'"
  using assms by cases (metis gives_up_intros gives_up_assign gives_up_destroy)+

interpretation sock: fd_custody no_sockets socket_step so_opened so_closed so_held
proof
  show "in_order (so_opened no_sockets) (so_closed no_sockets) (so_held no_sockets)"
    by (simp add: in_order_def no_sockets_def so_held_def)
next
  fix s s'
  assume "socket_step s s'"
  then show "so_closed s' = so_closed s \<and> (\<exists>fd. fd \<notin># so_opened s - so_closed s \<and> so_opened s' = add_mset fd (so_opened s) \<and>
      so_held s' = add_mset fd (so_held s)) \<or>
    so_opened s' = so_opened s \<and> (\<exists>given. so_closed s' = so_closed s + given \<and> so_held s = so_held s' + given)"
    by (cases rule: socket_step_gives_up) (auto simp: so_held_def gives_up_def)
qed

lemma objects_fds_two:
  assumes "x < length cs" "y < length cs" "x \<noteq> y"
  shows "\<exists>rest. objects_fds cs = object_fds (cs ! x) + object_fds (cs ! y) + rest"
proof -
  have "objects_fds cs = objects_fds (cs[x := None]) + object_fds (cs ! x)"
    using objects_fds_update [of x cs None] assms(1) by simp
  moreover have "objects_fds (cs[x := None]) = objects_fds (cs[x := None, y := None]) + object_fds (cs ! y)"
    using objects_fds_update [of y "cs[x := None]" None] assms by simp
  ultimately show ?thesis by (auto simp: ac_simps)
qed

lemma sole_owner:
  assumes "in_order (so_opened s) (so_closed s) (so_held s)" "alive s x" "alive s y" "valid s x" "fd_of s x = fd_of s y"
  shows "x = y"
proof (rule ccontr)
  assume "x \<noteq> y"
  then obtain rest where "objects_fds (so_objects s) = {#fd_of s x#} + {#fd_of s x#} + rest"
    using objects_fds_two [of x "so_objects s" y] assms(2-5) by (auto simp: alive_def valid_def fd_of_def)
  then have "count (so_held s) (fd_of s x) \<ge> 2" by (simp add: so_held_def)
  moreover have "count (so_held s) (fd_of s x) \<le> 1" using assms(1) by (simp add: in_order_def)
  ultimately show False by linarith
qed

lemma all_dead_fds: "set cs \<subseteq> {None} \<Longrightarrow> objects_fds cs = {#}"
  by (induction cs) (auto simp: objects_fds_def)

lemma no_objects_no_fds: "\<forall>x. \<not> alive s x \<Longrightarrow> objects_fds (so_objects s) = {#}"
  by (rule all_dead_fds) (auto simp: alive_def in_set_conv_nth)

section \<open>Properties\<close>

text \<open>
  C20.  A descriptor has one owner at any time: in every program that uses \<open>Socket\<close>, whatever the
  order of constructions, moves, assignments (to itself too), releases, closes and destructions, each
  open descriptor is held exactly once, by one live object or as one loose integer; \<open>close\<close> is only
  called on an open descriptor, so never twice on the same one; and once no object is alive and
  nothing is loose, every descriptor that was opened has been closed.
\<close>

theorem sockets_single_owner:
  assumes "socket_step\<^sup>*\<^sup>* no_sockets s"
  shows "so_opened s = so_closed s + so_held s \<and>
    (\<forall>x y. alive s x \<and> alive s y \<and> valid s x \<and> fd_of s x = fd_of s y \<longrightarrow> x = y \<and> fd_of s x \<notin># so_loose s) \<and>
    (\<forall>s'. socket_step s s' \<longrightarrow> so_closed s' - so_closed s \<subseteq># so_opened s' - so_closed s) \<and>
    ((\<forall>x. \<not> alive s x) \<and> so_loose s = {#} \<longrightarrow> so_opened s = so_closed s)"
proof -
  note inv = sock.custody [OF assms]
  have loose: "fd_of s x \<notin># so_loose s" if "alive s x" "valid s x" for x
  proof -
    have "objects_fds (so_objects s) = objects_fds ((so_objects s)[x := None]) + {#fd_of s x#}"
      using objects_fds_update [of x "so_objects s" None] that alive_fds [OF that(1)] by (simp add: alive_def valid_def)
    then have "count (so_loose s) (fd_of s x) + 1 \<le> count (so_held s) (fd_of s x)" by (simp add: so_held_def)
    moreover have "count (so_held s) (fd_of s x) \<le> 1" using inv by (simp add: in_order_def)
    ultimately show ?thesis by (simp add: not_in_iff)
  qed
  have "so_opened s = so_closed s" if "\<forall>x. \<not> alive s x" "so_loose s = {#}"
    using sock.nothing_held_nothing_open [OF assms] no_objects_no_fds [OF that(1)] that(2) by (simp add: so_held_def)
  moreover have "so_opened s = so_closed s + so_held s" using inv by (simp add: in_order_def)
  ultimately show ?thesis using sole_owner [OF inv] loose sock.closes_only_open [OF assms] by blast
qed

text \<open>
  An accepted connection from the acceptor to a worker: \<open>client\<close> adopts the descriptor and releases
  it into the queue, the handler's \<open>socket\<close> adopts it, and both objects are destroyed.
\<close>

definition handed_over :: sockets where
  "handed_over = Socket_destroy 1 (Socket_of_fd 7 (Socket_destroy 0 (Socket_release 0 (Socket_of_fd 7
     (no_sockets\<lparr>so_opened := {#7#}, so_loose := {#7#}\<rparr>)))))"

lemma handed_over_reachable: "socket_step\<^sup>*\<^sup>* no_sockets handed_over"
proof -
  define s0 where "s0 = no_sockets\<lparr>so_opened := add_mset 7 (so_opened no_sockets), so_loose := add_mset 7 (so_loose no_sockets)\<rparr>"
  define s1 where "s1 = Socket_of_fd 7 s0"
  define s2 where "s2 = Socket_release 0 s1"
  define s3 where "s3 = Socket_destroy 0 s2"
  define s4 where "s4 = Socket_of_fd 7 s3"
  note defs = s4_def s3_def s2_def s1_def s0_def no_sockets_def Socket_of_fd_def Socket_release_def Socket_destroy_def
    Socket_close_def set_fd_def fd_of_def alive_def Let_def
  have "socket_step no_sockets s0" unfolding s0_def by (rule system_opens) (simp_all add: no_sockets_def)
  moreover have "socket_step s0 s1" unfolding s1_def by (rule construct_of) (simp add: s0_def)
  moreover have "socket_step s1 s2" unfolding s2_def by (rule release) (simp add: defs)
  moreover have "socket_step s2 s3" unfolding s3_def by (rule destroy) (simp add: defs)
  moreover have "socket_step s3 s4" unfolding s4_def by (rule construct_of) (simp add: defs)
  moreover have "socket_step s4 (Socket_destroy 1 s4)" by (rule destroy) (simp add: defs)
  moreover have "Socket_destroy 1 s4 = handed_over"
    unfolding handed_over_def s4_def s3_def s2_def s1_def s0_def by (simp add: no_sockets_def)
  ultimately show ?thesis by (elim converse_rtranclp_into_rtranclp) simp
qed

theorem sockets_single_owner_witness: "so_opened handed_over = so_closed handed_over"
proof -
  have "\<forall>x. \<not> alive handed_over x" "so_loose handed_over = {#}"
    by (auto simp: handed_over_def no_sockets_def Socket_of_fd_def Socket_release_def Socket_destroy_def
        Socket_close_def set_fd_def fd_of_def alive_def Let_def nth_Cons'
        split: if_splits)
  then show ?thesis using sockets_single_owner [OF handed_over_reachable] by blast
qed

end
