(* ===== verification/ServerPool.thy ===== *)
theory ServerPool
  imports Sockets
begin

text \<open>
  The concurrency of the server: \<open>PqTlsServer::run\<close>, \<open>worker_loop\<close>, \<open>stop\<close> and the destructor
  of \<open>src/server/server.cpp\<close> as a labelled step relation on a shared state.  A step is one critical
  section of \<open>queue_mutex_\<close>, one access to an atomic, or one system call.  A wait on the
  condition variable takes three steps, as in the C++ memory model: the predicate is evaluated with the
  lock held, the thread blocks and releases the lock, and a notification makes it contend for the lock
  again; a notification that comes before the thread has blocked does not reach it.  What a worker does
  with a connection is \<open>Server.handle_connection\<close>; here it either returns or throws, and in both
  cases the socket is closed.  \<open>run\<close> may be left by an exception, of \<open>tcp_listen\<close> or of the creation
  of a thread; the destructor then finds workers that were never joined.  The histories and the
  multisets of opened and closed descriptors are kept for the statements only.
\<close>

section \<open>State\<close>

type_synonym PendingConnection = "int \<times> string"

text \<open>
  Where the thread of \<open>run\<close> is: before the call, creating workers, at the loop test, in
  \<open>poll\<close> and \<open>accept\<close>, with an accepted socket, past the queue insertion, past the counter,
  past the loop, joining the workers, returned; left by an exception; and the same thread in the
  destructor: past the stores of \<open>stop\<close>, past its notification, joining, done.
\<close>

datatype acceptor = Idle | Spawning | At_test | Polling | Holding PendingConnection | Counting | Notifying
  | Leaving | Joining | Finished | Unwound | Destroy_stopped | Destroy_notified | Destroy_joining | Destroyed

text \<open>
  A worker: contending for the lock to test the predicate, about to block (it holds the lock), blocked,
  handling a connection, or gone.
\<close>

datatype worker = Contending | Blocking | Asleep | Handling PendingConnection | Exited

record pool =
  p_acceptor :: acceptor
  p_running :: bool
  p_stopping :: bool
  p_listening :: bool
  p_queue :: "PendingConnection list"
  p_workers :: "worker list"
  p_accepted :: u64
  p_rejected :: u64
  p_stoppers :: nat
  p_opened :: "int multiset"
  p_closed :: "int multiset"
  p_enqueued :: "PendingConnection list"
  p_started :: "PendingConnection list"

definition initial_pool :: pool where
  "initial_pool = \<lparr>p_acceptor = Idle, p_running = False, p_stopping = False, p_listening = False, p_queue = [],
     p_workers = [], p_accepted = 0, p_rejected = 0, p_stoppers = 0, p_opened = {#}, p_closed = {#},
     p_enqueued = [], p_started = []\<rparr>"

definition worker_count :: "u32 \<Rightarrow> nat" where
  "worker_count max_connections = unat (max 1 max_connections)"

definition lock_free :: "pool \<Rightarrow> bool" where
  "lock_free s \<longleftrightarrow> Blocking \<notin> set (p_workers s)"

definition wake_all :: "worker list \<Rightarrow> worker list" where
  "wake_all ws = map (\<lambda>w. if w = Asleep then Contending else w) ws"

text \<open>\<open>notify_one\<close>: wakes the chosen worker if it is blocked; any blocked one may be chosen.\<close>

definition wake_one :: "nat \<Rightarrow> worker list \<Rightarrow> worker list" where
  "wake_one i ws = ws[i := Contending]"

section \<open>Steps\<close>

text \<open>
  The label tells a call of \<open>stop\<close>, the beginning of the destructor and a spurious wakeup from the
  work of the server itself.
\<close>

datatype label = Work | Stop_call | Destructor_call | Spurious_wakeup

inductive step :: "u32 \<Rightarrow> label \<Rightarrow> pool \<Rightarrow> pool \<Rightarrow> bool" for mc :: u32 where
  \<comment> \<open>\<open>run\<close>\<close>
  begin_run: "p_acceptor s = Idle \<Longrightarrow>
    step mc Work s (s\<lparr>p_listening := True, p_running := True, p_stopping := False, p_acceptor := Spawning\<rparr>)"
| listen_throws: "p_acceptor s = Idle \<Longrightarrow> step mc Work s (s\<lparr>p_acceptor := Unwound\<rparr>)"
| spawn_throws: "p_acceptor s = Spawning \<Longrightarrow> length (p_workers s) < worker_count mc \<Longrightarrow>
    step mc Work s (s\<lparr>p_acceptor := Unwound\<rparr>)"
| spawn: "p_acceptor s = Spawning \<Longrightarrow> length (p_workers s) < worker_count mc \<Longrightarrow>
    step mc Work s (s\<lparr>p_workers := p_workers s @ [Contending]\<rparr>)"
| spawned: "p_acceptor s = Spawning \<Longrightarrow> length (p_workers s) = worker_count mc \<Longrightarrow>
    step mc Work s (s\<lparr>p_acceptor := At_test\<rparr>)"
| test_go: "p_acceptor s = At_test \<Longrightarrow> \<not> p_stopping s \<Longrightarrow> step mc Work s (s\<lparr>p_acceptor := Polling\<rparr>)"
| test_stop: "p_acceptor s = At_test \<Longrightarrow> p_stopping s \<Longrightarrow> step mc Work s (s\<lparr>p_acceptor := Leaving\<rparr>)"
| poll_nothing: "p_acceptor s = Polling \<Longrightarrow> step mc Work s (s\<lparr>p_acceptor := At_test\<rparr>)"
| accept: "p_acceptor s = Polling \<Longrightarrow> fd \<ge> 0 \<Longrightarrow> fd \<notin># p_opened s - p_closed s \<Longrightarrow>
    step mc Work s (s\<lparr>p_acceptor := Holding (fd, peer), p_opened := add_mset fd (p_opened s)\<rparr>)"
| enqueue: "p_acceptor s = Holding c \<Longrightarrow> lock_free s \<Longrightarrow> length (p_queue s) < unat mc \<Longrightarrow>
    step mc Work s (s\<lparr>p_acceptor := Counting, p_queue := p_queue s @ [c], p_enqueued := p_enqueued s @ [c]\<rparr>)"
| reject: "p_acceptor s = Holding c \<Longrightarrow> lock_free s \<Longrightarrow> length (p_queue s) \<ge> unat mc \<Longrightarrow>
    step mc Work s (s\<lparr>p_acceptor := At_test, p_rejected := p_rejected s + 1, p_closed := add_mset (fst c) (p_closed s)\<rparr>)"
| count_accepted: "p_acceptor s = Counting \<Longrightarrow>
    step mc Work s (s\<lparr>p_acceptor := Notifying, p_accepted := p_accepted s + 1\<rparr>)"
| notify_nobody: "p_acceptor s = Notifying \<Longrightarrow> Asleep \<notin> set (p_workers s) \<Longrightarrow>
    step mc Work s (s\<lparr>p_acceptor := At_test\<rparr>)"
| notify_one: "p_acceptor s = Notifying \<Longrightarrow> i < length (p_workers s) \<Longrightarrow> p_workers s ! i = Asleep \<Longrightarrow>
    step mc Work s (s\<lparr>p_acceptor := At_test, p_workers := wake_one i (p_workers s)\<rparr>)"
| leave: "p_acceptor s = Leaving \<Longrightarrow>
    step mc Work s (s\<lparr>p_running := False, p_listening := False, p_workers := wake_all (p_workers s), p_acceptor := Joining\<rparr>)"
| join_all: "p_acceptor s = Joining \<Longrightarrow> set (p_workers s) \<subseteq> {Exited} \<Longrightarrow>
    step mc Work s (s\<lparr>p_acceptor := Finished, p_workers := [], p_queue := [],
      p_closed := p_closed s + mset (map fst (p_queue s))\<rparr>)"
  \<comment> \<open>\<open>worker_loop\<close>\<close>
| take_connection: "i < length (p_workers s) \<Longrightarrow> p_workers s ! i = Contending \<Longrightarrow> lock_free s \<Longrightarrow> p_queue s = c # rest \<Longrightarrow>
    step mc Work s (s\<lparr>p_workers := (p_workers s)[i := Handling c], p_queue := rest, p_started := p_started s @ [c]\<rparr>)"
| worker_returns: "i < length (p_workers s) \<Longrightarrow> p_workers s ! i = Contending \<Longrightarrow> lock_free s \<Longrightarrow> p_queue s = [] \<Longrightarrow> p_stopping s \<Longrightarrow>
    step mc Work s (s\<lparr>p_workers := (p_workers s)[i := Exited]\<rparr>)"
| predicate_false: "i < length (p_workers s) \<Longrightarrow> p_workers s ! i = Contending \<Longrightarrow> lock_free s \<Longrightarrow> p_queue s = [] \<Longrightarrow> \<not> p_stopping s \<Longrightarrow>
    step mc Work s (s\<lparr>p_workers := (p_workers s)[i := Blocking]\<rparr>)"
| fall_asleep: "i < length (p_workers s) \<Longrightarrow> p_workers s ! i = Blocking \<Longrightarrow>
    step mc Work s (s\<lparr>p_workers := (p_workers s)[i := Asleep]\<rparr>)"
| handler_returns: "i < length (p_workers s) \<Longrightarrow> p_workers s ! i = Handling c \<Longrightarrow>
    step mc Work s (s\<lparr>p_workers := (p_workers s)[i := Contending], p_closed := add_mset (fst c) (p_closed s)\<rparr>)"
| handler_throws: "i < length (p_workers s) \<Longrightarrow> p_workers s ! i = Handling c \<Longrightarrow>
    step mc Work s (s\<lparr>p_workers := (p_workers s)[i := Exited], p_closed := add_mset (fst c) (p_closed s)\<rparr>)"
| spurious: "i < length (p_workers s) \<Longrightarrow> p_workers s ! i = Asleep \<Longrightarrow>
    step mc Spurious_wakeup s (s\<lparr>p_workers := wake_one i (p_workers s)\<rparr>)"
  \<comment> \<open>\<open>stop\<close>\<close>
| stop_store: "step mc Stop_call s (s\<lparr>p_stopping := True, p_running := False, p_stoppers := p_stoppers s + 1\<rparr>)"
| stop_notify: "p_stoppers s > 0 \<Longrightarrow>
    step mc Stop_call s (s\<lparr>p_workers := wake_all (p_workers s), p_stoppers := p_stoppers s - 1\<rparr>)"
  \<comment> \<open>the destructor\<close>
| destroy: "p_acceptor s \<in> {Idle, Finished, Unwound} \<Longrightarrow>
    step mc Destructor_call s (s\<lparr>p_stopping := True, p_running := False, p_acceptor := Destroy_stopped\<rparr>)"
| destroy_stop_notify: "p_acceptor s = Destroy_stopped \<Longrightarrow>
    step mc Work s (s\<lparr>p_workers := wake_all (p_workers s), p_acceptor := Destroy_notified\<rparr>)"
| destroy_notify: "p_acceptor s = Destroy_notified \<Longrightarrow>
    step mc Work s (s\<lparr>p_workers := wake_all (p_workers s), p_acceptor := Destroy_joining\<rparr>)"
| destroy_join: "p_acceptor s = Destroy_joining \<Longrightarrow> set (p_workers s) \<subseteq> {Exited} \<Longrightarrow>
    step mc Work s (s\<lparr>p_acceptor := Destroyed, p_workers := [], p_listening := False\<rparr>)"

inductive reachable :: "u32 \<Rightarrow> pool \<Rightarrow> bool" for mc :: u32 where
  start: "reachable mc initial_pool"
| more: "reachable mc s \<Longrightarrow> step mc l s s' \<Longrightarrow> reachable mc s'"

inductive_cases step_elim: "step mc l s s'"

section \<open>Invariants\<close>

text \<open>The descriptors of accepted connections that are in somebody's hands.\<close>

fun worker_fds :: "worker \<Rightarrow> int multiset" where
  "worker_fds (Handling c) = {#fst c#}"
| "worker_fds _ = {#}"

fun acceptor_fds :: "acceptor \<Rightarrow> int multiset" where
  "acceptor_fds (Holding c) = {#fst c#}"
| "acceptor_fds _ = {#}"

definition workers_fds :: "worker list \<Rightarrow> int multiset" where
  "workers_fds ws = sum_list (map worker_fds ws)"

definition held :: "pool \<Rightarrow> int multiset" where
  "held s = mset (map fst (p_queue s)) + workers_fds (p_workers s) + acceptor_fds (p_acceptor s)"

lemma workers_fds_simps [simp]: "workers_fds [] = {#}" "workers_fds (ws @ [Contending]) = workers_fds ws"
  by (simp_all add: workers_fds_def)

lemma workers_fds_update:
  assumes "i < length ws"
  shows "workers_fds (ws[i := w]) + worker_fds (ws ! i) = workers_fds ws + worker_fds w"
  using assms
proof (induction ws arbitrary: i)
  case (Cons v ws)
  then show ?case by (cases i) (auto simp: workers_fds_def ac_simps)
qed simp

lemma workers_fds_idle:
  assumes "i < length ws" and "worker_fds (ws ! i) = {#}"
  shows "workers_fds (ws[i := w]) = workers_fds ws + worker_fds w"
  using workers_fds_update [OF assms(1), of w] assms(2) by simp

lemma workers_fds_release:
  assumes "i < length ws" and "ws ! i = Handling c" and "worker_fds w = {#}"
  shows "workers_fds ws = add_mset (fst c) (workers_fds (ws[i := w]))"
  using workers_fds_update [OF assms(1), of w] assms(2,3) by simp

lemma workers_fds_wake_all [simp]: "workers_fds (wake_all ws) = workers_fds ws"
  by (induction ws) (auto simp: workers_fds_def wake_all_def)

lemma workers_fds_exited: "set ws \<subseteq> {Exited} \<Longrightarrow> workers_fds ws = {#}"
  by (induction ws) (auto simp: workers_fds_def)

text \<open>
  What each step does with descriptors: it takes one over from the system, closes some, or hands them
  around.  This makes the pool an instance of the custody contract.
\<close>

definition gives :: "int multiset \<Rightarrow> pool \<Rightarrow> pool \<Rightarrow> bool" where
  "gives g s s' \<longleftrightarrow> p_opened s' = p_opened s \<and> p_closed s' = p_closed s + g \<and> held s = held s' + g"

lemma step_gives:
  assumes "step mc l s s'"
  obtains fd where "fd \<notin># p_opened s - p_closed s" "p_opened s' = add_mset fd (p_opened s)" "p_closed s' = p_closed s"
      "held s' = add_mset fd (held s)"
  | g where "gives g s s'"
  using assms
proof (cases rule: step.cases)
  case (accept fd peer)
  then show ?thesis using that(1) by (simp add: held_def)
next
  case (reject c)
  then show ?thesis using that(2) [of "{#fst c#}"] by (simp add: gives_def held_def)
next
  case (handler_returns i c)
  then show ?thesis using that(2) [of "{#fst c#}"] workers_fds_release [of i "p_workers s" c Contending]
    by (simp add: gives_def held_def)
next
  case (handler_throws i c)
  then show ?thesis using that(2) [of "{#fst c#}"] workers_fds_release [of i "p_workers s" c Exited]
    by (simp add: gives_def held_def)
next
  case join_all
  then show ?thesis using that(2) [of "mset (map fst (p_queue s))"] workers_fds_exited [of "p_workers s"]
    by (simp add: gives_def held_def)
next
  case destroy
  then show ?thesis using that(2) [of "{#}"] by (auto simp: gives_def held_def)
qed (rule that(2) [of "{#}"], simp add: gives_def held_def workers_fds_idle workers_fds_exited wake_one_def ac_simps)+

definition pool_move :: "u32 \<Rightarrow> pool \<Rightarrow> pool \<Rightarrow> bool" where
  "pool_move mc s s' \<longleftrightarrow> (\<exists>l. step mc l s s')"

lemma reachable_moves: "reachable mc s \<Longrightarrow> (pool_move mc)\<^sup>*\<^sup>* initial_pool s"
  by (induction rule: reachable.induct) (auto simp: pool_move_def intro: rtranclp.rtrancl_into_rtrancl)

interpretation pool: fd_custody initial_pool "pool_move mc" p_opened p_closed held for mc
proof
  show "in_order (p_opened initial_pool) (p_closed initial_pool) (held initial_pool)"
    by (simp add: in_order_def held_def initial_pool_def)
next
  fix s s'
  assume "pool_move mc s s'"
  then obtain l where "step mc l s s'" by (auto simp: pool_move_def)
  then show "p_closed s' = p_closed s \<and> (\<exists>fd. fd \<notin># p_opened s - p_closed s \<and> p_opened s' = add_mset fd (p_opened s) \<and>
      held s' = add_mset fd (held s)) \<or>
    p_opened s' = p_opened s \<and> (\<exists>given. p_closed s' = p_closed s + given \<and> held s = held s' + given)"
    by (cases rule: step_gives) (auto simp: gives_def)
qed

text \<open>Bounds, and mutual exclusion on the lock.\<close>

definition bounded :: "u32 \<Rightarrow> pool \<Rightarrow> bool" where
  "bounded mc s \<longleftrightarrow> length (p_queue s) \<le> unat mc \<and> length (p_workers s) \<le> worker_count mc \<and>
     (\<forall>i j. i < length (p_workers s) \<and> j < length (p_workers s) \<and> p_workers s ! i = Blocking \<and> p_workers s ! j = Blocking \<longrightarrow> i = j)"

lemma wake_all_length [simp]: "length (wake_all ws) = length ws"
  by (simp add: wake_all_def)

lemma wake_all_nth: "i < length ws \<Longrightarrow> wake_all ws ! i = (if ws ! i = Asleep then Contending else ws ! i)"
  by (simp add: wake_all_def)

lemma lock_free_nth: "lock_free s \<Longrightarrow> i < length (p_workers s) \<Longrightarrow> p_workers s ! i \<noteq> Blocking"
  unfolding lock_free_def by (metis nth_mem)

lemma bounded_step: "step mc l s s' \<Longrightarrow> bounded mc s \<Longrightarrow> bounded mc s'"
  by (cases rule: step.cases)
     (auto simp: bounded_def wake_one_def wake_all_nth nth_append nth_list_update less_Suc_eq
        split: if_splits dest: lock_free_nth)

text \<open>Before the workers exist and after \<open>run\<close> has been left, nothing is queued.\<close>

fun outside_loop :: "acceptor \<Rightarrow> bool" where
  "outside_loop Idle = True"
| "outside_loop Spawning = True"
| "outside_loop Finished = True"
| "outside_loop Unwound = True"
| "outside_loop Destroy_stopped = True"
| "outside_loop Destroy_notified = True"
| "outside_loop Destroy_joining = True"
| "outside_loop Destroyed = True"
| "outside_loop _ = False"

definition queue_idle :: "pool \<Rightarrow> bool" where
  "queue_idle s \<longleftrightarrow> (outside_loop (p_acceptor s) \<longrightarrow> p_queue s = [])"

lemma queue_idle_step: "step mc l s s' \<Longrightarrow> queue_idle s \<Longrightarrow> queue_idle s'"
  by (cases rule: step.cases) (auto simp: queue_idle_def)

text \<open>Once they are joined, the workers are gone.\<close>

fun workers_joined :: "acceptor \<Rightarrow> bool" where
  "workers_joined Finished = True"
| "workers_joined Destroyed = True"
| "workers_joined _ = False"

lemma joined_outside: "workers_joined a \<Longrightarrow> outside_loop a \<and> acceptor_fds a = {#}"
  by (cases a) simp_all

definition workers_gone :: "pool \<Rightarrow> bool" where
  "workers_gone s \<longleftrightarrow> (workers_joined (p_acceptor s) \<longrightarrow> p_workers s = [])"

lemma workers_gone_step: "step mc l s s' \<Longrightarrow> workers_gone s \<Longrightarrow> workers_gone s'"
  by (cases rule: step.cases) (auto simp: workers_gone_def wake_all_def)

text \<open>First in, first out: the queue is what was enqueued and not yet started, until \<open>run\<close> clears it.\<close>

fun cleared_queue :: "acceptor \<Rightarrow> bool" where
  "cleared_queue Finished = True"
| "cleared_queue Destroy_stopped = True"
| "cleared_queue Destroy_notified = True"
| "cleared_queue Destroy_joining = True"
| "cleared_queue Destroyed = True"
| "cleared_queue _ = False"

lemma cleared_queue_outside: "cleared_queue a \<Longrightarrow> outside_loop a"
  by (cases a) simp_all

definition fifo :: "pool \<Rightarrow> bool" where
  "fifo s \<longleftrightarrow> (\<exists>rest. p_enqueued s = p_started s @ rest \<and> (\<not> cleared_queue (p_acceptor s) \<longrightarrow> rest = p_queue s))"

lemma fifo_step:
  assumes "step mc l s s'" and "queue_idle s" and "fifo s"
  shows "fifo s'"
  using assms(1)
proof (cases rule: step.cases)
  case (take_connection i c rest)
  then have "\<not> cleared_queue (p_acceptor s)" using assms(2) cleared_queue_outside by (auto simp: queue_idle_def)
  then show ?thesis using take_connection assms(3) by (simp add: fifo_def)
qed (use assms(3) in \<open>auto simp: fifo_def\<close>)

text \<open>Accounting: accepted and refused connections are all there were, up to the one in flight.\<close>

fun in_flight :: "acceptor \<Rightarrow> u64" where
  "in_flight (Holding c) = 1"
| "in_flight Counting = 1"
| "in_flight _ = 0"

definition accounted :: "pool \<Rightarrow> bool" where
  "accounted s \<longleftrightarrow> of_nat (size (p_opened s)) = p_accepted s + p_rejected s + in_flight (p_acceptor s)"

lemma accounted_step: "step mc l s s' \<Longrightarrow> accounted s \<Longrightarrow> accounted s'"
  by (cases rule: step.cases) (auto simp: accounted_def)

text \<open>The loop of \<open>run\<close> is left only when a stop was requested, and the request stays.\<close>

fun past_loop :: "acceptor \<Rightarrow> bool" where
  "past_loop Leaving = True"
| "past_loop Joining = True"
| "past_loop a = cleared_queue a"

definition stop_respected :: "pool \<Rightarrow> bool" where
  "stop_respected s \<longleftrightarrow> (past_loop (p_acceptor s) \<longrightarrow> p_stopping s)"

lemma stop_respected_step: "step mc l s s' \<Longrightarrow> stop_respected s \<Longrightarrow> stop_respected s'"
  by (cases rule: step.cases) (auto simp: stop_respected_def)

text \<open>The listening socket is closed when the loop is left, or at the latest by the destructor.\<close>

fun listener_done :: "acceptor \<Rightarrow> bool" where
  "listener_done Joining = True"
| "listener_done Finished = True"
| "listener_done Destroyed = True"
| "listener_done _ = False"

definition listener_shut :: "pool \<Rightarrow> bool" where
  "listener_shut s \<longleftrightarrow> (listener_done (p_acceptor s) \<longrightarrow> \<not> p_listening s)"

lemma listener_shut_step: "step mc l s s' \<Longrightarrow> listener_shut s \<Longrightarrow> listener_shut s'"
  by (cases rule: step.cases) (auto simp: listener_shut_def)

text \<open>All of them, of every reachable state.\<close>

definition pool_invariant :: "u32 \<Rightarrow> pool \<Rightarrow> bool" where
  "pool_invariant mc s \<longleftrightarrow> in_order (p_opened s) (p_closed s) (held s) \<and> bounded mc s \<and> queue_idle s \<and>
     workers_gone s \<and> fifo s \<and> accounted s \<and> stop_respected s \<and> listener_shut s"

lemma reachable_invariant: "reachable mc s \<Longrightarrow> pool_invariant mc s"
proof (induction rule: reachable.induct)
  case start
  then show ?case
    using pool.init_in_order
    by (simp add: pool_invariant_def) (simp add: bounded_def queue_idle_def workers_gone_def fifo_def accounted_def stop_respected_def listener_shut_def initial_pool_def)
next
  case (more s l s')
  then show ?case unfolding pool_invariant_def
    using pool.custody [OF reachable_moves [OF reachable.more [OF more.hyps]]]
      bounded_step [OF more.hyps(2)] queue_idle_step [OF more.hyps(2)] workers_gone_step [OF more.hyps(2)]
      fifo_step [OF more.hyps(2)] accounted_step [OF more.hyps(2)] stop_respected_step [OF more.hyps(2)]
      listener_shut_step [OF more.hyps(2)] by simp
qed

section \<open>Shutdown\<close>

text \<open>The workers are being joined, by \<open>run\<close> or by the destructor, and none of them is blocked.\<close>

definition draining :: "pool \<Rightarrow> bool" where
  "draining s \<longleftrightarrow> (p_acceptor s = Joining \<or> p_acceptor s = Destroy_joining) \<and> p_stopping s \<and> Asleep \<notin> set (p_workers s) \<and> Blocking \<notin> set (p_workers s)"

fun worker_work :: "worker \<Rightarrow> nat" where
  "worker_work (Handling c) = 2"
| "worker_work Exited = 0"
| "worker_work _ = 1"

text \<open>An upper bound on the steps still to do.\<close>

definition shutdown_work :: "pool \<Rightarrow> nat" where
  "shutdown_work s = (if workers_joined (p_acceptor s) then 0 else 1) + 3 * length (p_queue s) +
     sum_list (map worker_work (p_workers s))"

lemma work_update:
  assumes "i < length ws"
  shows "sum_list (map worker_work (ws[i := w])) + worker_work (ws ! i) = sum_list (map worker_work ws) + worker_work w"
  using assms
proof (induction ws arbitrary: i)
  case (Cons v ws)
  then show ?case by (cases i) auto
qed simp

lemma draining_progress:
  assumes "draining s"
  shows "\<exists>s'. step mc Work s s'"
proof (cases "set (p_workers s) \<subseteq> {Exited}")
  case True
  then show ?thesis using assms join_all destroy_join unfolding draining_def by blast
next
  case False
  then obtain w where "w \<in> set (p_workers s)" "w \<noteq> Exited" by blast
  then obtain i where i: "i < length (p_workers s)" "p_workers s ! i \<noteq> Exited" by (metis in_set_conv_nth)
  have free: "lock_free s" using assms by (simp add: draining_def lock_free_def)
  show ?thesis
  proof (cases "p_workers s ! i")
    case Contending
    then show ?thesis using i(1) free assms take_connection [of i s] worker_returns [of i s]
      by (cases "p_queue s") (auto simp: draining_def)
  next
    case (Handling c)
    then show ?thesis using i(1) handler_returns by blast
  qed (use i assms nth_mem [OF i(1)] in \<open>auto simp: draining_def\<close>)
qed

lemma set_update_keeps: "w \<notin> set ws \<Longrightarrow> v \<noteq> w \<Longrightarrow> w \<notin> set (ws[i := v])"
  using set_update_subset_insert [of ws i v] by blast

lemma draining_step:
  assumes "step mc Work s s'" and "draining s"
  shows "shutdown_work s' < shutdown_work s \<and> (draining s' \<or> workers_joined (p_acceptor s'))"
  using assms(1)
proof (cases rule: step.cases)
  case (take_connection i c rest)
  then show ?thesis using assms(2) work_update [of i "p_workers s" "Handling c"]
    by (auto simp: draining_def shutdown_work_def set_update_keeps)
next
  case (worker_returns i)
  then show ?thesis using assms(2) work_update [of i "p_workers s" Exited]
    by (auto simp: draining_def shutdown_work_def set_update_keeps)
next
  case (fall_asleep i)
  then show ?thesis using assms(2) nth_mem [of i "p_workers s"] by (auto simp: draining_def)
next
  case (handler_returns i c)
  then show ?thesis using assms(2) work_update [of i "p_workers s" Contending]
    by (auto simp: draining_def shutdown_work_def set_update_keeps)
next
  case (handler_throws i c)
  then show ?thesis using assms(2) work_update [of i "p_workers s" Exited]
    by (auto simp: draining_def shutdown_work_def set_update_keeps)
qed (use assms(2) in \<open>auto simp: draining_def shutdown_work_def\<close>)

lemma finished_stuck:
  assumes "workers_joined (p_acceptor s)" and "p_workers s = []"
  shows "\<not> step mc Work s s'"
  using assms by (auto elim: step.cases)

lemma reachable_steps: "(step mc l ^^ n) s s' \<Longrightarrow> reachable mc s \<Longrightarrow> reachable mc s'"
  by (induction n arbitrary: s') (auto intro: reachable.more)

lemma draining_steps:
  assumes "(step mc Work ^^ n) s s'" and "reachable mc s" and "draining s"
  shows "n + shutdown_work s' \<le> shutdown_work s \<and> (draining s' \<or> workers_joined (p_acceptor s'))"
  using assms(1)
proof (induction n arbitrary: s')
  case 0
  then show ?case using assms(3) by simp
next
  case (Suc n)
  then obtain t where t: "(step mc Work ^^ n) s t" "step mc Work t s'" by auto
  have "workers_gone t" using reachable_invariant [OF reachable_steps [OF t(1) assms(2)]] by (simp add: pool_invariant_def)
  then have "draining t" using Suc.IH [OF t(1)] t(2) finished_stuck [of t mc s'] by (auto simp: workers_gone_def)
  from draining_step [OF t(2) this] Suc.IH [OF t(1)] show ?case by auto
qed


section \<open>Properties\<close>

text \<open>
  C4.  The pool is safe in every reachable state, under every interleaving of the acceptor, the workers
  and callers of \<open>stop\<close>: at most \<open>max_connections\<close> connections are queued and at most the
  configured number of workers exist; the descriptor of every accepted connection is closed or in the
  hands of exactly one party (no leak, no double close, no two workers on one connection); connections
  are started in the order in which they were queued; the accepted and refused counters add up to all
  connections (modulo \<open>2 ^ 64\<close>) but the one in flight.
\<close>

theorem pool_safe:
  assumes "reachable mc s"
  shows "length (p_queue s) \<le> unat mc \<and> length (p_workers s) \<le> worker_count mc \<and>
    p_opened s = p_closed s + held s \<and> (\<forall>fd. count (held s) fd \<le> 1) \<and>
    (\<exists>rest. p_enqueued s = p_started s @ rest) \<and>
    of_nat (size (p_opened s)) = p_accepted s + p_rejected s + in_flight (p_acceptor s)"
  using reachable_invariant [OF assms]
  by (auto simp: pool_invariant_def in_order_def bounded_def fifo_def accounted_def)

text \<open>Two runs of a server with one worker: up to the first test, and a stop that is seen.\<close>

definition one_worker :: pool where
  "one_worker = initial_pool\<lparr>p_acceptor := At_test, p_running := True, p_listening := True, p_workers := [Contending]\<rparr>"

lemma one_worker_reachable: "reachable 1 one_worker"
proof -
  have wc: "worker_count 1 = 1" by (simp add: worker_count_def)
  define s1 where "s1 = initial_pool\<lparr>p_listening := True, p_running := True, p_stopping := False, p_acceptor := Spawning\<rparr>"
  define s2 where "s2 = s1\<lparr>p_workers := p_workers s1 @ [Contending]\<rparr>"
  have "step 1 Work initial_pool s1" unfolding s1_def by (rule step.begin_run) (simp add: initial_pool_def)
  moreover have "step 1 Work s1 s2" unfolding s2_def by (rule step.spawn) (simp_all add: wc s1_def initial_pool_def)
  moreover have "step 1 Work s2 (s2\<lparr>p_acceptor := At_test\<rparr>)"
    by (rule step.spawned) (simp_all add: wc s2_def s1_def initial_pool_def)
  moreover have "s2\<lparr>p_acceptor := At_test\<rparr> = one_worker"
    by (simp add: one_worker_def s2_def s1_def initial_pool_def)
  ultimately show ?thesis using reachable.start reachable.more by metis
qed

definition stopped_early :: pool where
  "stopped_early = one_worker\<lparr>p_stopping := True, p_running := False, p_stoppers := 1, p_listening := False, p_acceptor := Joining\<rparr>"

lemma stopped_early_reachable: "reachable 1 stopped_early"
proof -
  define s1 where "s1 = one_worker\<lparr>p_stopping := True, p_running := False, p_stoppers := p_stoppers one_worker + 1\<rparr>"
  define s2 where "s2 = s1\<lparr>p_acceptor := Leaving\<rparr>"
  have "step 1 Stop_call one_worker s1" unfolding s1_def by (rule step.stop_store)
  moreover have "step 1 Work s1 s2" unfolding s2_def
    by (rule step.test_stop) (simp_all add: s1_def one_worker_def)
  moreover have "step 1 Work s2 (s2\<lparr>p_running := False, p_listening := False, p_workers := wake_all (p_workers s2), p_acceptor := Joining\<rparr>)"
    by (rule step.leave) (simp add: s2_def)
  moreover have "s2\<lparr>p_running := False, p_listening := False, p_workers := wake_all (p_workers s2), p_acceptor := Joining\<rparr> = stopped_early"
    by (simp add: stopped_early_def s2_def s1_def one_worker_def initial_pool_def wake_all_def)
  ultimately show ?thesis using one_worker_reachable reachable.more by metis
qed

theorem pool_safe_witness:
  "p_opened one_worker = p_closed one_worker + held one_worker \<and> length (p_workers one_worker) \<le> worker_count 1"
  using pool_safe [OF one_worker_reachable] by blast

text \<open>
  C18.  Shutdown completes once no worker is blocked: from a reachable state in which \<open>run\<close> or the
  destructor is joining the workers and none of them waits on the condition variable, the server's own
  steps can be taken only a bounded number of times, and they can be taken until \<open>run\<close> has returned or
  the destructor is done; then every worker is gone and every accepted descriptor is closed.
\<close>

theorem shutdown_completes:
  assumes "reachable mc s" and "draining s" and "(step mc Work ^^ n) s s'"
  shows "n \<le> shutdown_work s \<and>
    (if \<exists>t. step mc Work s' t then draining s'
     else workers_joined (p_acceptor s') \<and> p_workers s' = [] \<and> p_queue s' = [] \<and> p_opened s' = p_closed s')"
proof -
  note d = draining_steps [OF assms(3,1,2)]
  have inv: "pool_invariant mc s'" using reachable_invariant reachable_steps assms(1,3) by blast
  show ?thesis
  proof (cases "\<exists>t. step mc Work s' t")
    case True
    then show ?thesis using d inv finished_stuck [of s' mc] by (auto simp: pool_invariant_def workers_gone_def)
  next
    case False
    then have j: "workers_joined (p_acceptor s')" using d draining_progress by blast
    with inv joined_outside [OF j] have "p_workers s' = [] \<and> p_queue s' = [] \<and> p_opened s' = p_closed s'"
      by (simp add: pool_invariant_def workers_gone_def queue_idle_def in_order_def held_def)
    then show ?thesis using False d j by simp
  qed
qed

theorem shutdown_completes_witness:
  "(0::nat) \<le> shutdown_work stopped_early \<and> (if \<exists>t. step 1 Work stopped_early t then draining stopped_early
     else workers_joined (p_acceptor stopped_early))"
proof -
  have "draining stopped_early" by (simp add: draining_def stopped_early_def one_worker_def)
  from shutdown_completes [OF stopped_early_reachable this, of 0 stopped_early] show ?thesis by (auto split: if_splits)
qed

text \<open>
  A stop can be lost: \<open>stop\<close> and \<open>run\<close> change \<open>stopping_\<close> and notify without holding
  \<open>queue_mutex_\<close>, so both notifications can fall between a worker's test of the predicate and its
  blocking.  The worker then sleeps, \<open>run\<close> waits for it, the call of \<open>stop\<close> has returned, and no
  step of the server is possible any more: only a spurious wakeup or another \<open>stop\<close> would help.
\<close>

theorem stop_wakeup_lost:
  "\<exists>s. reachable 1 s \<and> p_stopping s \<and> p_stoppers s = 0 \<and> p_acceptor s = Joining \<and> p_workers s = [Asleep] \<and>
     \<not> (\<exists>t. step 1 Work s t)"
proof -
  define s1 where "s1 = one_worker\<lparr>p_workers := (p_workers one_worker)[0 := Blocking]\<rparr>"
  define s2 where "s2 = s1\<lparr>p_stopping := True, p_running := False, p_stoppers := p_stoppers s1 + 1\<rparr>"
  define s3 where "s3 = s2\<lparr>p_workers := wake_all (p_workers s2), p_stoppers := p_stoppers s2 - 1\<rparr>"
  define s4 where "s4 = s3\<lparr>p_acceptor := Leaving\<rparr>"
  define s5 where "s5 = s4\<lparr>p_running := False, p_listening := False, p_workers := wake_all (p_workers s4), p_acceptor := Joining\<rparr>"
  define s6 where "s6 = s5\<lparr>p_workers := (p_workers s5)[0 := Asleep]\<rparr>"
  note defs = s6_def s5_def s4_def s3_def s2_def s1_def one_worker_def initial_pool_def wake_all_def lock_free_def
  have "step 1 Work one_worker s1" unfolding s1_def by (rule step.predicate_false) (simp_all add: defs)
  moreover have "step 1 Stop_call s1 s2" unfolding s2_def by (rule step.stop_store)
  moreover have "step 1 Stop_call s2 s3" unfolding s3_def by (rule step.stop_notify) (simp add: defs)
  moreover have "step 1 Work s3 s4" unfolding s4_def by (rule step.test_stop) (simp_all add: defs)
  moreover have "step 1 Work s4 s5" unfolding s5_def by (rule step.leave) (simp add: defs)
  moreover have "step 1 Work s5 s6" unfolding s6_def by (rule step.fall_asleep) (simp_all add: defs)
  ultimately have "reachable 1 s6" using one_worker_reachable reachable.more by metis
  moreover have final: "p_stopping s6" "p_stoppers s6 = 0" "p_acceptor s6 = Joining" "p_workers s6 = [Asleep]"
    by (simp_all add: defs)
  moreover have "\<not> step 1 Work s6 t" for t using final by (auto elim!: step.cases simp: less_Suc_eq)
  ultimately show ?thesis by blast
qed

end
