(* ===== verification/Lifecycle.thy ===== *)
theory Lifecycle
  imports ServerPool
begin

text \<open>
  The life of the server object in \<open>pqtls-server serve\<close>: the tail of \<open>command_serve\<close> and the
  signal handler of \<open>src/server/main.cpp\<close>, around the threads of ServerPool.  The object is
  constructed, published through \<open>g_server\<close>, the handlers are installed, \<open>run\<close> is called, the
  pointer is cleared, and the object is destroyed when its scope ends; when \<open>run\<close> throws, the
  scope ends at once.  A signal may arrive between any two steps, as soon as a handler is installed,
  on any thread; \<open>stop\<close> then runs interleaved with everything else.  The thread that runs the
  handler is the main thread or a worker, and the destructor joins the workers, so the object is not
  gone before a running handler has returned.
\<close>

section \<open>State\<close>

text \<open>Where \<open>command_serve\<close> is.\<close>

datatype serve_pc = Constructed | Published | Sigint_installed | Calling_run | Run_returned | Scope_end | Destructing | Gone

text \<open>
  \<open>lc_threw\<close> and \<open>lc_dangling\<close> are kept for the statements: that \<open>run\<close> was left by an exception,
  and that a handler called \<open>stop\<close> on an object that no longer exists.
\<close>

record lifecycle =
  lc_pc :: serve_pc
  g_shutdown_requested :: bool
  g_server :: bool
  lc_sigint :: bool
  lc_sigterm :: bool
  lc_pool :: pool
  lc_threw :: bool
  lc_dangling :: bool

definition serve_start :: lifecycle where
  "serve_start = \<lparr>lc_pc = Constructed, g_shutdown_requested = False, g_server = False, lc_sigint = False,
     lc_sigterm = False, lc_pool = initial_pool, lc_threw = False, lc_dangling = False\<rparr>"

section \<open>Steps\<close>

text \<open>
  \<open>handle_signal\<close>, up to the stores of \<open>stop\<close>; its notification is a step of its own.
\<close>

definition handle_signal :: "lifecycle \<Rightarrow> lifecycle" where
  "handle_signal s =
     (let s1 = s\<lparr>g_shutdown_requested := True\<rparr> in
      if \<not> g_server s1 then s1
      else if lc_pc s1 = Gone then s1\<lparr>lc_dangling := True\<rparr>
      else let p = lc_pool s1 in
        s1\<lparr>lc_pool := p\<lparr>p_stopping := True, p_running := False, p_stoppers := p_stoppers p + 1\<rparr>\<rparr>)"

inductive serve_step :: "u32 \<Rightarrow> lifecycle \<Rightarrow> lifecycle \<Rightarrow> bool" for mc :: u32 where
  \<comment> \<open>\<open>command_serve\<close>\<close>
  publish: "lc_pc s = Constructed \<Longrightarrow> serve_step mc s (s\<lparr>g_server := True, lc_pc := Published\<rparr>)"
| install_sigint: "lc_pc s = Published \<Longrightarrow> serve_step mc s (s\<lparr>lc_sigint := True, lc_pc := Sigint_installed\<rparr>)"
| install_sigterm: "lc_pc s = Sigint_installed \<Longrightarrow> serve_step mc s (s\<lparr>lc_sigterm := True, lc_pc := Calling_run\<rparr>)"
| run_returns: "lc_pc s = Calling_run \<Longrightarrow> p_acceptor (lc_pool s) = Finished \<Longrightarrow> serve_step mc s (s\<lparr>lc_pc := Run_returned\<rparr>)"
| run_throws: "lc_pc s = Calling_run \<Longrightarrow> p_acceptor (lc_pool s) = Unwound \<Longrightarrow>
    serve_step mc s (s\<lparr>lc_pc := Scope_end, lc_threw := True\<rparr>)"
| unpublish: "lc_pc s = Run_returned \<Longrightarrow> serve_step mc s (s\<lparr>g_server := False, lc_pc := Scope_end\<rparr>)"
| destruct: "lc_pc s = Scope_end \<Longrightarrow> step mc Destructor_call (lc_pool s) p \<Longrightarrow>
    serve_step mc s (s\<lparr>lc_pool := p, lc_pc := Destructing\<rparr>)"
| gone: "lc_pc s = Destructing \<Longrightarrow> p_acceptor (lc_pool s) = Destroyed \<Longrightarrow> p_stoppers (lc_pool s) = 0 \<Longrightarrow>
    serve_step mc s (s\<lparr>lc_pc := Gone\<rparr>)"
  \<comment> \<open>the threads; \<open>run\<close> begins when it is called\<close>
| threads: "l = Work \<or> l = Spurious_wakeup \<Longrightarrow> p_acceptor (lc_pool s) = Idle \<longrightarrow> lc_pc s = Calling_run \<Longrightarrow>
    step mc l (lc_pool s) p \<Longrightarrow> serve_step mc s (s\<lparr>lc_pool := p\<rparr>)"
  \<comment> \<open>signals\<close>
| signal: "lc_sigint s \<or> lc_sigterm s \<Longrightarrow> serve_step mc s (handle_signal s)"
| signal_notify: "p_stoppers (lc_pool s) > 0 \<Longrightarrow>
    serve_step mc s (s\<lparr>lc_pool := (lc_pool s)\<lparr>p_workers := wake_all (p_workers (lc_pool s)), p_stoppers := p_stoppers (lc_pool s) - 1\<rparr>\<rparr>)"

abbreviation serve_reachable :: "u32 \<Rightarrow> lifecycle \<Rightarrow> bool" where
  "serve_reachable mc s \<equiv> (serve_step mc)\<^sup>*\<^sup>* serve_start s"

section \<open>Invariants\<close>

text \<open>The pool only ever does what ServerPool allows, so its invariants hold here.\<close>

lemma signal_pool:
  "lc_pool (handle_signal s) = lc_pool s \<or> step mc Stop_call (lc_pool s) (lc_pool (handle_signal s))"
  using stop_store [of mc "lc_pool s"] by (simp add: handle_signal_def Let_def)

lemma serve_pool_step:
  assumes "serve_step mc s s'"
  shows "lc_pool s' = lc_pool s \<or> (\<exists>l. step mc l (lc_pool s) (lc_pool s'))"
  using assms
proof cases
  case signal
  then show ?thesis using signal_pool [of s mc] by auto
next
  case signal_notify
  then show ?thesis using stop_notify [of "lc_pool s" mc] by auto
qed auto

lemma serve_pool_reachable: "serve_reachable mc s \<Longrightarrow> reachable mc (lc_pool s)"
proof (induction rule: rtranclp_induct)
  case base
  then show ?case using reachable.start by (simp add: serve_start_def)
next
  case (step s t)
  then show ?case using serve_pool_step [OF step.hyps(2)] reachable.more by metis
qed

text \<open>Where the object is, in terms of the pool: untouched before the call, destroyed at the end.\<close>

fun in_destructor :: "acceptor \<Rightarrow> bool" where
  "in_destructor Destroy_stopped = True"
| "in_destructor Destroy_notified = True"
| "in_destructor Destroy_joining = True"
| "in_destructor Destroyed = True"
| "in_destructor _ = False"

definition phases :: "lifecycle \<Rightarrow> bool" where
  "phases s \<longleftrightarrow> (lc_pc s \<in> {Constructed, Published, Sigint_installed} \<longrightarrow> p_acceptor (lc_pool s) = Idle) \<and>
     (lc_pc s = Destructing \<longrightarrow> in_destructor (p_acceptor (lc_pool s))) \<and>
     (lc_pc s = Gone \<longrightarrow> p_acceptor (lc_pool s) = Destroyed)"

lemma destroyed_stays: "step mc l p q \<Longrightarrow> p_acceptor p = Destroyed \<Longrightarrow> p_acceptor q = Destroyed"
  by (cases rule: step.cases) auto

lemma in_destructor_stays: "step mc l p q \<Longrightarrow> in_destructor (p_acceptor p) \<Longrightarrow> in_destructor (p_acceptor q)"
  by (cases rule: step.cases) auto

lemma destructor_call: "step mc Destructor_call p q \<Longrightarrow> p_acceptor q = Destroy_stopped"
  by (erule step.cases) simp_all

lemma phases_step:
  assumes "serve_step mc s s'" and "phases s"
  shows "phases s'"
  using assms(1)
proof cases
  case (threads l p)
  have "lc_pc s' = lc_pc s" "lc_pool s' = p" using threads(1) by simp_all
  moreover have "lc_pc s \<notin> {Constructed, Published, Sigint_installed}"
  proof
    assume *: "lc_pc s \<in> {Constructed, Published, Sigint_installed}"
    then have "p_acceptor (lc_pool s) = Idle" using assms(2) unfolding phases_def by blast
    then have "lc_pc s = Calling_run" using threads(3) by blast
    then show False using * by simp
  qed
  moreover note destroyed_stays [OF threads(4)] in_destructor_stays [OF threads(4)]
  ultimately show ?thesis using assms(2) unfolding phases_def by simp
next
  case (destruct p)
  then show ?thesis using destructor_call [OF destruct(3)] by (simp add: phases_def)
qed (use assms(2) in \<open>auto simp: phases_def handle_signal_def Let_def\<close>)

text \<open>The pointer is set only while the object exists, unless \<open>run\<close> threw.\<close>

definition pointer_ok :: "lifecycle \<Rightarrow> bool" where
  "pointer_ok s \<longleftrightarrow> (lc_threw s \<longrightarrow> lc_pc s \<in> {Scope_end, Destructing, Gone}) \<and>
     (\<not> lc_threw s \<longrightarrow> \<not> lc_dangling s \<and> (g_server s \<longrightarrow> lc_pc s \<notin> {Scope_end, Destructing, Gone}))"

lemma pointer_ok_step:
  assumes "serve_step mc s s'" and "pointer_ok s"
  shows "pointer_ok s'"
  using assms by cases (auto simp: pointer_ok_def handle_signal_def Let_def)

text \<open>Nobody but a signal and the destructor sets \<open>stopping_\<close>.\<close>

definition stop_requested :: "lifecycle \<Rightarrow> bool" where
  "stop_requested s \<longleftrightarrow> (p_stopping (lc_pool s) \<longrightarrow> g_shutdown_requested s \<or> lc_pc s = Destructing \<or> lc_pc s = Gone)"

lemma work_keeps_stopping: "step mc l p q \<Longrightarrow> l = Work \<or> l = Spurious_wakeup \<Longrightarrow> p_stopping q \<Longrightarrow> p_stopping p"
  by (cases rule: step.cases) auto

lemma stop_requested_step:
  assumes "serve_step mc s s'" and "stop_requested s"
  shows "stop_requested s'"
  using assms(1)
proof cases
  case (threads l p)
  then show ?thesis using assms(2) work_keeps_stopping [OF threads(4)] by (auto simp: stop_requested_def)
qed (use assms(2) in \<open>auto simp: stop_requested_def handle_signal_def Let_def\<close>)

lemma serve_invariant: "serve_reachable mc s \<Longrightarrow> phases s \<and> pointer_ok s \<and> stop_requested s"
proof (induction rule: rtranclp_induct)
  case base
  then show ?case by (simp add: phases_def pointer_ok_def stop_requested_def serve_start_def initial_pool_def)
next
  case (step s t)
  then show ?case using phases_step pointer_ok_step stop_requested_step by blast
qed

section \<open>Properties\<close>

text \<open>
  C19.  The server object is used only while it exists, and leaves nothing behind: in \<open>serve\<close>, under
  every timing of signals, as long as \<open>run\<close> has not thrown, no handler ever calls \<open>stop\<close> on a
  destroyed server and \<open>g_server\<close> is null from the end of the scope on; \<open>run\<close> returns only after a
  signal asked for it; and once the object is gone, whether \<open>run\<close> returned or threw, its workers
  were joined, its listening socket is closed and so is every connection it ever accepted.
\<close>

theorem serve_lifecycle_safe:
  assumes "serve_reachable mc s"
  shows "(\<not> lc_threw s \<longrightarrow> \<not> lc_dangling s \<and> (g_server s \<longrightarrow> lc_pc s \<notin> {Scope_end, Destructing, Gone})) \<and>
    (p_acceptor (lc_pool s) = Finished \<longrightarrow> g_shutdown_requested s) \<and>
    (lc_pc s = Gone \<longrightarrow> p_workers (lc_pool s) = [] \<and> \<not> p_listening (lc_pool s) \<and> p_opened (lc_pool s) = p_closed (lc_pool s))"
proof (intro conjI)
  note inv = serve_invariant [OF assms] and pool = reachable_invariant [OF serve_pool_reachable [OF assms]]
  show "\<not> lc_threw s \<longrightarrow> \<not> lc_dangling s \<and> (g_server s \<longrightarrow> lc_pc s \<notin> {Scope_end, Destructing, Gone})"
    using inv unfolding pointer_ok_def by blast
  show "p_acceptor (lc_pool s) = Finished \<longrightarrow> g_shutdown_requested s"
    using inv pool by (auto simp: phases_def stop_requested_def pool_invariant_def stop_respected_def)
  show "lc_pc s = Gone \<longrightarrow> p_workers (lc_pool s) = [] \<and> \<not> p_listening (lc_pool s) \<and> p_opened (lc_pool s) = p_closed (lc_pool s)"
  proof
    assume "lc_pc s = Gone"
    then have "p_acceptor (lc_pool s) = Destroyed" using inv by (simp add: phases_def)
    then show "p_workers (lc_pool s) = [] \<and> \<not> p_listening (lc_pool s) \<and> p_opened (lc_pool s) = p_closed (lc_pool s)"
      using pool by (simp add: pool_invariant_def workers_gone_def queue_idle_def listener_shut_def in_order_def held_def)
  qed
qed

text \<open>The start-up, and a run in which \<open>tcp_listen\<close> throws.\<close>

definition ready :: lifecycle where
  "ready = serve_start\<lparr>g_server := True, lc_sigint := True, lc_sigterm := True, lc_pc := Calling_run\<rparr>"

lemma ready_reachable: "serve_reachable mc ready"
proof -
  define s1 where "s1 = serve_start\<lparr>g_server := True, lc_pc := Published\<rparr>"
  define s2 where "s2 = s1\<lparr>lc_sigint := True, lc_pc := Sigint_installed\<rparr>"
  have "serve_step mc serve_start s1" unfolding s1_def by (rule publish) (simp add: serve_start_def)
  moreover have "serve_step mc s1 s2" unfolding s2_def by (rule install_sigint) (simp add: s1_def)
  moreover have "serve_step mc s2 (s2\<lparr>lc_sigterm := True, lc_pc := Calling_run\<rparr>)" by (rule install_sigterm) (simp add: s2_def)
  moreover have "s2\<lparr>lc_sigterm := True, lc_pc := Calling_run\<rparr> = ready"
    by (simp add: ready_def s2_def s1_def serve_start_def)
  ultimately show ?thesis by (elim converse_rtranclp_into_rtranclp) simp
qed

definition after_throw :: lifecycle where
  "after_throw = ready\<lparr>lc_pool := initial_pool\<lparr>p_stopping := True, p_acceptor := Destroyed\<rparr>, lc_pc := Gone, lc_threw := True\<rparr>"

lemma after_throw_reachable: "serve_reachable mc after_throw"
proof -
  define p1 where "p1 = initial_pool\<lparr>p_acceptor := Unwound\<rparr>"
  define p2 where "p2 = p1\<lparr>p_stopping := True, p_running := False, p_acceptor := Destroy_stopped\<rparr>"
  define p3 where "p3 = p2\<lparr>p_workers := wake_all (p_workers p2), p_acceptor := Destroy_notified\<rparr>"
  define p4 where "p4 = p3\<lparr>p_workers := wake_all (p_workers p3), p_acceptor := Destroy_joining\<rparr>"
  define p5 where "p5 = p4\<lparr>p_acceptor := Destroyed, p_workers := [], p_listening := False\<rparr>"
  define s2 where "s2 = ready\<lparr>lc_pool := p1, lc_pc := Scope_end, lc_threw := True\<rparr>"
  define s3 where "s3 = s2\<lparr>lc_pool := p2, lc_pc := Destructing\<rparr>"
  note defs = p5_def p4_def p3_def p2_def p1_def initial_pool_def wake_all_def
  have pool: "lc_pool ready = initial_pool" "lc_pc ready = Calling_run" by (simp_all add: ready_def serve_start_def)
  have w: "serve_step mc s (s\<lparr>lc_pool := q\<rparr>)" if "step mc Work (lc_pool s) q" "p_acceptor (lc_pool s) = Idle \<longrightarrow> lc_pc s = Calling_run" for s q
    using threads [OF disjI1 [OF refl]] that by blast
  have "serve_step mc ready (ready\<lparr>lc_pool := p1\<rparr>)"
    unfolding p1_def by (rule w) (use listen_throws [of initial_pool mc] in \<open>simp_all add: pool\<close>, simp add: initial_pool_def)
  moreover have "serve_step mc (ready\<lparr>lc_pool := p1\<rparr>) s2"
    using run_throws [of "ready\<lparr>lc_pool := p1\<rparr>" mc] by (simp add: s2_def p1_def pool)
  moreover have "serve_step mc s2 s3" unfolding s3_def
    by (rule destruct) (use step.destroy [of p1 mc] in \<open>simp_all add: s2_def p2_def p1_def\<close>)
  moreover have "serve_step mc s3 (s3\<lparr>lc_pool := p3\<rparr>)" unfolding p3_def
    by (rule w) (use destroy_stop_notify [of p2 mc] in \<open>simp_all add: s3_def p2_def\<close>)
  moreover have "serve_step mc (s3\<lparr>lc_pool := p3\<rparr>) (s3\<lparr>lc_pool := p3, lc_pool := p4\<rparr>)" unfolding p4_def
    by (rule w) (use destroy_notify [of p3 mc] in \<open>simp_all add: p3_def\<close>)
  moreover have "serve_step mc (s3\<lparr>lc_pool := p3, lc_pool := p4\<rparr>) (s3\<lparr>lc_pool := p3, lc_pool := p4, lc_pool := p5\<rparr>)" unfolding p5_def
    by (rule w) (use destroy_join [of p4 mc] in \<open>simp_all add: p4_def p3_def p2_def p1_def initial_pool_def wake_all_def\<close>)
  moreover have "serve_step mc (s3\<lparr>lc_pool := p5\<rparr>) (s3\<lparr>lc_pool := p5, lc_pc := Gone\<rparr>)"
    using gone [of "s3\<lparr>lc_pool := p5\<rparr>" mc] by (simp add: s3_def defs)
  moreover have "s3\<lparr>lc_pool := p5, lc_pc := Gone\<rparr> = after_throw"
    by (simp add: after_throw_def s3_def s2_def defs)
  ultimately have "(serve_step mc)\<^sup>*\<^sup>* ready after_throw" by (elim converse_rtranclp_into_rtranclp) simp
  then show ?thesis using ready_reachable by (rule rtranclp_trans [rotated])
qed

theorem serve_lifecycle_safe_witness:
  "\<not> lc_dangling ready \<and> p_workers (lc_pool after_throw) = [] \<and> \<not> p_listening (lc_pool after_throw)"
proof -
  have "\<not> lc_threw ready" "lc_pc after_throw = Gone" by (simp_all add: ready_def serve_start_def after_throw_def)
  then show ?thesis
    using serve_lifecycle_safe [OF ready_reachable [of 1]] serve_lifecycle_safe [OF after_throw_reachable [of 1]] by blast
qed

text \<open>
  When \<open>run\<close> throws, \<open>g_server\<close> is not cleared: the object is destroyed while the pointer still
  names it and the handlers are installed, and a signal then calls \<open>stop\<close> on it.
\<close>

theorem signal_after_throw_dangles: "\<exists>s. serve_reachable mc s \<and> lc_dangling s"
proof -
  have "serve_step mc after_throw (handle_signal after_throw)" by (rule signal) (simp add: after_throw_def ready_def)
  moreover have "lc_dangling (handle_signal after_throw)" by (simp add: handle_signal_def after_throw_def ready_def)
  ultimately show ?thesis using after_throw_reachable by (blast intro: rtranclp.rtrancl_into_rtrancl)
qed

text \<open>
  A signal during start-up is lost: it arrives after the handlers are installed, \<open>stop\<close> runs to its
  end, and then \<open>run\<close> resets \<open>stopping_\<close>; nothing else reads \<open>g_shutdown_requested\<close>, so the server
  goes on to accept connections although it was asked to shut down.
\<close>

theorem signal_during_startup_lost:
  "\<exists>s. serve_reachable mc s \<and> g_shutdown_requested s \<and> p_stoppers (lc_pool s) = 0 \<and>
     p_acceptor (lc_pool s) = Spawning \<and> \<not> p_stopping (lc_pool s)"
proof -
  define s1 where "s1 = handle_signal ready"
  define s2 where "s2 = s1\<lparr>lc_pool := (lc_pool s1)\<lparr>p_workers := wake_all (p_workers (lc_pool s1)), p_stoppers := p_stoppers (lc_pool s1) - 1\<rparr>\<rparr>"
  define p3 where "p3 = (lc_pool s2)\<lparr>p_listening := True, p_running := True, p_stopping := False, p_acceptor := Spawning\<rparr>"
  note defs = s2_def s1_def handle_signal_def ready_def serve_start_def initial_pool_def
  have "serve_step mc ready s1" unfolding s1_def by (rule signal) (simp add: ready_def)
  moreover have "serve_step mc s1 s2" unfolding s2_def by (rule signal_notify) (simp add: defs)
  moreover have "serve_step mc s2 (s2\<lparr>lc_pool := p3\<rparr>)"
    by (rule threads [OF disjI1 [OF refl]]) (use begin_run [of "lc_pool s2" mc] in \<open>simp_all add: p3_def defs\<close>)
  ultimately have "(serve_step mc)\<^sup>*\<^sup>* ready (s2\<lparr>lc_pool := p3\<rparr>)" by (elim converse_rtranclp_into_rtranclp) simp
  then have "serve_reachable mc (s2\<lparr>lc_pool := p3\<rparr>)" using ready_reachable by (rule rtranclp_trans [rotated])
  then show ?thesis by (intro exI [of _ "s2\<lparr>lc_pool := p3\<rparr>"]) (simp add: p3_def defs)
qed

end
