(* ===== verification/EndToEnd.thy ===== *)
theory EndToEnd
  imports Client Server "HOL-Library.Sublist"
begin

text \<open>
  A client and a server at the two ends of one TLS connection: \<open>PqTlsClient::connect_and_exchange\<close>
  of \<open>src/client/client.cpp\<close> against the \<open>try\<close> block of \<open>PqTlsServer::handle_connection\<close> of
  \<open>src/server/server.cpp\<close>.  Each end has its own environment, that is its own operating system,
  clock and library state; all they share is the channel and the JSON library.
\<close>

section \<open>The channel\<close>

text \<open>
  What TLS promises two ends about the application data: each end reads, in order and unaltered, a
  prefix of what the other wrote.  How the bytes are cut into reads, and when they arrive, is open.
\<close>

definition tls_channel :: "trace \<Rightarrow> trace \<Rightarrow> bool" where
  "tls_channel client_es server_es \<longleftrightarrow>
     prefix (received server_es) (sent client_es) \<and> prefix (received client_es) (sent server_es)"

text \<open>The library reads back what it printed.\<close>

definition json_faithful :: "('j, 'z) json_api_scheme \<Rightarrow> bool" where
  "json_faithful J \<longleftrightarrow> (\<forall>d s. j_dump J d = Inr s \<longrightarrow> j_parse J s = Inr d)"

text \<open>A request the protocol admits: well formed, and with room for the enclosing object.\<close>

definition sendable :: "('j, 'z) json_api_scheme \<Rightarrow> 'j Message \<Rightarrow> bool" where
  "sendable J m \<longleftrightarrow> well_formed J m \<and> \<not> nested J kMaxJsonDepth (m_payload m)"

text \<open>What a request and its response have to do with each other.\<close>

definition answer_to ::
  "('j, 'z) json_api_scheme \<Rightarrow> SecurityProfile \<Rightarrow> HandshakeOutcome \<Rightarrow> 'j Message \<Rightarrow> 'j Message \<Rightarrow> bool" where
  "answer_to J profile outcome req resp \<longleftrightarrow>
     m_message_id resp = m_message_id req \<and> Some (m_type resp) = reply_type (m_type req) \<and>
     m_status resp = Some (if m_type resp = Error_message then ''rejected'' else ''accepted'') \<and>
     m_payload resp = reply_payload J profile outcome req"

section \<open>Frames over the channel\<close>

lemma decode_length_agree: "decode_length h m = Inr a \<Longrightarrow> decode_length h n = Inr b \<Longrightarrow> a = b"
  by (auto simp: decode_length_eq_Inr_iff)

text \<open>A reader with another limit sees the frame, or nothing, or an error; never a different frame.\<close>

lemma split_frame_other_limit:
  assumes "encodable m p" and "split_frame n (frame_of p @ r) = Inr (Some (q, u))"
  shows "q = p \<and> u = r"
proof -
  have "split_frame m (frame_of p @ r) = Inr (Some (p, r))" by (rule split_frame_frame_of [OF assms(1)])
  then show ?thesis using assms(2) by (auto elim!: split_frame_SomeE dest: decode_length_agree)
qed

lemma frames_of_encoded:
  assumes "\<forall>p \<in> set ps. encodable m p"
  shows "prefix (fst (frames_of n (concat (map frame_of ps)))) ps"
  using assms
proof (induction ps)
  case Nil
  then show ?case by (simp add: frames_of.simps [of n "[]"] split_frame_def)
next
  case (Cons p ps)
  then show ?case
    using split_frame_other_limit [of m p n "concat (map frame_of ps)"]
    by (auto simp: frames_of.simps [of n "frame_of p @ concat (map frame_of ps)"] split: sum.split option.split prod.split)
qed

lemma frames_of_prefix: "prefix s t \<Longrightarrow> prefix (fst (frames_of n s)) (fst (frames_of n t))"
proof (elim prefixE)
  fix u
  assume t: "t = s @ u"
  obtain ps r v where f: "frames_of n s = (ps, r, v)" by (cases "frames_of n s")
  show ?thesis using frames_of_append [OF f, of u] f t by (auto split: sum.splits prod.splits)
qed

lemma frames_delivered:
  assumes "\<forall>p \<in> set ps. encodable m p" and "prefix s (concat (map frame_of ps))"
  shows "prefix (fst (frames_of n s)) ps"
  using frames_of_prefix [OF assms(2)] frames_of_encoded [OF assms(1)] by (rule prefix_order.trans)

text \<open>A message with the text that carries it.\<close>

definition carried :: "('j, 'z) json_api_scheme \<Rightarrow> u32 \<Rightarrow> 'j Message \<Rightarrow> string \<Rightarrow> bool" where
  "carried J m msg p \<longleftrightarrow> serialize J msg = Inr p \<and> encodable m p"

lemma frame_for_eq: "frame_for J m msg f \<longleftrightarrow> (\<exists>p. carried J m msg p \<and> f = frame_of p)"
  by (auto simp: frame_for_def carried_def encode_eq)

lemma frames_for_eq:
  "list_all2 (frame_for J m) msgs fs \<Longrightarrow> \<exists>ps. list_all2 (carried J m) msgs ps \<and> fs = map frame_of ps"
proof (induction rule: list_all2_induct)
  case (Cons msg msgs f fs)
  then obtain p ps where "carried J m msg p" "f = frame_of p" "list_all2 (carried J m) msgs ps" "fs = map frame_of ps"
    by (auto simp: frame_for_eq)
  then show ?case by (intro exI [of _ "p # ps"]) simp
qed simp

lemma carried_encodable: "list_all2 (carried J m) msgs ps \<Longrightarrow> \<forall>p \<in> set ps. encodable m p"
  by (auto simp: list_all2_conv_all_nth in_set_conv_nth carried_def)

section \<open>One request\<close>

lemma serialize_faithful: "json_faithful J \<Longrightarrow> serialize J m = Inr s \<Longrightarrow> j_parse J s = Inr (to_json J m)"
  by (auto simp: json_faithful_def serialize_def split: sum.splits)

lemma reply_payload_object:
  assumes "json_laws J" and "j_is_object J (m_payload req)"
  shows "j_is_object J (reply_payload J profile outcome req)"
proof -
  note null = law_scalars(1) [OF assms(1)] and obj = law_object(1) [OF assms(1)] and set = law_set(1,2) [OF assms(1)]
  have "j_is_object J (build_capabilities_payload J profile outcome)"
    unfolding build_capabilities_payload_def Let_def by (intro set null)
  then show ?thesis using assms(2) obj null by (auto simp: reply_payload_def intro: set)
qed

text \<open>What the server answers to the text of a request it can read.\<close>

lemma server_reply_carried:
  assumes "json_laws J" "json_faithful J" "sendable J req" "serialize J req = Inr p"
    and "server_reply J E profile outcome p tr = (Inr (reply, cl), tr')"
  shows "case reply of None \<Rightarrow> m_type req = Close_message
    | Some r \<Rightarrow> m_type req \<noteq> Close_message \<and> answer_to J profile outcome req r"
proof -
  have "parse J E p tr = (Inr req, tr)"
    using assms(3) by (intro parse_serialized [OF assms(1) _ assms(4) serialize_faithful [OF assms(2,4)]])
      (simp_all add: sendable_def)
  then show ?thesis using assms(5)
    by (cases "m_type req")
       (auto simp: server_reply_def catchIO_def handle_message_def make_acknowledgement_def make_error_def bindIO_def
         iso8601_now_def ext_int_def returnIO_def Message_default_def reply_payload_def answer_to_def)
qed

lemma answers_carried:
  assumes "json_laws J" "json_faithful J" "sendable J req" "serialize J req = Inr p"
    and "answers J E profile outcome m p x"
  shows "if m_type req = Close_message then fst x = []
    else \<exists>r q. answer_to J profile outcome req r \<and> carried J m r q \<and> fst x = frame_of q"
proof -
  obtain tr tr' reply where r: "server_reply J E profile outcome p tr = (Inr (reply, snd x), tr')"
    "case reply of None \<Rightarrow> fst x = [] | Some r \<Rightarrow> frame_for J m r (fst x)"
    using assms(5) by (auto simp: answers_def)
  from server_reply_carried [OF assms(1-4) r(1)] r(2) show ?thesis by (auto simp: frame_for_eq split: option.splits)
qed

text \<open>What the client makes of the text of an answer.\<close>

lemma reads_carried:
  assumes "json_laws J" "json_faithful J" "j_is_object J (m_payload r)" "serialize J r = Inr q" "reads_as J E q resp"
  shows "m_message_id resp = m_message_id r" "m_type resp = m_type r" "m_status resp = m_status r" "m_payload resp = m_payload r"
proof -
  obtain tr tr' where "parse J E q tr = (Inr resp, tr')" using assms(5) by (auto simp: reads_as_def)
  then obtain doc where "j_parse J q = Inr doc" "matches_document J doc resp"
    using law_object(1) [OF assms(1)] by (rule parse_matches)
  then have m: "matches_document J (to_json J r) resp" using serialize_faithful [OF assms(2,4)] by simp
  note f = to_json_facts [OF assms(1,3)] and sc = law_scalars(4,5) [OF assms(1)]
  show "m_message_id resp = m_message_id r" "m_type resp = m_type r" "m_status resp = m_status r"
    using m by (auto simp: matches_document_def f sc message_type_inverse option.map_comp comp_def option.map_ident)
  show "m_payload resp = m_payload r"
    using m law_object(2) [OF assms(1,3)] by (auto simp: matches_document_def f split: if_splits)
qed

lemma answer_read:
  assumes "json_laws J" "json_faithful J" "sendable J req" "answer_to J profile outcome req r"
    and "carried J m r q" "reads_as J E q resp"
  shows "answer_to J profile outcome req resp"
proof -
  have "j_is_object J (m_payload r)"
    using reply_payload_object [OF assms(1)] assms(3,4) by (simp add: answer_to_def sendable_def well_formed_def)
  from reads_carried [OF assms(1,2) this _ assms(6)] assms(4,5) show ?thesis
    by (simp add: answer_to_def carried_def)
qed

section \<open>The whole stream\<close>

text \<open>The server's output, for any number of requests it got to read.\<close>

lemma replies_stream:
  assumes "json_laws J" "json_faithful J" and "\<forall>msg \<in> set msgs. sendable J msg"
    and "list_all2 (carried J m) (requests msgs) ps" and "prefix texts ps"
    and "list_all2 (answers J E profile outcome n) texts outs"
  shows "\<exists>k rs qs. list_all2 (answer_to J profile outcome) (take k (answered msgs)) rs \<and>
    list_all2 (carried J n) rs qs \<and> concat (map fst outs) = concat (map frame_of qs)"
  using assms(3-6)
proof (induction msgs arbitrary: ps texts outs)
  case Nil
  then show ?case by (intro exI [of _ 0] exI [of _ "[]"]) simp
next
  case (Cons msg msgs)
  show ?case
  proof (cases texts)
    case Nil
    then show ?thesis using Cons.prems(4) by (intro exI [of _ 0] exI [of _ "[]"]) simp
  next
    case (Cons p ts)
    obtain ps' where ps: "ps = p # ps'" "prefix ts ps'" using Cons.prems(3) Cons by (cases ps) auto
    obtain x xs where outs: "outs = x # xs" "answers J E profile outcome n p x" "list_all2 (answers J E profile outcome n) ts xs"
      using Cons.prems(4) Cons by (cases outs) auto
    have s: "sendable J msg" "serialize J msg = Inr p"
      using Cons.prems(1,2) ps(1) by (auto simp: carried_def split: if_splits)
    note ans = answers_carried [OF assms(1,2) s outs(2)]
    show ?thesis
    proof (cases "m_type msg = Close_message")
      case True
      then have "xs = []" using Cons.prems(2) ps outs(3) by auto
      then show ?thesis using True ans outs(1) by (intro exI [of _ 0] exI [of _ "[]"]) simp
    next
      case False
      then obtain r q where r: "answer_to J profile outcome msg r" "carried J n r q" "fst x = frame_of q"
        using ans by auto
      obtain k rs qs where "list_all2 (answer_to J profile outcome) (take k (answered msgs)) rs"
        "list_all2 (carried J n) rs qs" "concat (map fst xs) = concat (map frame_of qs)"
        using Cons.IH [OF _ _ ps(2) outs(3)] Cons.prems(1,2) ps(1) False by auto
      then show ?thesis using False r outs(1)
        by (intro exI [of _ "Suc k"] exI [of _ "r # rs"] exI [of _ "q # qs"]) (simp add: answered_def)
    qed
  qed
qed

lemma answers_read:
  assumes "json_laws J" "json_faithful J"
    and "list_all2 (answer_to J profile outcome) reqs rs" "list_all2 (carried J m) rs qs" "list_all2 (reads_as J E) qs resps"
    and "\<forall>req \<in> set reqs. sendable J req"
  shows "list_all2 (answer_to J profile outcome) reqs resps"
  unfolding list_all2_conv_all_nth
proof (intro conjI allI impI)
  show "length reqs = length resps" using assms(3-5) by (simp add: list_all2_conv_all_nth)
  fix i
  assume "i < length reqs"
  then have "sendable J (reqs ! i)" "answer_to J profile outcome (reqs ! i) (rs ! i)" "carried J m (rs ! i) (qs ! i)"
    "reads_as J E (qs ! i) (resps ! i)"
    using assms(3-6) by (simp_all add: list_all2_conv_all_nth)
  then show "answer_to J profile outcome (reqs ! i) (resps ! i)" by (rule answer_read [OF assms(1,2)])
qed

lemma server_session_stream:
  assumes "server_session J E cfg profile peer fd s tr = (Inr (Inr (), s'), tr @ es)"
  shows "\<exists>outcome texts outs rest. permits_negotiated_group profile (h_negotiated_group outcome) \<and>
    list_all2 (answers J E profile outcome (cc_max_frame_size (sv_common cfg))) texts outs \<and>
    sent es = concat (map fst outs) \<and> fst (frames_of (cc_max_frame_size (sv_common cfg)) (received es)) = texts @ rest"
proof -
  obtain outcome s1 tr1 where a: "server_establish E cfg profile peer fd s tr = (Inr (Inr outcome, s1), tr1)"
    "server_application J E cfg profile outcome s1 tr1 = (Inr (Inr (), s'), tr @ es)"
    using assms unfolding server_session_def by (elim bindS_InrE)
  have "permits_negotiated_group profile (h_negotiated_group outcome)" using establish_negotiated [OF a(1)] by blast
  moreover obtain es1 where "tr1 = tr @ es1" "sent es1 = []" "received es1 = []"
    using plain_server_establish a(1) by (rule plain_silent)
  ultimately show ?thesis using application_stream [OF a(2)] by fastforce
qed

text \<open>Requests beyond the first \<open>close\<close> are not waited for.\<close>

lemma answered_subset: "set (answered msgs) \<subseteq> set msgs"
  unfolding answered_def using set_takeWhileD by fastforce

text \<open>
  The client waits for one response per request, so the server must have read and answered them all.
\<close>

lemma exchange_answered:
  assumes "json_laws J" "json_faithful J" and "\<forall>msg \<in> set msgs. sendable J msg"
    and "list_all2 (carried J m) (requests msgs) ps" "prefix texts ps" "list_all2 (answers J Es profile outcome n) texts outs"
    and "prefix input (concat (map fst outs))" "fst (frames_of m input) = replies @ rest"
    and "list_all2 (reads_as J Ec) replies resps" "length resps = length (answered msgs)"
  shows "list_all2 (answer_to J profile outcome) (answered msgs) resps"
proof -
  obtain k rs qs where r: "list_all2 (answer_to J profile outcome) (take k (answered msgs)) rs"
    "list_all2 (carried J n) rs qs" "concat (map fst outs) = concat (map frame_of qs)"
    using replies_stream [OF assms(1-6)] by blast
  have "prefix (replies @ rest) qs"
    using frames_delivered [OF carried_encodable [OF r(2)], of input m] assms(7,8) r(3) by simp
  moreover have "length qs \<le> length (answered msgs)" using r(1,2) by (auto simp: list_all2_conv_all_nth)
  moreover have "length replies = length (answered msgs)" using assms(9,10) by (simp add: list_all2_conv_all_nth)
  ultimately have "replies = qs" by (auto simp: prefix_def)
  moreover have "take k (answered msgs) = answered msgs"
    using r(1,2) \<open>replies = qs\<close> \<open>length replies = length (answered msgs)\<close> by (auto simp: list_all2_conv_all_nth)
  ultimately show ?thesis
    using answers_read [OF assms(1,2) r(1,2)] assms(3,9) answered_subset [of msgs] by auto
qed

section \<open>Properties\<close>

text \<open>
  C1.  A conversation is what both programs say it is: when a client's connection succeeds against a
  server whose handling of it succeeds, over a channel that delivers bytes in order, then every
  request before the first \<open>close\<close> was read by the server and the client's responses are exactly
  the server's answers, one per request and in order, with the identifier of the request, the type
  and status the protocol assigns to it, and its payload (an echo comes back unchanged); and the
  group the server negotiated is one its profile permits.  This holds however the two ends and the
  channel cut the streams into reads and writes, and for different frame limits at the two ends.
\<close>

theorem end_to_end:
  assumes "json_laws J" and "json_faithful J" and "\<forall>msg \<in> set messages. sendable J msg"
    and "connect_and_exchange J Ec ccfg cprofile cached messages trc = ((Inr result, session), trc @ client_es)"
    and "server_session J Es scfg sprofile peer fd s trs = (Inr (Inr (), s'), trs @ server_es)"
    and "tls_channel client_es server_es"
  shows "\<exists>outcome. permits_negotiated_group sprofile (h_negotiated_group outcome) \<and>
    list_all2 (answer_to J sprofile outcome) (answered messages) (r_responses result)"
proof -
  let ?m = "cc_max_frame_size (cl_common ccfg)"
  obtain frames replies rest where c: "list_all2 (frame_for J ?m) (requests messages) frames" "sent client_es = concat frames"
    "list_all2 (reads_as J Ec) replies (r_responses result)" "length (r_responses result) = length (answered messages)"
    "fst (frames_of ?m (received client_es)) = replies @ rest"
    using connect_and_exchange_stream [OF assms(4)] by auto
  obtain ps where ps: "list_all2 (carried J ?m) (requests messages) ps" "frames = map frame_of ps"
    using frames_for_eq [OF c(1)] by blast
  obtain outcome texts outs srest where sv: "permits_negotiated_group sprofile (h_negotiated_group outcome)"
    "list_all2 (answers J Es sprofile outcome (cc_max_frame_size (sv_common scfg))) texts outs"
    "sent server_es = concat (map fst outs)"
    "fst (frames_of (cc_max_frame_size (sv_common scfg)) (received server_es)) = texts @ srest"
    using server_session_stream [OF assms(5)] by blast
  have "prefix (texts @ srest) ps"
    using frames_delivered [OF carried_encodable [OF ps(1)]] assms(6) c(2) ps(2) sv(4) unfolding tls_channel_def by metis
  then have "prefix texts ps" by (rule append_prefixD)
  moreover have "prefix (received client_es) (concat (map fst outs))"
    using assms(6) sv(3) by (simp add: tls_channel_def)
  ultimately show ?thesis
    using exchange_answered [OF assms(1-3) ps(1) _ sv(2) _ c(5,3,4)] sv(1) by blast
qed

text \<open>A ping and its pong, and a JSON library that knows just these two documents, by short names.\<close>

definition pong_message :: "jvalue Message" where
  "pong_message = \<lparr>m_protocol_version = 1, m_message_id = ''a'', m_type = Pong, m_timestamp = format_iso8601 1,
     m_status = Some ''accepted'', m_payload = JObj []\<rparr>"

definition talk_docs :: "(string \<times> jvalue) list" where
  "talk_docs = [(''1'', to_json (json_reference []) ping_message), (''2'', to_json (json_reference []) pong_message)]"

definition talk_json :: "jvalue json_api" where
  "talk_json = (json_reference [])
     \<lparr>j_dump := (\<lambda>d. case find (\<lambda>x. snd x = d) talk_docs of Some x \<Rightarrow> Inr (fst x) | None \<Rightarrow> Inl []),
      j_parse := (\<lambda>s. case map_of talk_docs s of Some d \<Rightarrow> Inr d | None \<Rightarrow> Inl [])\<rparr>"

definition reading :: "string \<Rightarrow> env" where
  "reading p = loop_env\<lparr>e_bytes := (\<lambda>tr c. case c of SSL_read n \<Rightarrow> frame_of p | _ \<Rightarrow> replicate 16 0)\<rparr>"

definition talk_client :: "(jvalue ClientResult result \<times> int option) \<times> trace" where
  "talk_client = connect_and_exchange talk_json (reading ''2'') ClientConfig_default hybrid_profile None [ping_message] []"

definition talk_server :: "(unit result \<times> ConnectionMetrics) result \<times> trace" where
  "talk_server = server_session talk_json (reading ''1'') (two_messages\<lparr>sv_max_messages_per_connection := 1\<rparr>)
     hybrid_profile ''peer'' 7 ConnectionMetrics_default []"

definition client_talked :: bool where
  "client_talked = (case talk_client of ((Inr r, c), ec) \<Rightarrow> sent ec = frame_of ''1'' \<and> received ec = frame_of ''2'' | _ \<Rightarrow> False)"

definition server_talked :: bool where
  "server_talked = (case talk_server of (Inr (Inr u, m), es) \<Rightarrow> received es = frame_of ''1'' \<and> sent es = frame_of ''2'' | _ \<Rightarrow> False)"

lemma client_talks: client_talked
  by code_simp

lemma server_talks: server_talked
  by code_simp

lemma json_laws_other_texts:
  assumes "json_laws J" and "\<And>d s. f d = Inr s \<Longrightarrow> s \<noteq> [] \<and> is_valid_utf8 s"
  shows "json_laws (J\<lparr>j_dump := f, j_parse := g\<rparr>)"
  using assms unfolding json_laws_def container_def by simp

lemma talk_docs_facts: "\<forall>x \<in> set talk_docs. fst x \<noteq> [] \<and> is_valid_utf8 (fst x) \<and> map_of talk_docs (fst x) = Some (snd x)"
  by code_simp

lemma talk_dump:
  assumes "(case find (\<lambda>x. snd x = d) xs of Some x \<Rightarrow> Inr (fst x) | None \<Rightarrow> Inl e) = Inr s"
  obtains "(s, d) \<in> set xs"
  using assms by (auto simp: find_Some_iff in_set_conv_nth split: option.splits) (metis prod.collapse)

lemma talk_json_laws: "json_laws talk_json"
  unfolding talk_json_def
proof (rule json_laws_other_texts [OF json_reference_laws])
  fix d s
  assume "(case find (\<lambda>x. snd x = d) talk_docs of Some x \<Rightarrow> Inr (fst x) | None \<Rightarrow> Inl []) = Inr s"
  then have "(s, d) \<in> set talk_docs" by (rule talk_dump)
  from bspec [OF talk_docs_facts this] show "s \<noteq> [] \<and> is_valid_utf8 s" by simp
qed

lemma talk_json_faithful: "json_faithful talk_json"
  unfolding json_faithful_def
proof (intro allI impI)
  fix d s
  assume "j_dump talk_json d = Inr s"
  then have "(s, d) \<in> set talk_docs" unfolding talk_json_def by (simp del: find.simps) (erule talk_dump)
  from bspec [OF talk_docs_facts this] show "j_parse talk_json s = Inr d" by (simp add: talk_json_def)
qed

lemma ping_sendable: "sendable talk_json ping_message"
  by (simp add: sendable_def well_formed_def talk_json_def json_reference_def ping_message_def kProtocolVersion_def
      kMaxJsonDepth_def numeral_eq_Suc)

lemma client_outcome:
  assumes "case x of ((Inr r, c), ec) \<Rightarrow> P ec | _ \<Rightarrow> False"
  obtains r c ec where "x = ((Inr r, c), [] @ ec)" "P ec"
  using assms by (cases x; cases "fst (fst x)") auto

lemma server_outcome:
  fixes y :: "(unit result \<times> 'm) result \<times> trace"
  assumes "case y of (Inr (Inr u, m), es) \<Rightarrow> P es | _ \<Rightarrow> False"
  obtains m es where "y = (Inr (Inr (), m), [] @ es)" "P es"
  using assms by (cases y; cases "fst y"; cases "fst (projr (fst y))") auto

theorem end_to_end_witness:
  "\<exists>result c ec. talk_client = ((Inr result, c), ec) \<and> (\<exists>pong. r_responses result = [pong] \<and> m_type pong = Pong \<and> m_message_id pong = ''a'')"
proof -
  obtain result c ec where c: "talk_client = ((Inr result, c), [] @ ec)" "sent ec = frame_of ''1'' \<and> received ec = frame_of ''2''"
    using client_talks unfolding client_talked_def by (rule client_outcome)
  obtain m es where s: "talk_server = (Inr (Inr (), m), [] @ es)" "received es = frame_of ''1'' \<and> sent es = frame_of ''2''"
    using server_talks unfolding server_talked_def by (rule server_outcome)
  have t: "talk_client = ((Inr result, c), [] @ ec)" "talk_server = (Inr (Inr (), m), [] @ es)"
    "received es = sent ec" "received ec = sent es" using c s by simp_all
  have "tls_channel ec es" using t(3,4) by (simp add: tls_channel_def)
  moreover have "\<forall>msg \<in> set [ping_message]. sendable talk_json msg" using ping_sendable by simp
  moreover have "answered [ping_message] = [ping_message]" by (simp add: answered_def ping_message_def)
  ultimately obtain outcome where "list_all2 (answer_to talk_json hybrid_profile outcome) [ping_message] (r_responses result)"
    using end_to_end [OF talk_json_laws talk_json_faithful _ t(1) [unfolded talk_client_def] t(2) [unfolded talk_server_def]]
    by metis
  then show ?thesis using t(1) by (auto simp: list_all2_Cons1 answer_to_def ping_message_def)
qed

text \<open>A record of a post-quantum key exchange.\<close>

definition post_quantum_record :: "Definition \<Rightarrow> ConnectionMetrics \<Rightarrow> bool" where
  "post_quantum_record d m \<longleftrightarrow> is_post_quantum_group (cm_negotiated_group m) \<and> cm_pq_key_establishment m \<and>
     (cm_hybrid_key_establishment m \<or> d_experimental d)"

lemma negotiated_post_quantum:
  assumes "create d = Inr p" "\<not> d_allow_classical_fallback d" "offers_post_quantum_key_establishment p" "negotiated_under p m"
  shows "post_quantum_record d m"
  using permits_post_quantum_only [OF assms(1-3), of "cm_negotiated_group m"] assms(4)
  by (simp add: negotiated_under_def negotiation_of_def post_quantum_record_def)

text \<open>
  C9.  No record of a downgrade: under a validated profile that offers post-quantum key establishment
  and forbids classical fallback, a client's run that returns a success returns metrics with a
  post-quantum group, marked as such, and hybrid unless the profile is experimental; and every line the
  server writes for a handled connection either reports a failure or a group of that kind.  So no
  success of an experiment with such a profile was measured on a classical key exchange.
\<close>

theorem post_quantum_records:
  assumes "create d = Inr p" and "\<not> d_allow_classical_fallback d" and "offers_post_quantum_key_establishment p"
    and "stream_open Ec" and "run_once J Ec ccfg p wc cached messages trc = ((Inr result, c), trc')"
    and "stream_open Es" and "handle_connection J Es scfg p ws (fd, peer) trs = (Inr (), trs')"
  shows "(r_ok result \<longrightarrow> post_quantum_record d (r_metrics result)) \<and>
    (\<exists>es m. trs' = trs @ es \<and> recorded J ws m es \<and> (cm_success m \<longrightarrow> post_quantum_record d m))"
proof -
  obtain es m where "trs' = trs @ es" "recorded J ws m es" "cm_success m \<longrightarrow> negotiated_under p m"
    using handle_connection_facts [OF assms(7,6)] by blast
  then show ?thesis using run_once_facts [OF assms(5,4)] negotiated_post_quantum [OF assms(1-3)] by blast
qed

theorem post_quantum_records_witness:
  "\<exists>result c tr'. loop_run = ((Inr result, c), tr') \<and> post_quantum_record hybrid_definition (r_metrics result)"
proof -
  obtain result c tr' where r: "loop_run = ((Inr result, c), tr')" "r_ok result"
    using loop_run_ok by (rule run_outcome)
  have h: "loop_handled = (Inr (), snd loop_handled)" using loop_handled_ok by (metis prod.collapse)
  have "post_quantum_record hybrid_definition (r_metrics result)"
    using post_quantum_records [OF hybrid_definition_created hybrid_definition_offers(2,1) stream_open_loop_env
      r(1) [unfolded loop_run_def hybrid_profile_def] stream_open_loop_env h [unfolded loop_handled_def hybrid_profile_def]] r(2) by blast
  then show ?thesis using r(1) by blast
qed

end
