(* ===== verification/Cli.thy ===== *)
theory Cli
  imports Config Transport "HOL-Library.Code_Target_Nat"
begin

text \<open>
  The command line shared by the two programs: \<open>src/common/cli_support.hpp\<close>, and how the mains
  turn it into a configuration (\<open>load_registry\<close> and \<open>build_config\<close> of
  \<open>src/client/main.cpp\<close> and \<open>src/server/main.cpp\<close>).  The arguments are the strings after
  the program's name.  The options are a \<open>std::map\<close>, kept as an association list in the order of
  its keys, because \<open>reject_unknown_options\<close> names the first unknown one in that order.
\<close>

section \<open>Options\<close>

text \<open>The order of \<open>std::string\<close>: lexicographic on unsigned bytes.\<close>

fun string_less :: "string \<Rightarrow> string \<Rightarrow> bool" where
  "string_less s [] = False"
| "string_less [] (d # ds) = True"
| "string_less (c # cs) (d # ds) = (byte_of_char c < byte_of_char d \<or> c = d \<and> string_less cs ds)"

fun map_put :: "string \<Rightarrow> 'v \<Rightarrow> (string \<times> 'v) list \<Rightarrow> (string \<times> 'v) list" where
  "map_put k v [] = [(k, v)]"
| "map_put k v ((l, w) # rest) =
     (if k = l then (k, v) # rest
      else if string_less k l then (k, v) # (l, w) # rest
      else (l, w) # map_put k v rest)"

record Arguments =
  a_command :: string
  a_options :: "(string \<times> string) list"
  a_positional :: "string list"

definition Arguments_default :: Arguments where
  "Arguments_default = \<lparr>a_command = [], a_options = [], a_positional = []\<rparr>"

definition has_option :: "Arguments \<Rightarrow> string \<Rightarrow> bool" where
  "has_option args name \<longleftrightarrow> map_of (a_options args) name \<noteq> None"

definition option_value :: "Arguments \<Rightarrow> string \<Rightarrow> string option" where
  "option_value args name = map_of (a_options args) name"

text \<open>The three \<open>apply_*\<close> members: the new value of the target.\<close>

definition apply_string :: "Arguments \<Rightarrow> string \<Rightarrow> string \<Rightarrow> string" where
  "apply_string args name target = (case option_value args name of Some v \<Rightarrow> v | None \<Rightarrow> target)"

definition apply_bool :: "Arguments \<Rightarrow> string \<Rightarrow> bool \<Rightarrow> bool result" where
  "apply_bool args name target =
     (case option_value args name of
        None \<Rightarrow> Inr target
      | Some v \<Rightarrow>
          if v = ''true'' \<or> v = ''1'' \<or> v = '''' then Inr True
          else if v = ''false'' \<or> v = ''0'' then Inr False
          else ConfigurationError (''--'' @ name @ '' expects true or false, got '' @ quoted v))"

text \<open>
  \<open>std::from_chars\<close> for \<open>uint64_t\<close>: the longest prefix of decimal digits, an error when there is
  none or its value does not fit, otherwise the value and the unread rest.
\<close>

definition is_digit :: "char \<Rightarrow> bool" where
  "is_digit c \<longleftrightarrow> 48 \<le> byte_of_char c \<and> byte_of_char c \<le> 57"

definition digits_value :: "string \<Rightarrow> nat" where
  "digits_value ds = foldl (\<lambda>n c. n * 10 + (unat (byte_of_char c) - 48)) 0 ds"

definition from_chars :: "string \<Rightarrow> (nat \<times> string) option" where
  "from_chars s =
     (let ds = takeWhile is_digit s in
      if ds = [] \<or> \<not> digits_value ds < 2 ^ 64 then None
      else Some (digits_value ds, dropWhile is_digit s))"

text \<open>\<open>limit\<close> is \<open>std::numeric_limits<T>::max()\<close>; the result is the new value of the target.\<close>

definition apply_integer :: "Arguments \<Rightarrow> string \<Rightarrow> nat \<Rightarrow> nat \<Rightarrow> nat result" where
  "apply_integer args name limit target =
     (case option_value args name of
        None \<Rightarrow> Inr target
      | Some v \<Rightarrow>
          (case from_chars v of
             None \<Rightarrow> ConfigurationError (''--'' @ name @ '' expects a non-negative integer, got '' @ quoted v)
           | Some (parsed, rest) \<Rightarrow>
               if rest \<noteq> [] then ConfigurationError (''--'' @ name @ '' expects a non-negative integer, got '' @ quoted v)
               else if parsed > limit then ConfigurationError (''--'' @ name @ '' value '' @ v @ '' is out of range'')
               else Inr parsed))"

section \<open>Parsing\<close>

definition put_option :: "Arguments \<Rightarrow> string \<Rightarrow> string \<Rightarrow> Arguments" where
  "put_option args name v = args\<lparr>a_options := map_put name v (a_options args)\<rparr>"

fun parse_tokens :: "string list \<Rightarrow> Arguments \<Rightarrow> string list \<Rightarrow> Arguments result" where
  "parse_tokens flags args [] = Inr args"
| "parse_tokens flags args (t # rest) =
     (if \<not> starts_with t ''--'' then parse_tokens flags (args\<lparr>a_positional := a_positional args @ [t]\<rparr>) rest
      else
        let token = drop 2 t in
        if CHR ''='' \<in> set token
        then parse_tokens flags
               (put_option args (takeWhile (\<lambda>c. c \<noteq> CHR ''='') token) (tl (dropWhile (\<lambda>c. c \<noteq> CHR ''='') token))) rest
        else if token \<in> set flags then parse_tokens flags (put_option args token ''true'') rest
        else (case rest of
                [] \<Rightarrow> ConfigurationError (''option --'' @ token @ '' requires a value'')
              | v # rest' \<Rightarrow> parse_tokens flags (put_option args token v) rest'))"

definition parse_arguments :: "string list \<Rightarrow> string list \<Rightarrow> Arguments result" where
  "parse_arguments flags argv =
     (case argv of
        [] \<Rightarrow> Inr Arguments_default
      | c # rest \<Rightarrow>
          if take 2 c \<noteq> ''--'' then parse_tokens flags (Arguments_default\<lparr>a_command := c\<rparr>) rest
          else parse_tokens flags Arguments_default argv)"

definition reject_unknown_options :: "Arguments \<Rightarrow> string list \<Rightarrow> unit result" where
  "reject_unknown_options args accepted =
     (case find (\<lambda>(name, v). name \<notin> set accepted) (a_options args) of
        Some (name, v) \<Rightarrow> ConfigurationError (''unknown option --'' @ name @
          ''. Run with --help for the accepted options; unknown options are rejected so that a typo cannot leave a different security policy in effect.'')
      | None \<Rightarrow> Inr ())"

text \<open>\<open>configure_logging\<close>: which level names there are; the logger itself is not modelled.\<close>

definition configure_logging :: "string \<Rightarrow> unit result" where
  "configure_logging level =
     (if level \<in> set [''trace'', ''debug'', ''info'', ''warn'', ''error'', ''off''] then Inr ()
      else ConfigurationError (''unknown log level '' @ quoted level @ ''; expected trace, debug, info, warn, error or off''))"

section \<open>From options to a configuration\<close>

definition load_registry :: "('n, 'z) yaml_api_scheme \<Rightarrow> string \<Rightarrow> ProfileRegistry result" where
  "load_registry Y profiles_file = (if profiles_file = '''' then builtin else from_yaml_file Y profiles_file)"

text \<open>A statement \<open>args.apply_*(name, config.field)\<close>: \<open>get\<close> and \<open>upd\<close> are the field.\<close>

definition string_option :: "Arguments \<Rightarrow> string \<Rightarrow> ('c \<Rightarrow> string) \<Rightarrow> (string \<Rightarrow> 'c \<Rightarrow> 'c) \<Rightarrow> 'c \<Rightarrow> 'c result" where
  "string_option args name get upd c = Inr (upd (apply_string args name (get c)) c)"

definition bool_option :: "Arguments \<Rightarrow> string \<Rightarrow> ('c \<Rightarrow> bool) \<Rightarrow> (bool \<Rightarrow> 'c \<Rightarrow> 'c) \<Rightarrow> 'c \<Rightarrow> 'c result" where
  "bool_option args name get upd c = bindE (apply_bool args name (get c)) (\<lambda>b. Inr (upd b c))"

definition word_option :: "Arguments \<Rightarrow> string \<Rightarrow> ('c \<Rightarrow> 'w::len word) \<Rightarrow> ('w word \<Rightarrow> 'c \<Rightarrow> 'c) \<Rightarrow> 'c \<Rightarrow> 'c result" where
  "word_option args name get upd c =
     bindE (apply_integer args name (2 ^ LENGTH('w) - 1) (unat (get c))) (\<lambda>n. Inr (upd (word_of_nat n) c))"

definition in_common_client :: "('v \<Rightarrow> CommonConfig \<Rightarrow> CommonConfig) \<Rightarrow> 'v \<Rightarrow> ClientConfig \<Rightarrow> ClientConfig" where
  "in_common_client upd v c = c\<lparr>cl_common := upd v (cl_common c)\<rparr>"

definition in_common_server :: "('v \<Rightarrow> CommonConfig \<Rightarrow> CommonConfig) \<Rightarrow> 'v \<Rightarrow> ServerConfig \<Rightarrow> ServerConfig" where
  "in_common_server upd v c = c\<lparr>sv_common := upd v (sv_common c)\<rparr>"

definition client_statements :: "Arguments \<Rightarrow> (ClientConfig \<Rightarrow> ClientConfig result) list" where
  "client_statements args =
     [string_option args ''host'' cl_host (\<lambda>v c. c\<lparr>cl_host := v\<rparr>),
      word_option args ''port'' cl_port (\<lambda>v c. c\<lparr>cl_port := v\<rparr>),
      string_option args ''server-name'' cl_server_name (\<lambda>v c. c\<lparr>cl_server_name := v\<rparr>),
      string_option args ''profile'' (cc_profile_id \<circ> cl_common) (in_common_client (\<lambda>v c. c\<lparr>cc_profile_id := v\<rparr>)),
      string_option args ''profiles-file'' (cc_profiles_file \<circ> cl_common) (in_common_client (\<lambda>v c. c\<lparr>cc_profiles_file := v\<rparr>)),
      string_option args ''ca-certificate'' (cc_ca_certificate_file \<circ> cl_common) (in_common_client (\<lambda>v c. c\<lparr>cc_ca_certificate_file := v\<rparr>)),
      string_option args ''certificate'' (cc_certificate_file \<circ> cl_common) (in_common_client (\<lambda>v c. c\<lparr>cc_certificate_file := v\<rparr>)),
      string_option args ''private-key'' (cc_private_key_file \<circ> cl_common) (in_common_client (\<lambda>v c. c\<lparr>cc_private_key_file := v\<rparr>)),
      string_option args ''message'' cl_message (\<lambda>v c. c\<lparr>cl_message := v\<rparr>),
      string_option args ''message-file'' cl_message_file (\<lambda>v c. c\<lparr>cl_message_file := v\<rparr>),
      string_option args ''metrics'' (cc_metrics_file \<circ> cl_common) (in_common_client (\<lambda>v c. c\<lparr>cc_metrics_file := v\<rparr>)),
      string_option args ''experiment-id'' (cc_experiment_id \<circ> cl_common) (in_common_client (\<lambda>v c. c\<lparr>cc_experiment_id := v\<rparr>)),
      string_option args ''log-level'' (cc_log_level \<circ> cl_common) (in_common_client (\<lambda>v c. c\<lparr>cc_log_level := v\<rparr>)),
      string_option args ''keylog-file'' (cc_keylog_file \<circ> cl_common) (in_common_client (\<lambda>v c. c\<lparr>cc_keylog_file := v\<rparr>)),
      string_option args ''output'' cl_benchmark_output (\<lambda>v c. c\<lparr>cl_benchmark_output := v\<rparr>),
      bool_option args ''insecure-development-mode'' (cc_insecure_development_mode \<circ> cl_common)
        (in_common_client (\<lambda>v c. c\<lparr>cc_insecure_development_mode := v\<rparr>)),
      bool_option args ''reuse-session'' cl_reuse_session (\<lambda>v c. c\<lparr>cl_reuse_session := v\<rparr>),
      word_option args ''max-frame-size'' (cc_max_frame_size \<circ> cl_common) (in_common_client (\<lambda>v c. c\<lparr>cc_max_frame_size := v\<rparr>)),
      word_option args ''handshake-timeout'' (cc_handshake_timeout_ms \<circ> cl_common) (in_common_client (\<lambda>v c. c\<lparr>cc_handshake_timeout_ms := v\<rparr>)),
      word_option args ''io-timeout'' (cc_io_timeout_ms \<circ> cl_common) (in_common_client (\<lambda>v c. c\<lparr>cc_io_timeout_ms := v\<rparr>)),
      word_option args ''connections'' cl_connections (\<lambda>v c. c\<lparr>cl_connections := v\<rparr>),
      word_option args ''concurrency'' cl_concurrency (\<lambda>v c. c\<lparr>cl_concurrency := v\<rparr>),
      word_option args ''warmup'' cl_warmup_connections (\<lambda>v c. c\<lparr>cl_warmup_connections := v\<rparr>),
      word_option args ''messages-per-connection'' cl_messages_per_connection (\<lambda>v c. c\<lparr>cl_messages_per_connection := v\<rparr>)]"

definition client_finish :: "Arguments \<Rightarrow> ClientConfig \<Rightarrow> ClientConfig" where
  "client_finish args c0 =
     (let c = (if has_option args ''json'' then in_common_client (\<lambda>v k. k\<lparr>cc_output_format := v\<rparr>) Json_format c0 else c0)
      in if cl_benchmark_output c \<noteq> '''' \<and> cc_metrics_file (cl_common c) = ''''
         then in_common_client (\<lambda>v k. k\<lparr>cc_metrics_file := v\<rparr>) (cl_benchmark_output c) c else c)"

definition build_client_config :: "('n, 'z) yaml_api_scheme \<Rightarrow> Arguments \<Rightarrow> ClientConfig result" where
  "build_client_config Y args =
     bindE (case option_value args ''config'' of
              Some file \<Rightarrow> load_client_yaml Y file (ClientConfig_default, [])
            | None \<Rightarrow> Inr (ClientConfig_default, [])) (\<lambda>(base, warnings).
     bindE (run_statements (client_statements args) base) (\<lambda>c. Inr (client_finish args c)))"

definition server_statements :: "Arguments \<Rightarrow> (ServerConfig \<Rightarrow> ServerConfig result) list" where
  "server_statements args =
     [string_option args ''listen'' sv_listen_address (\<lambda>v c. c\<lparr>sv_listen_address := v\<rparr>),
      word_option args ''port'' sv_port (\<lambda>v c. c\<lparr>sv_port := v\<rparr>),
      string_option args ''profile'' (cc_profile_id \<circ> sv_common) (in_common_server (\<lambda>v c. c\<lparr>cc_profile_id := v\<rparr>)),
      string_option args ''profiles-file'' (cc_profiles_file \<circ> sv_common) (in_common_server (\<lambda>v c. c\<lparr>cc_profiles_file := v\<rparr>)),
      string_option args ''certificate'' (cc_certificate_file \<circ> sv_common) (in_common_server (\<lambda>v c. c\<lparr>cc_certificate_file := v\<rparr>)),
      string_option args ''private-key'' (cc_private_key_file \<circ> sv_common) (in_common_server (\<lambda>v c. c\<lparr>cc_private_key_file := v\<rparr>)),
      string_option args ''ca-certificate'' (cc_ca_certificate_file \<circ> sv_common) (in_common_server (\<lambda>v c. c\<lparr>cc_ca_certificate_file := v\<rparr>)),
      string_option args ''metrics'' (cc_metrics_file \<circ> sv_common) (in_common_server (\<lambda>v c. c\<lparr>cc_metrics_file := v\<rparr>)),
      string_option args ''experiment-id'' (cc_experiment_id \<circ> sv_common) (in_common_server (\<lambda>v c. c\<lparr>cc_experiment_id := v\<rparr>)),
      string_option args ''log-level'' (cc_log_level \<circ> sv_common) (in_common_server (\<lambda>v c. c\<lparr>cc_log_level := v\<rparr>)),
      string_option args ''keylog-file'' (cc_keylog_file \<circ> sv_common) (in_common_server (\<lambda>v c. c\<lparr>cc_keylog_file := v\<rparr>)),
      bool_option args ''require-client-cert'' sv_require_client_certificate (\<lambda>v c. c\<lparr>sv_require_client_certificate := v\<rparr>),
      bool_option args ''insecure-development-mode'' (cc_insecure_development_mode \<circ> sv_common)
        (in_common_server (\<lambda>v c. c\<lparr>cc_insecure_development_mode := v\<rparr>)),
      word_option args ''max-connections'' sv_max_connections (\<lambda>v c. c\<lparr>sv_max_connections := v\<rparr>),
      word_option args ''backlog'' sv_backlog (\<lambda>v c. c\<lparr>sv_backlog := v\<rparr>),
      word_option args ''max-frame-size'' (cc_max_frame_size \<circ> sv_common) (in_common_server (\<lambda>v c. c\<lparr>cc_max_frame_size := v\<rparr>)),
      word_option args ''handshake-timeout'' (cc_handshake_timeout_ms \<circ> sv_common) (in_common_server (\<lambda>v c. c\<lparr>cc_handshake_timeout_ms := v\<rparr>)),
      word_option args ''io-timeout'' (cc_io_timeout_ms \<circ> sv_common) (in_common_server (\<lambda>v c. c\<lparr>cc_io_timeout_ms := v\<rparr>)),
      word_option args ''max-messages'' sv_max_messages_per_connection (\<lambda>v c. c\<lparr>sv_max_messages_per_connection := v\<rparr>)]"

definition build_server_config :: "('n, 'z) yaml_api_scheme \<Rightarrow> Arguments \<Rightarrow> ServerConfig result" where
  "build_server_config Y args =
     bindE (case option_value args ''config'' of
              Some file \<Rightarrow> load_server_yaml Y file (ServerConfig_default, [])
            | None \<Rightarrow> Inr (ServerConfig_default, [])) (\<lambda>(base, warnings).
     bindE (run_statements (server_statements args) base) (\<lambda>c.
     Inr (if has_option args ''json'' then in_common_server (\<lambda>v k. k\<lparr>cc_output_format := v\<rparr>) Json_format c else c)))"

text \<open>The options each program declares.\<close>

definition kClientFlags :: "string list" where
  "kClientFlags = [''json'', ''help'', ''version'', ''insecure-development-mode'', ''reuse-session'']"

definition kClientOptions :: "string list" where
  "kClientOptions = [''host'', ''port'', ''server-name'', ''profile'', ''profiles-file'', ''ca-certificate'', ''certificate'',
     ''private-key'', ''message'', ''message-file'', ''metrics'', ''experiment-id'', ''max-frame-size'', ''handshake-timeout'',
     ''io-timeout'', ''config'', ''log-level'', ''json'', ''help'', ''version'', ''insecure-development-mode'', ''keylog-file'',
     ''connections'', ''concurrency'', ''warmup'', ''messages-per-connection'', ''reuse-session'', ''output'']"

definition kServerFlags :: "string list" where
  "kServerFlags = [''json'', ''help'', ''version'', ''insecure-development-mode'', ''require-client-cert'']"

definition kServerOptions :: "string list" where
  "kServerOptions = [''listen'', ''port'', ''profile'', ''profiles-file'', ''certificate'', ''private-key'', ''ca-certificate'',
     ''require-client-cert'', ''metrics'', ''experiment-id'', ''max-connections'', ''backlog'', ''max-frame-size'',
     ''handshake-timeout'', ''io-timeout'', ''max-messages'', ''config'', ''log-level'', ''json'', ''help'', ''version'',
     ''insecure-development-mode'', ''keylog-file'']"

section \<open>Parsing is faithful\<close>

lemma string_less_irrefl [simp]: "\<not> string_less s s"
  by (induction s) simp_all

lemma string_less_trans: "string_less s t \<Longrightarrow> string_less t u \<Longrightarrow> string_less s u"
proof (induction s t arbitrary: u rule: string_less.induct)
  case (3 c cs d ds)
  then obtain e es where u: "u = e # es" by (cases u) auto
  with 3 show ?case by auto
next
  case (2 d ds)
  then show ?case by (cases u) auto
qed auto

lemma string_less_total: "s \<noteq> t \<Longrightarrow> string_less s t \<or> string_less t s"
proof (induction s t rule: string_less.induct)
  case (3 c cs d ds)
  have "c \<noteq> d \<Longrightarrow> byte_of_char c < byte_of_char d \<or> byte_of_char d < byte_of_char c"
    using inj_byte_of_char by (metis injD linorder_neq_iff)
  with 3 show ?case by auto
qed (auto simp: neq_Nil_conv)

abbreviation key_sorted :: "(string \<times> 'v) list \<Rightarrow> bool" where
  "key_sorted \<equiv> sorted_wrt (\<lambda>x y. string_less (fst x) (fst y))"

text \<open>The association list is a map in key order: insertion keeps the order and is \<open>fun_upd\<close>.\<close>

lemma set_map_put: "fst ` set (map_put k v m) = insert k (fst ` set m)"
  by (induction k v m rule: map_put.induct) auto

lemma key_sorted_map_put: "key_sorted m \<Longrightarrow> key_sorted (map_put k v m)"
proof (induction k v m rule: map_put.induct)
  case (2 k v l w rest)
  have less: "\<forall>x \<in> fst ` set rest. string_less l x" using 2(2) by auto
  have rest: "key_sorted rest" using 2(2) by simp
  consider "k = l" | "k \<noteq> l" "string_less k l" | "k \<noteq> l" "\<not> string_less k l" "string_less l k"
    using string_less_total by blast
  then show ?case
  proof cases
    case 1
    then show ?thesis using less rest by auto
  next
    case c: 2
    then show ?thesis using less rest string_less_trans [OF c(2)] by auto
  next
    case c: 3
    have "\<forall>x \<in> fst ` set (map_put k v rest). string_less l x" using less c by (simp add: set_map_put)
    then show ?thesis using c 2(1) [OF c(1,2) rest] by auto
  qed
qed simp

lemma map_of_map_put: "key_sorted m \<Longrightarrow> map_of (map_put k v m) = (map_of m)(k \<mapsto> v)"
  by (induction k v m rule: map_put.induct) auto

lemma map_put_last: "\<forall>x \<in> set m. string_less (fst x) k \<Longrightarrow> map_put k v m = m @ [(k, v)]"
  by (induction k v m rule: map_put.induct) (auto dest: string_less_trans)

text \<open>How a command line is written down.\<close>

definition render_option :: "string \<times> string \<Rightarrow> string" where
  "render_option x = ''--'' @ fst x @ ''='' @ snd x"

definition render_arguments :: "Arguments \<Rightarrow> string list" where
  "render_arguments args = a_command args # map render_option (a_options args) @ a_positional args"

lemma split_equals:
  assumes "CHR ''='' \<notin> set name"
  shows "takeWhile (\<lambda>c. c \<noteq> CHR ''='') (name @ ''='' @ v) = name"
    and "dropWhile (\<lambda>c. c \<noteq> CHR ''='') (name @ ''='' @ v) = ''='' @ v"
  using assms by (induction name) auto

lemma parse_tokens_option:
  assumes "CHR ''='' \<notin> set name"
  shows "parse_tokens flags args (render_option (name, v) # rest) = parse_tokens flags (put_option args name v) rest"
  using split_equals [OF assms, of v] by (simp add: starts_with_def render_option_def)

lemma parse_tokens_positional:
  "list_all (\<lambda>t. \<not> starts_with t ''--'') ts \<Longrightarrow>
     parse_tokens flags args ts = Inr (args\<lparr>a_positional := a_positional args @ ts\<rparr>)"
  by (induction ts arbitrary: args) simp_all

lemma parse_tokens_options:
  assumes "key_sorted (a_options args @ opts)" and "list_all (\<lambda>x. CHR ''='' \<notin> set (fst x)) opts"
  shows "parse_tokens flags args (map render_option opts @ ts) =
         parse_tokens flags (args\<lparr>a_options := a_options args @ opts\<rparr>) ts"
  using assms
proof (induction opts arbitrary: args)
  case (Cons x opts)
  obtain name v where x: "x = (name, v)" by (cases x)
  have "\<forall>y \<in> set (a_options args). string_less (fst y) name"
    using Cons.prems(1) by (auto simp: x sorted_wrt_append)
  then have "put_option args name v = args\<lparr>a_options := a_options args @ [(name, v)]\<rparr>"
    by (simp add: put_option_def map_put_last)
  then show ?case using Cons.prems Cons.IH [of "args\<lparr>a_options := a_options args @ [(name, v)]\<rparr>"]
    by (simp add: x parse_tokens_option del: parse_tokens.simps)
qed simp

text \<open>
  C32. The command-line parser reads back exactly what was written: for any command and positional
  words that do not begin with two dashes, and any options in map order whose names have no equals
  sign, with arbitrary values (empty, with spaces, equals signs or dashes, even for a flag), parsing
  the written form gives these arguments.
\<close>

theorem parse_render_roundtrip:
  assumes "\<not> starts_with (a_command args) ''--''" and "list_all (\<lambda>t. \<not> starts_with t ''--'') (a_positional args)"
    and "key_sorted (a_options args)" and "list_all (\<lambda>x. CHR ''='' \<notin> set (fst x)) (a_options args)"
  shows "parse_arguments flags (render_arguments args) = Inr args"
  using assms parse_tokens_options [of "Arguments_default\<lparr>a_command := a_command args\<rparr>" "a_options args" flags "a_positional args"]
  by (simp add: parse_arguments_def render_arguments_def starts_with_def parse_tokens_positional Arguments_default_def numeral_2_eq_2)

theorem parse_render_roundtrip_witness:
  "parse_arguments kClientFlags [''connect'', ''--json='', ''--message={a=--b}'', ''x''] =
     Inr \<lparr>a_command = ''connect'', a_options = [(''json'', ''''), (''message'', ''{a=--b}'')], a_positional = [''x'']\<rparr>"
  using parse_render_roundtrip [of "\<lparr>a_command = ''connect'', a_options = [(''json'', ''''), (''message'', ''{a=--b}'')],
      a_positional = [''x'']\<rparr>" kClientFlags]
  by (simp add: render_arguments_def render_option_def starts_with_def byte_of_char_def)

section \<open>Integers on the command line\<close>

lemma is_digit_digit [simp]: "d < 10 \<Longrightarrow> is_digit (digit d)"
proof -
  assume "d < 10"
  then have "unat (byte_of_char (digit d)) = 48 + d" by (simp add: digit_def)
  with \<open>d < 10\<close> show ?thesis by (simp add: is_digit_def word_le_nat_alt del: unat_byte_of_char)
qed

lemma digits_value_snoc: "d < 10 \<Longrightarrow> digits_value (ds @ [digit d]) = digits_value ds * 10 + d"
  by (simp add: digits_value_def digit_def)

lemma digits_value_dec_nat [simp]: "digits_value (dec_nat n) = n"
proof (induction n rule: dec_nat.induct)
  case (1 n)
  show ?case
  proof (cases "n < 10")
    case True
    then show ?thesis using digits_value_snoc [of n "[]"] by (simp add: dec_nat.simps [of n] digits_value_def)
  next
    case False
    then show ?thesis using 1 by (simp add: dec_nat.simps [of n] digits_value_snoc)
  qed
qed

lemma dec_nat_digits: "dec_nat n \<noteq> [] \<and> list_all is_digit (dec_nat n)"
proof (induction n rule: dec_nat.induct)
  case (1 n)
  then show ?case by (simp add: dec_nat.simps [of n])
qed

lemma from_chars_all:
  "from_chars v = Some (n, []) \<longleftrightarrow> v \<noteq> [] \<and> list_all is_digit v \<and> digits_value v = n \<and> n < 2 ^ 64"
proof (cases "list_all is_digit v")
  case True
  then have all: "takeWhile is_digit v = v" "dropWhile is_digit v = []" by (simp_all add: list_all_iff)
  show ?thesis unfolding from_chars_def Let_def all using True by auto
next
  case False
  then have "dropWhile is_digit v \<noteq> []" by (simp add: list_all_iff)
  then show ?thesis using False by (simp add: from_chars_def Let_def)
qed

lemma unat_word_of_nat_less: "n < 2 ^ LENGTH('w) \<Longrightarrow> unat (word_of_nat n :: 'w::len word) = n"
  by (simp add: unat_of_nat take_bit_nat_eq_self)

lemma apply_integer_Inr:
  assumes "limit < 2 ^ 64"
  shows "apply_integer args name limit target = Inr n \<longleftrightarrow>
    (case option_value args name of None \<Rightarrow> n = target
     | Some v \<Rightarrow> v \<noteq> [] \<and> list_all is_digit v \<and> digits_value v = n \<and> n \<le> limit)"
proof (cases "option_value args name")
  case (Some v)
  have "apply_integer args name limit target = Inr n \<longleftrightarrow> from_chars v = Some (n, []) \<and> n \<le> limit"
    using Some by (auto simp: apply_integer_def throw_sub_def split: option.splits)
  then show ?thesis using Some assms by (auto simp: from_chars_all)
qed (auto simp: apply_integer_def)

lemma apply_integer_only_throws: "only_throws Configuration (apply_integer args name limit target)"
  unfolding apply_integer_def by (auto split: option.split)

text \<open>
  C33. An integer option of any width up to 64 bits takes effect exactly as written or not at all: the
  statement succeeds iff the option is absent (the field keeps its value), or its text is a non-empty
  string of decimal digits whose value fits the field, and then the field is that value.  Nothing is
  truncated, no sign, space or suffix is accepted.
\<close>

theorem integer_option_exact:
  fixes get :: "'c \<Rightarrow> 'w::len word"
  assumes "LENGTH('w) \<le> 64"
  shows "word_option args name get upd c = Inr c' \<longleftrightarrow>
    (case option_value args name of None \<Rightarrow> c' = upd (get c) c
     | Some v \<Rightarrow> v \<noteq> [] \<and> list_all is_digit v \<and> (\<exists>w. unat w = digits_value v \<and> c' = upd w c))"
proof -
  let ?limit = "2 ^ LENGTH('w) - 1 :: nat"
  have "(2::nat) ^ LENGTH('w) \<le> 2 ^ 64" using assms by (intro power_increasing) simp_all
  moreover have "(0::nat) < 2 ^ LENGTH('w)" by simp
  ultimately have limit: "?limit < 2 ^ 64" by linarith
  have "word_option args name get upd c = Inr c' \<longleftrightarrow>
      (\<exists>n. apply_integer args name ?limit (unat (get c)) = Inr n \<and> c' = upd (word_of_nat n) c)"
    by (auto simp: word_option_def bindE_eq_Inr_iff)
  moreover have "n \<le> ?limit \<and> c' = upd (word_of_nat n) c \<longleftrightarrow> (\<exists>w::'w word. unat w = n \<and> c' = upd w c)" for n
  proof
    assume n: "n \<le> ?limit \<and> c' = upd (word_of_nat n) c"
    then have "n < 2 ^ LENGTH('w)" using \<open>(0::nat) < 2 ^ LENGTH('w)\<close> by linarith
    then show "\<exists>w::'w word. unat w = n \<and> c' = upd w c" using n unat_word_of_nat_less by blast
  next
    assume "\<exists>w::'w word. unat w = n \<and> c' = upd w c"
    then obtain w :: "'w word" where w: "unat w = n" "c' = upd w c" by blast
    have "unat w < 2 ^ LENGTH('w)" by simp
    then have "unat w \<le> ?limit" by linarith
    with w show "n \<le> ?limit \<and> c' = upd (word_of_nat n) c" by auto
  qed
  ultimately show ?thesis unfolding apply_integer_Inr [OF limit]
    by (cases "option_value args name") auto
qed

definition port_arguments :: "string \<Rightarrow> Arguments" where
  "port_arguments v = \<lparr>a_command = '''', a_options = [(''port'', v)], a_positional = []\<rparr>"

theorem integer_option_exact_witness:
  "word_option (port_arguments ''08443'') ''port'' cl_port (\<lambda>v c. c\<lparr>cl_port := v\<rparr>) ClientConfig_default =
     Inr (ClientConfig_default\<lparr>cl_port := 8443\<rparr>) \<and>
   (\<nexists>c. word_option (port_arguments ''65536'') ''port'' cl_port (\<lambda>v c. c\<lparr>cl_port := v\<rparr>) ClientConfig_default = Inr c)"
proof -
  have v: "''08443'' \<noteq> [] \<and> list_all is_digit ''08443'' \<and> unat (8443 :: u16) = digits_value ''08443''"
    "digits_value ''65536'' = 65536" by (simp_all add: is_digit_def byte_of_char_def digits_value_def)
  have "unat w < 65536" for w :: u16 using unsigned_less [of w, where 'a = nat] by simp
  then have "unat w \<noteq> 65536" for w :: u16 by (metis less_irrefl)
  then show ?thesis unfolding integer_option_exact [where 'w = 16, simplified]
    using v by (auto simp: port_arguments_def option_value_def intro!: exI [of _ 8443])
qed

section \<open>Precedence\<close>

definition server_base :: "('n, 'z) yaml_api_scheme \<Rightarrow> Arguments \<Rightarrow> ServerConfig result" where
  "server_base Y args = (case option_value args ''config'' of
      Some file \<Rightarrow> bindE (load_server_yaml Y file (ServerConfig_default, [])) (\<lambda>(c, ws). Inr c)
    | None \<Rightarrow> Inr ServerConfig_default)"

definition client_base :: "('n, 'z) yaml_api_scheme \<Rightarrow> Arguments \<Rightarrow> ClientConfig result" where
  "client_base Y args = (case option_value args ''config'' of
      Some file \<Rightarrow> bindE (load_client_yaml Y file (ClientConfig_default, [])) (\<lambda>(c, ws). Inr c)
    | None \<Rightarrow> Inr ClientConfig_default)"

text \<open>\<open>int_field args name w w'\<close>: the value \<open>w'\<close> a field gets from option \<open>name\<close>, when it was \<open>w\<close>.\<close>

definition int_field :: "Arguments \<Rightarrow> string \<Rightarrow> 'w::len word \<Rightarrow> 'w word \<Rightarrow> bool" where
  "int_field args name w w' \<longleftrightarrow> apply_integer args name (2 ^ LENGTH('w) - 1) (unat w) = Inr (unat w')"

lemma apply_integer_bound:
  "apply_integer args name limit target = Inr n \<Longrightarrow> target \<le> limit \<Longrightarrow> n \<le> limit"
  by (auto simp: apply_integer_def throw_sub_def split: option.splits if_splits)

lemma run_statements_Nil [simp]: "run_statements [] s = Inr s"
  by (simp add: run_statements_def)

lemma run_statements_Cons: "run_statements (f # fs) s = bindE (f s) (run_statements fs)"
  by (simp add: run_statements_def)

text \<open>\<open>keeps g f\<close>: statement \<open>f\<close> does not change the field \<open>g\<close>.\<close>

definition keeps :: "('c \<Rightarrow> 'v) \<Rightarrow> ('c \<Rightarrow> 'c result) \<Rightarrow> bool" where
  "keeps g f \<longleftrightarrow> (\<forall>s t. f s = Inr t \<longrightarrow> g t = g s)"

lemma keeps_statements:
  "(\<And>v c. g (upd v c) = g c) \<Longrightarrow> keeps g (string_option args name get upd)"
  "(\<And>v c. g (updb v c) = g c) \<Longrightarrow> keeps g (bool_option args name getb updb)"
  "(\<And>v c. g (updw v c) = g c) \<Longrightarrow> keeps g (word_option args name getw updw)"
  by (auto simp: keeps_def string_option_def bool_option_def word_option_def bindE_eq_Inr_iff)

lemma run_statements_keeps:
  assumes "run_statements fs s = Inr t" and "list_all (keeps g) fs"
  shows "g t = g s"
  using assms
proof (induction fs arbitrary: s)
  case (Cons f fs)
  then obtain u where "f s = Inr u" "run_statements fs u = Inr t" by (auto simp: run_statements_Cons bindE_eq_Inr_iff)
  with Cons show ?case by (auto simp: keeps_def)
qed simp

text \<open>A field that only the statement at position \<open>i\<close> assigns: that statement decides it.\<close>

lemma run_statements_field:
  assumes "run_statements fs s = Inr t" and "i < length fs"
    and "list_all (keeps g) (take i fs)" and "list_all (keeps g) (drop (Suc i) fs)"
  obtains u v where "g u = g s" "(fs ! i) u = Inr v" "g t = g v"
proof -
  have "run_statements (take i fs @ fs ! i # drop (Suc i) fs) s = Inr t"
    using assms(1,2) by (simp add: id_take_nth_drop [symmetric])
  then obtain u v where "run_statements (take i fs) s = Inr u" "(fs ! i) u = Inr v"
      "run_statements (drop (Suc i) fs) v = Inr t"
    by (auto simp: run_statements_def foldE_append bindE_eq_Inr_iff)
  then show thesis using that run_statements_keeps assms(3,4) by metis
qed

lemma string_field:
  assumes "run_statements fs s = Inr t" and "i < length fs"
    and "list_all (keeps get) (take i fs)" and "list_all (keeps get) (drop (Suc i) fs)"
    and "fs ! i = string_option args name get upd" and "\<And>v c. get (upd v c) = v"
  shows "get t = apply_string args name (get s)"
  using run_statements_field [OF assms(1-4)] assms(5,6) by (metis Inr_inject string_option_def)

lemma bool_field:
  assumes "run_statements fs s = Inr t" and "i < length fs"
    and "list_all (keeps get) (take i fs)" and "list_all (keeps get) (drop (Suc i) fs)"
    and "fs ! i = bool_option args name get upd" and "\<And>v c. get (upd v c) = v"
  shows "apply_bool args name (get s) = Inr (get t)"
proof -
  obtain u v where u: "get u = get s" "(fs ! i) u = Inr v" "get t = get v"
    by (rule run_statements_field [OF assms(1-4)])
  then show ?thesis using assms(5,6) by (auto simp: bool_option_def bindE_eq_Inr_iff)
qed

lemma word_field:
  fixes get :: "'c \<Rightarrow> 'w::len word"
  assumes "run_statements fs s = Inr t" and "i < length fs"
    and "list_all (keeps get) (take i fs)" and "list_all (keeps get) (drop (Suc i) fs)"
    and "fs ! i = word_option args name get upd" and "\<And>v c. get (upd v c) = v"
  shows "int_field args name (get s) (get t)"
proof -
  obtain u v where u: "get u = get s" "(fs ! i) u = Inr v" "get t = get v"
    by (rule run_statements_field [OF assms(1-4)])
  then obtain n where n: "apply_integer args name (2 ^ LENGTH('w) - 1) (unat (get s)) = Inr n" "get t = word_of_nat n"
    using assms(5,6) by (auto simp: word_option_def bindE_eq_Inr_iff)
  have "unat (get s) < 2 ^ LENGTH('w)" by simp
  then have "n < 2 ^ LENGTH('w)" using apply_integer_bound [OF n(1)]
    by (metis Suc_pred' le_imp_less_Suc less_Suc_eq_le One_nat_def zero_less_numeral zero_less_power)
  then show ?thesis using n by (simp add: int_field_def unat_word_of_nat_less)
qed

lemma build_server_configE:
  assumes "build_server_config Y args = Inr c"
  obtains base d where "server_base Y args = Inr base" "run_statements (server_statements args) base = Inr d"
    "c = (if has_option args ''json'' then in_common_server (\<lambda>v k. k\<lparr>cc_output_format := v\<rparr>) Json_format d else d)"
  using assms by (auto simp: build_server_config_def server_base_def bindE_eq_Inr_iff split: option.splits)

lemma build_client_configE:
  assumes "build_client_config Y args = Inr c"
  obtains base d where "client_base Y args = Inr base" "run_statements (client_statements args) base = Inr d"
    "c = client_finish args d"
  using assms by (auto simp: build_client_config_def client_base_def bindE_eq_Inr_iff split: option.splits)

lemmas field_rules = keeps_statements in_common_server_def in_common_client_def

text \<open>What the options make of the fields the security of a run rests on.\<close>

lemma server_statements_fields:
  assumes "run_statements (server_statements args) base = Inr c"
  shows "sv_listen_address c = apply_string args ''listen'' (sv_listen_address base)"
    and "int_field args ''port'' (sv_port base) (sv_port c)"
    and "(cc_profile_id \<circ> sv_common) c = apply_string args ''profile'' ((cc_profile_id \<circ> sv_common) base)"
    and "(cc_profiles_file \<circ> sv_common) c = apply_string args ''profiles-file'' ((cc_profiles_file \<circ> sv_common) base)"
    and "(cc_certificate_file \<circ> sv_common) c = apply_string args ''certificate'' ((cc_certificate_file \<circ> sv_common) base)"
    and "(cc_private_key_file \<circ> sv_common) c = apply_string args ''private-key'' ((cc_private_key_file \<circ> sv_common) base)"
    and "(cc_ca_certificate_file \<circ> sv_common) c = apply_string args ''ca-certificate'' ((cc_ca_certificate_file \<circ> sv_common) base)"
    and "(cc_keylog_file \<circ> sv_common) c = apply_string args ''keylog-file'' ((cc_keylog_file \<circ> sv_common) base)"
    and "apply_bool args ''require-client-cert'' (sv_require_client_certificate base) = Inr (sv_require_client_certificate c)"
    and "apply_bool args ''insecure-development-mode'' ((cc_insecure_development_mode \<circ> sv_common) base) = Inr ((cc_insecure_development_mode \<circ> sv_common) c)"
    and "int_field args ''max-connections'' (sv_max_connections base) (sv_max_connections c)"
    and "int_field args ''max-frame-size'' ((cc_max_frame_size \<circ> sv_common) base) ((cc_max_frame_size \<circ> sv_common) c)"
proof -
  show "sv_listen_address c = apply_string args ''listen'' (sv_listen_address base)"
    by (rule string_field [OF assms, of 0 "sv_listen_address"]) (simp_all add: server_statements_def field_rules)+
  show "int_field args ''port'' (sv_port base) (sv_port c)"
    by (rule word_field [OF assms, of 1 "sv_port"]) (simp_all add: server_statements_def field_rules)+
  show "(cc_profile_id \<circ> sv_common) c = apply_string args ''profile'' ((cc_profile_id \<circ> sv_common) base)"
    by (rule string_field [OF assms, of 2 "(cc_profile_id \<circ> sv_common)"]) (simp_all add: server_statements_def field_rules)+
  show "(cc_profiles_file \<circ> sv_common) c = apply_string args ''profiles-file'' ((cc_profiles_file \<circ> sv_common) base)"
    by (rule string_field [OF assms, of 3 "(cc_profiles_file \<circ> sv_common)"]) (simp_all add: server_statements_def field_rules)+
  show "(cc_certificate_file \<circ> sv_common) c = apply_string args ''certificate'' ((cc_certificate_file \<circ> sv_common) base)"
    by (rule string_field [OF assms, of 4 "(cc_certificate_file \<circ> sv_common)"]) (simp_all add: server_statements_def field_rules)+
  show "(cc_private_key_file \<circ> sv_common) c = apply_string args ''private-key'' ((cc_private_key_file \<circ> sv_common) base)"
    by (rule string_field [OF assms, of 5 "(cc_private_key_file \<circ> sv_common)"]) (simp_all add: server_statements_def field_rules)+
  show "(cc_ca_certificate_file \<circ> sv_common) c = apply_string args ''ca-certificate'' ((cc_ca_certificate_file \<circ> sv_common) base)"
    by (rule string_field [OF assms, of 6 "(cc_ca_certificate_file \<circ> sv_common)"]) (simp_all add: server_statements_def field_rules)+
  show "(cc_keylog_file \<circ> sv_common) c = apply_string args ''keylog-file'' ((cc_keylog_file \<circ> sv_common) base)"
    by (rule string_field [OF assms, of 10 "(cc_keylog_file \<circ> sv_common)"]) (simp_all add: server_statements_def field_rules)+
  show "apply_bool args ''require-client-cert'' (sv_require_client_certificate base) = Inr (sv_require_client_certificate c)"
    by (rule bool_field [OF assms, of 11 "sv_require_client_certificate"]) (simp_all add: server_statements_def field_rules)+
  show "apply_bool args ''insecure-development-mode'' ((cc_insecure_development_mode \<circ> sv_common) base) = Inr ((cc_insecure_development_mode \<circ> sv_common) c)"
    by (rule bool_field [OF assms, of 12 "(cc_insecure_development_mode \<circ> sv_common)"]) (simp_all add: server_statements_def field_rules)+
  show "int_field args ''max-connections'' (sv_max_connections base) (sv_max_connections c)"
    by (rule word_field [OF assms, of 13 "sv_max_connections"]) (simp_all add: server_statements_def field_rules)+
  show "int_field args ''max-frame-size'' ((cc_max_frame_size \<circ> sv_common) base) ((cc_max_frame_size \<circ> sv_common) c)"
    by (rule word_field [OF assms, of 15 "(cc_max_frame_size \<circ> sv_common)"]) (simp_all add: server_statements_def field_rules)+
qed

lemma client_statements_fields:
  assumes "run_statements (client_statements args) base = Inr c"
  shows "cl_host c = apply_string args ''host'' (cl_host base)"
    and "int_field args ''port'' (cl_port base) (cl_port c)"
    and "cl_server_name c = apply_string args ''server-name'' (cl_server_name base)"
    and "(cc_profile_id \<circ> cl_common) c = apply_string args ''profile'' ((cc_profile_id \<circ> cl_common) base)"
    and "(cc_profiles_file \<circ> cl_common) c = apply_string args ''profiles-file'' ((cc_profiles_file \<circ> cl_common) base)"
    and "(cc_ca_certificate_file \<circ> cl_common) c = apply_string args ''ca-certificate'' ((cc_ca_certificate_file \<circ> cl_common) base)"
    and "(cc_certificate_file \<circ> cl_common) c = apply_string args ''certificate'' ((cc_certificate_file \<circ> cl_common) base)"
    and "(cc_private_key_file \<circ> cl_common) c = apply_string args ''private-key'' ((cc_private_key_file \<circ> cl_common) base)"
    and "(cc_metrics_file \<circ> cl_common) c = apply_string args ''metrics'' ((cc_metrics_file \<circ> cl_common) base)"
    and "(cc_keylog_file \<circ> cl_common) c = apply_string args ''keylog-file'' ((cc_keylog_file \<circ> cl_common) base)"
    and "apply_bool args ''insecure-development-mode'' ((cc_insecure_development_mode \<circ> cl_common) base) = Inr ((cc_insecure_development_mode \<circ> cl_common) c)"
    and "apply_bool args ''reuse-session'' (cl_reuse_session base) = Inr (cl_reuse_session c)"
    and "int_field args ''connections'' (cl_connections base) (cl_connections c)"
    and "int_field args ''messages-per-connection'' (cl_messages_per_connection base) (cl_messages_per_connection c)"
proof -
  show "cl_host c = apply_string args ''host'' (cl_host base)"
    by (rule string_field [OF assms, of 0 "cl_host"]) (simp_all add: client_statements_def field_rules)+
  show "int_field args ''port'' (cl_port base) (cl_port c)"
    by (rule word_field [OF assms, of 1 "cl_port"]) (simp_all add: client_statements_def field_rules)+
  show "cl_server_name c = apply_string args ''server-name'' (cl_server_name base)"
    by (rule string_field [OF assms, of 2 "cl_server_name"]) (simp_all add: client_statements_def field_rules)+
  show "(cc_profile_id \<circ> cl_common) c = apply_string args ''profile'' ((cc_profile_id \<circ> cl_common) base)"
    by (rule string_field [OF assms, of 3 "(cc_profile_id \<circ> cl_common)"]) (simp_all add: client_statements_def field_rules)+
  show "(cc_profiles_file \<circ> cl_common) c = apply_string args ''profiles-file'' ((cc_profiles_file \<circ> cl_common) base)"
    by (rule string_field [OF assms, of 4 "(cc_profiles_file \<circ> cl_common)"]) (simp_all add: client_statements_def field_rules)+
  show "(cc_ca_certificate_file \<circ> cl_common) c = apply_string args ''ca-certificate'' ((cc_ca_certificate_file \<circ> cl_common) base)"
    by (rule string_field [OF assms, of 5 "(cc_ca_certificate_file \<circ> cl_common)"]) (simp_all add: client_statements_def field_rules)+
  show "(cc_certificate_file \<circ> cl_common) c = apply_string args ''certificate'' ((cc_certificate_file \<circ> cl_common) base)"
    by (rule string_field [OF assms, of 6 "(cc_certificate_file \<circ> cl_common)"]) (simp_all add: client_statements_def field_rules)+
  show "(cc_private_key_file \<circ> cl_common) c = apply_string args ''private-key'' ((cc_private_key_file \<circ> cl_common) base)"
    by (rule string_field [OF assms, of 7 "(cc_private_key_file \<circ> cl_common)"]) (simp_all add: client_statements_def field_rules)+
  show "(cc_metrics_file \<circ> cl_common) c = apply_string args ''metrics'' ((cc_metrics_file \<circ> cl_common) base)"
    by (rule string_field [OF assms, of 10 "(cc_metrics_file \<circ> cl_common)"]) (simp_all add: client_statements_def field_rules)+
  show "(cc_keylog_file \<circ> cl_common) c = apply_string args ''keylog-file'' ((cc_keylog_file \<circ> cl_common) base)"
    by (rule string_field [OF assms, of 13 "(cc_keylog_file \<circ> cl_common)"]) (simp_all add: client_statements_def field_rules)+
  show "apply_bool args ''insecure-development-mode'' ((cc_insecure_development_mode \<circ> cl_common) base) = Inr ((cc_insecure_development_mode \<circ> cl_common) c)"
    by (rule bool_field [OF assms, of 15 "(cc_insecure_development_mode \<circ> cl_common)"]) (simp_all add: client_statements_def field_rules)+
  show "apply_bool args ''reuse-session'' (cl_reuse_session base) = Inr (cl_reuse_session c)"
    by (rule bool_field [OF assms, of 16 "cl_reuse_session"]) (simp_all add: client_statements_def field_rules)+
  show "int_field args ''connections'' (cl_connections base) (cl_connections c)"
    by (rule word_field [OF assms, of 20 "cl_connections"]) (simp_all add: client_statements_def field_rules)+
  show "int_field args ''messages-per-connection'' (cl_messages_per_connection base) (cl_messages_per_connection c)"
    by (rule word_field [OF assms, of 23 "cl_messages_per_connection"]) (simp_all add: client_statements_def field_rules)+
qed

lemmas finish_defs = client_finish_def in_common_client_def Let_def

lemma client_finish_fields [simp]:
  "cl_host (client_finish args d) = cl_host d" "cl_port (client_finish args d) = cl_port d"
  "cl_server_name (client_finish args d) = cl_server_name d" "cl_reuse_session (client_finish args d) = cl_reuse_session d"
  "cl_connections (client_finish args d) = cl_connections d"
  "cl_messages_per_connection (client_finish args d) = cl_messages_per_connection d"
  "cc_profile_id (cl_common (client_finish args d)) = cc_profile_id (cl_common d)"
  "cc_profiles_file (cl_common (client_finish args d)) = cc_profiles_file (cl_common d)"
  "cc_ca_certificate_file (cl_common (client_finish args d)) = cc_ca_certificate_file (cl_common d)"
  "cc_certificate_file (cl_common (client_finish args d)) = cc_certificate_file (cl_common d)"
  "cc_private_key_file (cl_common (client_finish args d)) = cc_private_key_file (cl_common d)"
  "cc_keylog_file (cl_common (client_finish args d)) = cc_keylog_file (cl_common d)"
  "cc_insecure_development_mode (cl_common (client_finish args d)) = cc_insecure_development_mode (cl_common d)"
  by (simp_all add: finish_defs)

text \<open>Building the configuration succeeds when every integer and boolean option is well formed.\<close>

lemma total_statements:
  "\<exists>t. string_option args name get upd s = Inr t"
  "option_value args name = None \<or> option_value args name = Some ''true'' \<Longrightarrow> \<exists>t. bool_option args name getb updb s = Inr t"
  "case option_value args name of None \<Rightarrow> True
   | Some v \<Rightarrow> v \<noteq> [] \<and> list_all is_digit v \<and> digits_value v < 2 ^ LENGTH('w) \<and> digits_value v < 2 ^ 64 \<Longrightarrow>
     \<exists>t. word_option args name (getw :: 'c \<Rightarrow> 'w::len word) updw s = Inr t"
proof -
  show "\<exists>t. word_option args name (getw :: 'c \<Rightarrow> 'w::len word) updw s = Inr t"
    if "case option_value args name of None \<Rightarrow> True
      | Some v \<Rightarrow> v \<noteq> [] \<and> list_all is_digit v \<and> digits_value v < 2 ^ LENGTH('w) \<and> digits_value v < 2 ^ 64"
  proof (cases "option_value args name")
    case None
    then show ?thesis by (simp add: word_option_def apply_integer_def)
  next
    case (Some v)
    then have "from_chars v = Some (digits_value v, [])" using that by (simp add: from_chars_all)
    moreover have "\<not> 2 ^ LENGTH('w) - 1 < digits_value v" using Some that by auto
    ultimately show ?thesis using Some by (simp add: word_option_def apply_integer_def)
  qed
qed (auto simp: string_option_def bool_option_def apply_bool_def)

lemma run_statements_total:
  assumes "list_all (\<lambda>f. \<forall>s. \<exists>t. f s = Inr t) fs"
  shows "\<exists>t. run_statements fs s = Inr t"
  using assms
proof (induction fs arbitrary: s)
  case (Cons f fs)
  then obtain u where "f s = Inr u" by auto
  with Cons show ?case by (simp add: run_statements_Cons)
qed simp

lemma build_server_config_total:
  "server_base Y args = Inr base \<Longrightarrow> \<exists>d. run_statements (server_statements args) base = Inr d \<Longrightarrow>
     \<exists>c. build_server_config Y args = Inr c"
  by (cases "option_value args ''config''"; cases "has_option args ''json''")
    (auto simp: build_server_config_def server_base_def bindE_eq_Inr_iff)

lemma build_client_config_total:
  "client_base Y args = Inr base \<Longrightarrow> \<exists>d. run_statements (client_statements args) base = Inr d \<Longrightarrow>
     \<exists>c. build_client_config Y args = Inr c"
  by (cases "option_value args ''config''") (auto simp: build_client_config_def client_base_def bindE_eq_Inr_iff)


definition serve_arguments :: Arguments where
  "serve_arguments = \<lparr>a_command = ''serve'', a_options = [(''config'', ''c''), (''port'', ''9000'')], a_positional = []\<rparr>"

lemma serve_arguments_base:
  "server_base (yaml_reference ''c'' sample_config) serve_arguments =
     Inr (ServerConfig_default\<lparr>sv_common := CommonConfig_default\<lparr>cc_profile_id := ''classical-p256''\<rparr>\<rparr>)"
  by code_simp

lemma serve_arguments_runs: "\<exists>c. run_statements (server_statements serve_arguments) base = Inr c"
  by (rule run_statements_total)
     (simp add: server_statements_def total_statements serve_arguments_def option_value_def is_digit_def byte_of_char_def digits_value_def)

lemma serve_option_values: "option_value serve_arguments ''profile'' = None" "option_value serve_arguments ''listen'' = None"
  by (simp_all add: serve_arguments_def option_value_def)


text \<open>
  The same precedence for the client: destination, verified server name, profile and profile file,
  trust anchors, certificate and key, key log, insecure mode, session reuse and the amount of work come
  from the option when it was given and otherwise from the file or the default; and the benchmark's
  output file becomes the metrics destination only when none was named.
\<close>

theorem client_precedence:
  assumes "build_client_config Y args = Inr c"
  shows "\<exists>base. client_base Y args = Inr base \<and>
    cl_host c = apply_string args ''host'' (cl_host base) \<and>
    int_field args ''port'' (cl_port base) (cl_port c) \<and>
    cl_server_name c = apply_string args ''server-name'' (cl_server_name base) \<and>
    cc_profile_id (cl_common c) = apply_string args ''profile'' (cc_profile_id (cl_common base)) \<and>
    cc_profiles_file (cl_common c) = apply_string args ''profiles-file'' (cc_profiles_file (cl_common base)) \<and>
    cc_ca_certificate_file (cl_common c) = apply_string args ''ca-certificate'' (cc_ca_certificate_file (cl_common base)) \<and>
    cc_certificate_file (cl_common c) = apply_string args ''certificate'' (cc_certificate_file (cl_common base)) \<and>
    cc_private_key_file (cl_common c) = apply_string args ''private-key'' (cc_private_key_file (cl_common base)) \<and>
    cc_keylog_file (cl_common c) = apply_string args ''keylog-file'' (cc_keylog_file (cl_common base)) \<and>
    apply_bool args ''insecure-development-mode'' (cc_insecure_development_mode (cl_common base)) =
      Inr (cc_insecure_development_mode (cl_common c)) \<and>
    apply_bool args ''reuse-session'' (cl_reuse_session base) = Inr (cl_reuse_session c) \<and>
    int_field args ''connections'' (cl_connections base) (cl_connections c) \<and>
    int_field args ''messages-per-connection'' (cl_messages_per_connection base) (cl_messages_per_connection c) \<and>
    (let metrics = apply_string args ''metrics'' (cc_metrics_file (cl_common base)) in
     cc_metrics_file (cl_common c) = (if metrics = '''' then cl_benchmark_output c else metrics))"
proof -
  obtain base d where base: "client_base Y args = Inr base" and run: "run_statements (client_statements args) base = Inr d"
    and c: "c = client_finish args d"
    using assms by (rule build_client_configE)
  have "cc_metrics_file (cl_common c) = (if cc_metrics_file (cl_common d) = '''' then cl_benchmark_output c else cc_metrics_file (cl_common d))"
    by (simp add: c finish_defs)
  then show ?thesis using base client_statements_fields [OF run] by (simp add: c)
qed

definition connect_arguments :: Arguments where
  "connect_arguments = \<lparr>a_command = ''benchmark'', a_options = [(''config'', ''c''), (''output'', ''o.jsonl'')], a_positional = []\<rparr>"

lemma connect_arguments_base:
  "client_base (yaml_reference ''c'' sample_config) connect_arguments =
     Inr (ClientConfig_default\<lparr>cl_common := CommonConfig_default\<lparr>cc_profile_id := ''classical-p256''\<rparr>\<rparr>)"
  by code_simp

lemma connect_arguments_runs: "\<exists>c. run_statements (client_statements connect_arguments) base = Inr c"
  by (rule run_statements_total)
     (simp add: client_statements_def total_statements connect_arguments_def option_value_def)

lemma connect_option_values: "option_value connect_arguments ''profile'' = None" "option_value connect_arguments ''host'' = None"
  by (simp_all add: connect_arguments_def option_value_def)

theorem client_precedence_witness:
  "\<exists>c. build_client_config (yaml_reference ''c'' sample_config) connect_arguments = Inr c \<and>
     cc_profile_id (cl_common c) = ''classical-p256'' \<and> cl_host c = ''localhost''"
proof -
  obtain c where c: "build_client_config (yaml_reference ''c'' sample_config) connect_arguments = Inr c"
    using connect_arguments_runs build_client_config_total [OF connect_arguments_base] by blast
  then show ?thesis using client_precedence [OF c]
    by (auto simp: connect_arguments_base apply_string_def connect_option_values ClientConfig_default_def)
qed

end
