(* ===== verification/Capabilities.thy ===== *)
theory Capabilities
  imports TlsContext Json "HOL-Library.Code_Target_Nat"
begin

text \<open>
  The capability probe: \<open>include/pqtls/capabilities.hpp\<close> and \<open>src/common/capabilities.cpp\<close>.
  What the running OpenSSL can do is found out by calls whose replies are in the trace; the evaluation
  of the profiles against the result is a pure function.  \<open>OPENSSL_VERSION_TEXT\<close>, a macro of the build, is an
  argument.
\<close>

definition kCandidateGroups :: "string list" where
  "kCandidateGroups = [''X25519'', ''secp256r1'', ''secp384r1'', ''secp521r1'', ''X448'', ''ffdhe2048'', ''ffdhe3072'',
     ''MLKEM512'', ''MLKEM768'', ''MLKEM1024'', ''X25519MLKEM768'', ''SecP256r1MLKEM768'', ''SecP384r1MLKEM1024'']"

definition kCandidateSignatureAlgorithms :: "string list" where
  "kCandidateSignatureAlgorithms = [''ecdsa_secp256r1_sha256'', ''ecdsa_secp384r1_sha384'', ''ecdsa_secp521r1_sha512'',
     ''ed25519'', ''rsa_pss_rsae_sha256'', ''rsa_pkcs1_sha256'', ''mldsa65'', ''mldsa87'']"

definition kCandidateCipherSuites :: "string list" where
  "kCandidateCipherSuites = [''TLS_AES_256_GCM_SHA384'', ''TLS_CHACHA20_POLY1305_SHA256'', ''TLS_AES_128_GCM_SHA256'']"

record ProfileAvailability =
  pa_profile_id :: string
  pa_usable :: bool
  pa_experimental :: bool
  pa_missing_groups :: "string list"
  pa_missing_cipher_suites :: "string list"
  pa_blocking_reason :: string

record Capabilities =
  caps_compile_time_version :: string
  caps_runtime_version :: string
  caps_runtime_version_number :: string
  caps_providers :: "string list"
  caps_tls13_available :: bool
  caps_tls_groups :: "string list"
  caps_signature_algorithms :: "string list"
  caps_cipher_suites :: "string list"
  caps_mlkem_available :: bool
  caps_mldsa_available :: bool
  caps_profiles :: "ProfileAvailability list"

fun join_text :: "string list \<Rightarrow> string \<Rightarrow> string" where
  "join_text [] separator = ''''"
| "join_text [v] separator = v"
| "join_text (v # w # vs) separator = v @ separator @ join_text (w # vs) separator"

section \<open>Probing\<close>

text \<open>A probe: the call's result decides; a failure leaves entries in the error queue that are drained.\<close>

definition probe :: "'e env_scheme \<Rightarrow> call \<Rightarrow> bool io" where
  "probe E c = bindIO (ext_int E c) (\<lambda>r.
     if r = 1 then returnIO True else bindIO (drain_openssl_errors E) (\<lambda>_. returnIO False))"

definition probe_signature_algorithm :: "'e env_scheme \<Rightarrow> string \<Rightarrow> bool io" where
  "probe_signature_algorithm E name = probe E (Ctx (SSL_CTX_set1_sigalgs_list name))"

definition probe_cipher_suite :: "'e env_scheme \<Rightarrow> string \<Rightarrow> bool io" where
  "probe_cipher_suite E name = probe E (Ctx (SSL_CTX_set_ciphersuites name))"

definition probe_group :: "'e env_scheme \<Rightarrow> string \<Rightarrow> bool io" where
  "probe_group E name = probe E (Ctx (SSL_CTX_set1_groups_list name))"

text \<open>\<open>for (name : candidates) if (probe(name)) found.emplace_back(name)\<close>.\<close>

fun probe_all :: "(string \<Rightarrow> bool io) \<Rightarrow> string list \<Rightarrow> string list io" where
  "probe_all p [] = returnIO []"
| "probe_all p (n # ns) = bindIO (p n) (\<lambda>ok. bindIO (probe_all p ns) (\<lambda>found. returnIO (if ok then n # found else found)))"

definition openssl_supports_group :: "'e env_scheme \<Rightarrow> string \<Rightarrow> bool io" where
  "openssl_supports_group E gname =
     bindIO (initialize_openssl E) (\<lambda>_.
     bindIO (ext_int E (Ctx (SSL_CTX_new Client))) (\<lambda>ctx.
     if ctx = 0 then bindIO (drain_openssl_errors E) (\<lambda>_. returnIO False)
     else probe E (Ctx (SSL_CTX_set1_groups_list (c_str gname)))))"

definition openssl_supports_algorithm :: "'e env_scheme \<Rightarrow> string \<Rightarrow> bool io" where
  "openssl_supports_algorithm E algorithm =
     bindIO (initialize_openssl E) (\<lambda>_.
     bindIO (ext_int E (Sys (EVP_PKEY_CTX_new_from_name (c_str algorithm)))) (\<lambda>raw.
     if raw = 0 then bindIO (drain_openssl_errors E) (\<lambda>_. returnIO False)
     else
       bindIO (ext_int E (Sys EVP_PKEY_keygen_init)) (\<lambda>r.
       bindIO (call_IO E (Sys EVP_PKEY_CTX_free)) (\<lambda>_.
       if r = 1 then returnIO True else bindIO (drain_openssl_errors E) (\<lambda>_. returnIO False)))))"

section \<open>Evaluating profiles\<close>

text \<open>The file's own \<open>iequals\<close>, written out here too; it agrees with the one of \<open>security_profile.cpp\<close>.\<close>

fun capabilities_iequals_loop :: "string \<Rightarrow> string \<Rightarrow> bool" where
  "capabilities_iequals_loop (x # a) (y # b) =
     (let lhs = byte_of_char x; rhs = byte_of_char y;
          l = (if lhs \<ge> 65 \<and> lhs \<le> 90 then lhs + 32 else lhs);
          r = (if rhs \<ge> 65 \<and> rhs \<le> 90 then rhs + 32 else rhs)
      in if l \<noteq> r then False else capabilities_iequals_loop a b)"
| "capabilities_iequals_loop _ _ = True"

definition capabilities_iequals :: "string \<Rightarrow> string \<Rightarrow> bool" where
  "capabilities_iequals a b = (if length a \<noteq> length b then False else capabilities_iequals_loop a b)"

definition has_group :: "Capabilities \<Rightarrow> string \<Rightarrow> bool" where
  "has_group caps gname = list_ex (\<lambda>known. capabilities_iequals known gname) (caps_tls_groups caps)"

definition has_cipher_suite :: "Capabilities \<Rightarrow> string \<Rightarrow> bool" where
  "has_cipher_suite caps suite = list_ex (\<lambda>known. known = suite) (caps_cipher_suites caps)"

definition profile_availability :: "Capabilities \<Rightarrow> string \<Rightarrow> ProfileAvailability option" where
  "profile_availability caps pid = find (\<lambda>p. pa_profile_id p = pid) (caps_profiles caps)"

definition blocking_text :: "Capabilities \<Rightarrow> SecurityProfile \<Rightarrow> string list \<Rightarrow> string list \<Rightarrow> string" where
  "blocking_text caps profile missing_groups missing_suites =
     (if \<not> caps_tls13_available caps then ''TLS 1.3 is not available in this OpenSSL build. '' else '''') @
     (if missing_groups \<noteq> [] then ''missing TLS groups: '' @ join_text missing_groups '', '' @ ''. '' else '''') @
     (if missing_suites \<noteq> [] then ''missing cipher suites: '' @ join_text missing_suites '', '' @ ''. '' else '''') @
     (if d_authentication (def_of profile) = MlDsa65 \<and> \<not> caps_mldsa_available caps
      then ''ML-DSA-65 is not available, so this profile'' @ [CHR 0x27] @
        ''s post-quantum authentication cannot be used. '' else '''')"

definition evaluate_profile :: "Capabilities \<Rightarrow> SecurityProfile \<Rightarrow> ProfileAvailability" where
  "evaluate_profile caps profile =
     (let missing_groups = filter (\<lambda>gname. \<not> has_group caps gname) (profile_groups profile);
          missing_suites = filter (\<lambda>suite. \<not> has_cipher_suite caps suite) (d_cipher_suites (def_of profile));
          reason = blocking_text caps profile missing_groups missing_suites;
          blocking = (if reason \<noteq> '''' \<and> last reason = CHR '' '' then butlast reason else reason)
      in \<lparr>pa_profile_id = profile_id profile, pa_usable = (blocking = ''''),
          pa_experimental = d_experimental (def_of profile), pa_missing_groups = missing_groups,
          pa_missing_cipher_suites = missing_suites, pa_blocking_reason = blocking\<rparr>)"

section \<open>Detection\<close>

definition hex_digit :: "nat \<Rightarrow> char" where
  "hex_digit n = ''0123456789abcdef'' ! n"

fun hex_nat :: "nat \<Rightarrow> string" where
  "hex_nat n = (if n < 16 then [hex_digit n] else hex_nat (n div 16) @ [hex_digit (n mod 16)])"

declare hex_nat.simps [simp del]

text \<open>The version, then the probes on a throw-away context.\<close>

definition detect_tls13 :: "'e env_scheme \<Rightarrow> bool io" where
  "detect_tls13 E =
     bindIO (ext_int E (Ctx (SSL_CTX_set_min_proto_version kTls13Version))) (\<lambda>r.
     bindIO (if r = 1 then bindIO (ext_int E (Ctx (SSL_CTX_set_max_proto_version kTls13Version))) (\<lambda>q. returnIO (q = 1))
             else returnIO False) (\<lambda>available.
     if available then returnIO True else bindIO (drain_openssl_errors E) (\<lambda>_. returnIO False)))"

definition detect :: "'e env_scheme \<Rightarrow> string \<Rightarrow> ProfileRegistry \<Rightarrow> Capabilities io" where
  "detect E openssl_version_text registry =
     bindIO (initialize_openssl E) (\<lambda>_.
     bindIO (ext_str E (Sys OpenSSL_version)) (\<lambda>runtime.
     bindIO (ext_int E (Sys OpenSSL_version_num)) (\<lambda>number.
     bindIO (loaded_providers E) (\<lambda>providers.
     bindIO (ext_int E (Ctx (SSL_CTX_new Client))) (\<lambda>probe_ctx.
     if probe_ctx = 0
     then throw_openssl_error E Internal ''could not create a probe SSL_CTX for capability detection''
     else
     bindIO (detect_tls13 E) (\<lambda>tls13.
     bindIO (probe_all (probe_group E) kCandidateGroups) (\<lambda>tls_groups.
     bindIO (probe_all (probe_signature_algorithm E) kCandidateSignatureAlgorithms) (\<lambda>sigalgs.
     bindIO (probe_all (probe_cipher_suite E) kCandidateCipherSuites) (\<lambda>suites.
     bindIO (openssl_supports_algorithm E ''ML-KEM-768'') (\<lambda>mlkem.
     bindIO (openssl_supports_algorithm E ''ML-DSA-65'') (\<lambda>mldsa.
     let caps = \<lparr>caps_compile_time_version = openssl_version_text, caps_runtime_version = text_or_empty runtime,
           caps_runtime_version_number = ''0x'' @ hex_nat (nat number), caps_providers = providers,
           caps_tls13_available = tls13, caps_tls_groups = tls_groups, caps_signature_algorithms = sigalgs,
           caps_cipher_suites = suites, caps_mlkem_available = mlkem, caps_mldsa_available = mldsa, caps_profiles = []\<rparr>
     in returnIO (caps\<lparr>caps_profiles := map (evaluate_profile caps) registry\<rparr>))))))))))))"

section \<open>Reports\<close>

definition j_strings :: "('j, 'z) json_api_scheme \<Rightarrow> string list \<Rightarrow> 'j" where
  "j_strings J xs = j_of_array J (map (j_of_string J) xs)"

text \<open>\<open>doc[k] = v\<close> along a path of keys; a missing intermediate value starts as null.\<close>

fun j_set_path :: "('j, 'z) json_api_scheme \<Rightarrow> string list \<Rightarrow> 'j \<Rightarrow> 'j \<Rightarrow> 'j" where
  "j_set_path J [] v doc = v"
| "j_set_path J (k # ks) v doc =
     j_set J doc k (j_set_path J ks v (case j_find J doc k of Some d \<Rightarrow> d | None \<Rightarrow> j_null J))"

definition availability_to_json :: "('j, 'z) json_api_scheme \<Rightarrow> ProfileAvailability \<Rightarrow> 'j" where
  "availability_to_json J a =
     fold (\<lambda>(k, v) doc. j_set J doc k v)
       [(''id'', j_of_string J (pa_profile_id a)), (''usable'', j_of_bool J (pa_usable a)),
        (''experimental'', j_of_bool J (pa_experimental a)), (''missing_groups'', j_strings J (pa_missing_groups a)),
        (''missing_cipher_suites'', j_strings J (pa_missing_cipher_suites a)),
        (''blocking_reason'', if pa_blocking_reason a = '''' then j_null J else j_of_string J (pa_blocking_reason a))]
       (j_null J)"

definition capabilities_to_json :: "('j, 'z) json_api_scheme \<Rightarrow> Capabilities \<Rightarrow> 'j" where
  "capabilities_to_json J c =
     fold (\<lambda>(path, v) doc. j_set_path J path v doc)
       [([''openssl'', ''compile_time_version''], j_of_string J (caps_compile_time_version c)),
        ([''openssl'', ''runtime_version''], j_of_string J (caps_runtime_version c)),
        ([''openssl'', ''runtime_version_number''], j_of_string J (caps_runtime_version_number c)),
        ([''openssl'', ''providers''], j_strings J (caps_providers c)),
        ([''tls13_available''], j_of_bool J (caps_tls13_available c)),
        ([''tls_groups''], j_strings J (caps_tls_groups c)),
        ([''signature_algorithms''], j_strings J (caps_signature_algorithms c)),
        ([''cipher_suites''], j_strings J (caps_cipher_suites c)),
        ([''post_quantum'', ''key_establishment'', ''mlkem_available''], j_of_bool J (caps_mlkem_available c)),
        ([''post_quantum'', ''authentication'', ''mldsa_available''], j_of_bool J (caps_mldsa_available c)),
        ([''profiles''], j_of_array J (map (availability_to_json J) (caps_profiles c)))]
       (j_null J)"

definition newline :: string where
  "newline = [CHR 0x0A]"

definition list_or_none :: "string list \<Rightarrow> string" where
  "list_or_none xs = (if xs = [] then ''<none>'' else join_text xs '', '')"

definition profile_lines :: "ProfileAvailability \<Rightarrow> string" where
  "profile_lines a =
     ''  '' @ (if pa_usable a then ''[usable]     '' else ''[unavailable]'') @ '' '' @ pa_profile_id a @
     (if pa_experimental a then ''  (EXPERIMENTAL)'' else '''') @ newline @
     (if pa_blocking_reason a \<noteq> '''' then ''      reason: '' @ pa_blocking_reason a @ newline else '''')"

definition to_human_readable :: "Capabilities \<Rightarrow> string" where
  "to_human_readable c =
     ''OpenSSL'' @ newline @
     ''  compile-time : '' @ caps_compile_time_version c @ newline @
     ''  runtime      : '' @ caps_runtime_version c @ '' ('' @ caps_runtime_version_number c @ '')'' @ newline @
     ''  providers    : '' @ list_or_none (caps_providers c) @ newline @ newline @
     ''TLS'' @ newline @
     ''  TLS 1.3      : '' @ (if caps_tls13_available c then ''available'' else ''NOT AVAILABLE'') @ newline @
     ''  groups       : '' @ list_or_none (caps_tls_groups c) @ newline @
     ''  signatures   : '' @ list_or_none (caps_signature_algorithms c) @ newline @
     ''  cipher suites: '' @ list_or_none (caps_cipher_suites c) @ newline @ newline @
     ''Post-quantum primitives'' @ newline @
     ''  ML-KEM  (key establishment) : '' @ (if caps_mlkem_available c then ''available'' else ''not available'') @ newline @
     ''  ML-DSA  (authentication)    : '' @ (if caps_mldsa_available c then ''available'' else ''not available'') @ newline @
     ''  note: post-quantum key establishment and post-quantum authentication are'' @ newline @
     ''        independent properties. A hybrid key exchange with an ECDSA certificate'' @ newline @
     ''        is not post-quantum authentication.'' @ newline @ newline @
     ''Profiles'' @ newline @ concat (map profile_lines (caps_profiles c))"

section \<open>What detection finds\<close>

text \<open>\<open>probed f ns es\<close>: the names whose probe call \<open>f\<close> succeeded in \<open>es\<close>.\<close>

definition probed :: "(string \<Rightarrow> call) \<Rightarrow> string list \<Rightarrow> trace \<Rightarrow> string set" where
  "probed f ns es = {n \<in> set ns. Ev (f n) (RInt 1) \<in> set es}"

lemmas io_defs = bindIO_def returnIO_def ext_int_def ext_strs_def drain_openssl_errors_def

lemma probe_events:
  assumes "probe E c tr = (r, tr')"
  shows "\<exists>b es. r = Inr b \<and> tr' = tr @ es \<and> (b \<longleftrightarrow> Ev c (RInt 1) \<in> set es) \<and>
    (\<forall>e \<in> set es. ev_call e = c \<or> ev_call e = Sys ERR_queue)"
proof (cases "e_int E tr c = 1")
  case True
  then show ?thesis using assms
    by (intro exI [of _ True] exI [of _ "[Ev c (RInt 1)]"]) (simp add: probe_def io_defs)
next
  case False
  then show ?thesis using assms
    by (intro exI [of _ False] exI [of _ "[Ev c (RInt (e_int E tr c)), Ev (Sys ERR_queue)
        (RStrs (e_strs E (tr @ [Ev c (RInt (e_int E tr c))]) (Sys ERR_queue)))]"]) (simp add: probe_def io_defs)
qed

lemma probe_all_exact:
  assumes "probe_all (\<lambda>n. probe E (f n)) ns tr = (r, tr')"
    and "inj f" and "distinct ns" and "\<And>n. f n \<noteq> Sys ERR_queue"
  obtains found es where "r = Inr found" "tr' = tr @ es" "set found = probed f ns es"
    "\<forall>e \<in> set es. ev_call e \<in> insert (Sys ERR_queue) (f ` set ns)"
  using assms(1,3)
proof (induction ns arbitrary: tr r tr' thesis)
  case Nil
  then show ?case by (auto simp: returnIO_def probed_def)
next
  case (Cons n ns)
  obtain q tr1 where p: "probe E (f n) tr = (q, tr1)" by (cases "probe E (f n) tr")
  then obtain b es where b: "q = Inr b" "tr1 = tr @ es" "b \<longleftrightarrow> Ev (f n) (RInt 1) \<in> set es"
      "\<forall>e \<in> set es. ev_call e = f n \<or> ev_call e = Sys ERR_queue" using probe_events by blast
  obtain s tr2 where a: "probe_all (\<lambda>n. probe E (f n)) ns tr1 = (s, tr2)"
    by (cases "probe_all (\<lambda>n. probe E (f n)) ns tr1")
  then obtain found fs where f: "s = Inr found" "tr2 = tr1 @ fs" "set found = probed f ns fs"
      "\<forall>e \<in> set fs. ev_call e \<in> insert (Sys ERR_queue) (f ` set ns)"
    using Cons.IH [OF _ a] Cons.prems(3) by auto
  have r: "r = Inr (if b then n # found else found)" "tr' = tr @ es @ fs"
    using Cons.prems(2) p a b(1,2) f(1,2) by (auto simp: bindIO_def returnIO_def)
  have "Ev (f n) (RInt 1) \<notin> set fs"
    using f(4) Cons.prems(3) assms(2,4) by (metis (no_types, lifting) distinct.simps(2) event.sel(1) imageE injD insertE)
  moreover have "Ev (f m) (RInt 1) \<notin> set es" if "m \<in> set ns" for m
    using b(4) that Cons.prems(3) assms(2,4) by (metis distinct.simps(2) event.sel(1) injD)
  ultimately have "set (if b then n # found else found) = probed f (n # ns) (es @ fs)"
    using b(3) f(3) by (auto simp: probed_def)
  then show ?case using Cons.prems(1) [OF r] b(4) f(4) by auto
qed

lemma probe_all_found:
  assumes "probe_all (\<lambda>n. probe E (f n)) ns tr = (Inr found, tr')"
    and "inj f" and "distinct ns" and "\<And>n. f n \<noteq> Sys ERR_queue"
  shows "\<exists>es. tr' = tr @ es \<and> set found = probed f ns es \<and>
    (\<forall>e \<in> set es. policy_call (ev_call e) \<longrightarrow> ev_call e \<in> range f)"
proof -
  obtain fd es where "Inr found = (Inr fd :: string list result)" "tr' = tr @ es" "set fd = probed f ns es"
      "\<forall>e \<in> set es. ev_call e \<in> insert (Sys ERR_queue) (f ` set ns)"
    using assms by (rule probe_all_exact)
  then show ?thesis by (intro exI [of _ es]) auto
qed

lemma detect_tls13_exact:
  assumes "detect_tls13 E tr = (r, tr')"
  shows "\<exists>b es. r = Inr b \<and> tr' = tr @ es \<and>
    (b \<longleftrightarrow> Ev (Ctx (SSL_CTX_set_min_proto_version kTls13Version)) (RInt 1) \<in> set es \<and>
       Ev (Ctx (SSL_CTX_set_max_proto_version kTls13Version)) (RInt 1) \<in> set es) \<and>
    (\<forall>e \<in> set es. ev_call e \<in> {Sys ERR_queue, Ctx (SSL_CTX_set_min_proto_version kTls13Version),
       Ctx (SSL_CTX_set_max_proto_version kTls13Version)})"
proof -
  let ?m = "Ctx (SSL_CTX_set_min_proto_version kTls13Version)"
  let ?M = "Ctx (SSL_CTX_set_max_proto_version kTls13Version)"
  define i where "i = e_int E tr ?m"
  define j where "j = e_int E (tr @ [Ev ?m (RInt 1)]) ?M"
  define q where "q tr = RStrs (e_strs E tr (Sys ERR_queue))" for tr
  consider "i = 1" "j = 1" "(r, tr') = (Inr True, tr @ [Ev ?m (RInt 1), Ev ?M (RInt 1)])"
    | "i = 1" "j \<noteq> 1" "(r, tr') = (Inr False, tr @ [Ev ?m (RInt 1), Ev ?M (RInt j),
         Ev (Sys ERR_queue) (q (tr @ [Ev ?m (RInt 1), Ev ?M (RInt j)]))])"
    | "i \<noteq> 1" "(r, tr') = (Inr False, tr @ [Ev ?m (RInt i), Ev (Sys ERR_queue) (q (tr @ [Ev ?m (RInt i)]))])"
    using assms by (cases "i = 1"; cases "j = 1") (simp_all add: detect_tls13_def io_defs i_def j_def q_def)
  then show ?thesis
  proof cases
    case 1
    then show ?thesis by (intro exI [of _ True] exI) auto
  next
    case 2
    then show ?thesis by (intro exI [of _ False] exI) auto
  next
    case 3
    then show ?thesis by (intro exI [of _ False] exI) auto
  qed
qed

text \<open>The calls around the probes set no group, suite or version.\<close>

lemma unrelated_calls:
  "only_calls (\<lambda>c. \<not> policy_call c) (openssl_supports_algorithm E a)"
  "only_calls (\<lambda>c. \<not> policy_call c) (loaded_providers E)"
  unfolding openssl_supports_algorithm_def loaded_providers_def
  by (intro calls_intros quiet_initialize; simp)+

lemma blocking_text_empty:
  "blocking_text caps p mg ms = '''' \<longleftrightarrow> caps_tls13_available caps \<and> mg = [] \<and> ms = [] \<and>
     (d_authentication (def_of p) = MlDsa65 \<longrightarrow> caps_mldsa_available caps)"
  by (simp add: blocking_text_def)

lemma blocking_text_long: "length (blocking_text caps p mg ms) \<noteq> 1"
  by (simp add: blocking_text_def)

text \<open>A profile's needs, as the probe reports them met.\<close>

definition provides :: "Capabilities \<Rightarrow> SecurityProfile \<Rightarrow> bool" where
  "provides caps p \<longleftrightarrow> caps_tls13_available caps \<and> list_all (has_group caps) (profile_groups p) \<and>
     list_all (has_cipher_suite caps) (d_cipher_suites (def_of p)) \<and>
     (d_authentication (def_of p) = MlDsa65 \<longrightarrow> caps_mldsa_available caps)"

lemma evaluate_profile_exact:
  "pa_profile_id (evaluate_profile caps p) = profile_id p \<and>
   (pa_usable (evaluate_profile caps p) \<longleftrightarrow> provides caps p) \<and>
   (pa_usable (evaluate_profile caps p) \<longleftrightarrow> pa_blocking_reason (evaluate_profile caps p) = '''')"
proof -
  let ?mg = "filter (\<lambda>g. \<not> has_group caps g) (profile_groups p)"
  let ?ms = "filter (\<lambda>s. \<not> has_cipher_suite caps s) (d_cipher_suites (def_of p))"
  let ?r = "blocking_text caps p ?mg ?ms"
  have "butlast ?r \<noteq> ''''" if "?r \<noteq> ''''"
    using that blocking_text_long [of caps p ?mg ?ms] by (cases ?r) auto
  then have "pa_usable (evaluate_profile caps p) \<longleftrightarrow> ?r = ''''"
    by (auto simp: evaluate_profile_def Let_def)
  also have "\<dots> \<longleftrightarrow> provides caps p"
    unfolding blocking_text_empty provides_def by (auto simp: filter_empty_conv list_all_iff)
  finally show ?thesis by (simp add: evaluate_profile_def Let_def)
qed

lemma capabilities_iequals_eq: "capabilities_iequals a b = iequals a b"
proof -
  have "capabilities_iequals_loop a b = iequals_loop a b"
    by (induction a b rule: iequals_loop.induct) (simp_all add: lower_byte_def Let_def)
  then show ?thesis by (simp add: capabilities_iequals_def iequals_def)
qed

lemma not_called: "\<forall>e \<in> set es. Q (ev_call e) \<Longrightarrow> \<not> Q c \<Longrightarrow> Ev c x \<notin> set es"
  by force

lemma probed_cong: "(\<And>n. Ev (f n) (RInt 1) \<in> set es \<longleftrightarrow> Ev (f n) (RInt 1) \<in> set fs) \<Longrightarrow> probed f ns es = probed f ns fs"
  by (simp add: probed_def)

lemma provides_profiles [simp]: "provides (caps\<lparr>caps_profiles := ps\<rparr>) p = provides caps p"
  by (simp add: provides_def has_group_def [abs_def] has_cipher_suite_def [abs_def])

lemma detect_probes:
  assumes "detect E vt reg tr = (Inr caps, tr')"
  obtains pre vers grps sigs suites post where
    "tr' = tr @ pre @ vers @ grps @ sigs @ suites @ post"
    "\<forall>e \<in> set pre. \<not> policy_call (ev_call e)" "\<forall>e \<in> set post. \<not> policy_call (ev_call e)"
    "\<forall>e \<in> set vers. ev_call e \<in> {Sys ERR_queue, Ctx (SSL_CTX_set_min_proto_version kTls13Version),
       Ctx (SSL_CTX_set_max_proto_version kTls13Version)}"
    "\<forall>e \<in> set grps. policy_call (ev_call e) \<longrightarrow> ev_call e \<in> range (\<lambda>n. Ctx (SSL_CTX_set1_groups_list n))"
    "\<forall>e \<in> set sigs. \<not> policy_call (ev_call e)"
    "\<forall>e \<in> set suites. policy_call (ev_call e) \<longrightarrow> ev_call e \<in> range (\<lambda>n. Ctx (SSL_CTX_set_ciphersuites n))"
    "caps_tls13_available caps \<longleftrightarrow> Ev (Ctx (SSL_CTX_set_min_proto_version kTls13Version)) (RInt 1) \<in> set vers \<and>
       Ev (Ctx (SSL_CTX_set_max_proto_version kTls13Version)) (RInt 1) \<in> set vers"
    "set (caps_tls_groups caps) = probed (\<lambda>n. Ctx (SSL_CTX_set1_groups_list n)) kCandidateGroups grps"
    "set (caps_cipher_suites caps) = probed (\<lambda>n. Ctx (SSL_CTX_set_ciphersuites n)) kCandidateCipherSuites suites"
    "\<exists>c0. caps = c0\<lparr>caps_profiles := map (evaluate_profile c0) reg\<rparr>"
proof -
  have inj: "inj (\<lambda>n. Ctx (SSL_CTX_set1_groups_list n))" "inj (\<lambda>n. Ctx (SSL_CTX_set_ciphersuites n))"
    "inj (\<lambda>n. Ctx (SSL_CTX_set1_sigalgs_list n))" by (auto intro: injI)
  have dist: "distinct kCandidateGroups" "distinct kCandidateCipherSuites" "distinct kCandidateSignatureAlgorithms"
    by (simp_all add: kCandidateGroups_def kCandidateCipherSuites_def kCandidateSignatureAlgorithms_def)
  let ?start = "bindIO (initialize_openssl E) (\<lambda>_. bindIO (ext_str E (Sys OpenSSL_version)) (\<lambda>runtime.
     bindIO (ext_int E (Sys OpenSSL_version_num)) (\<lambda>number. bindIO (loaded_providers E) (\<lambda>providers.
     bindIO (ext_int E (Ctx (SSL_CTX_new Client))) (\<lambda>ctx. returnIO (runtime, number, providers, ctx))))))"
  have start: "only_calls (\<lambda>c. \<not> policy_call c) ?start"
    by (intro calls_intros quiet_initialize unrelated_calls; simp)
  from assms obtain runtime number providers ctx tr0 tls13 tr1 gs tr2 sg tr3 st tr4 mlkem tr5 mldsa where
    s0: "?start tr = (Inr (runtime, number, providers, ctx), tr0)" and
    s1: "detect_tls13 E tr0 = (Inr tls13, tr1)" and
    s2: "probe_all (probe_group E) kCandidateGroups tr1 = (Inr gs, tr2)" and
    s3: "probe_all (probe_signature_algorithm E) kCandidateSignatureAlgorithms tr2 = (Inr sg, tr3)" and
    s4: "probe_all (probe_cipher_suite E) kCandidateCipherSuites tr3 = (Inr st, tr4)" and
    s5: "openssl_supports_algorithm E ''ML-KEM-768'' tr4 = (Inr mlkem, tr5)" and
    s6: "openssl_supports_algorithm E ''ML-DSA-65'' tr5 = (Inr mldsa, tr')" and
    caps: "caps = (let caps = \<lparr>caps_compile_time_version = vt, caps_runtime_version = text_or_empty runtime,
           caps_runtime_version_number = ''0x'' @ hex_nat (nat number), caps_providers = providers,
           caps_tls13_available = tls13, caps_tls_groups = gs, caps_signature_algorithms = sg,
           caps_cipher_suites = st, caps_mlkem_available = mlkem, caps_mldsa_available = mldsa, caps_profiles = []\<rparr>
         in caps\<lparr>caps_profiles := map (evaluate_profile caps) reg\<rparr>)"
    unfolding detect_def
    by (elim bindIO_InrE) (auto simp: bindIO_eq_Inr io_simps if_io_eq Let_def split: if_splits elim!: bindIO_InrE)
  obtain pre where pre: "tr0 = tr @ pre" "\<forall>e \<in> set pre. \<not> policy_call (ev_call e)"
    using start s0 by (rule only_callsD)
  obtain vers where vers: "tr1 = tr0 @ vers"
      "tls13 \<longleftrightarrow> Ev (Ctx (SSL_CTX_set_min_proto_version kTls13Version)) (RInt 1) \<in> set vers \<and>
       Ev (Ctx (SSL_CTX_set_max_proto_version kTls13Version)) (RInt 1) \<in> set vers"
      "\<forall>e \<in> set vers. ev_call e \<in> {Sys ERR_queue, Ctx (SSL_CTX_set_min_proto_version kTls13Version),
       Ctx (SSL_CTX_set_max_proto_version kTls13Version)}"
    using detect_tls13_exact [OF s1] by auto
  obtain grps where grps: "tr2 = tr1 @ grps" "set gs = probed (\<lambda>n. Ctx (SSL_CTX_set1_groups_list n)) kCandidateGroups grps"
      "\<forall>e \<in> set grps. policy_call (ev_call e) \<longrightarrow> ev_call e \<in> range (\<lambda>n. Ctx (SSL_CTX_set1_groups_list n))"
    using probe_all_found [OF s2 [unfolded probe_group_def [abs_def]] inj(1) dist(1)] by blast
  obtain sigs where sigs: "tr3 = tr2 @ sigs"
      "\<forall>e \<in> set sigs. policy_call (ev_call e) \<longrightarrow> ev_call e \<in> range (\<lambda>n. Ctx (SSL_CTX_set1_sigalgs_list n))"
    using probe_all_found [OF s3 [unfolded probe_signature_algorithm_def [abs_def]] inj(3) dist(3)] by blast
  obtain suites where suites: "tr4 = tr3 @ suites"
      "set st = probed (\<lambda>n. Ctx (SSL_CTX_set_ciphersuites n)) kCandidateCipherSuites suites"
      "\<forall>e \<in> set suites. policy_call (ev_call e) \<longrightarrow> ev_call e \<in> range (\<lambda>n. Ctx (SSL_CTX_set_ciphersuites n))"
    using probe_all_found [OF s4 [unfolded probe_cipher_suite_def [abs_def]] inj(2) dist(2)] by blast
  obtain p1 where p1: "tr5 = tr4 @ p1" "\<forall>e \<in> set p1. \<not> policy_call (ev_call e)"
    using unrelated_calls(1) s5 by (rule only_callsD)
  obtain p2 where p2: "tr' = tr5 @ p2" "\<forall>e \<in> set p2. \<not> policy_call (ev_call e)"
    using unrelated_calls(1) s6 by (rule only_callsD)
  have quiet_sigs: "\<forall>e \<in> set sigs. \<not> policy_call (ev_call e)" using sigs(2) by force
  have "tr' = tr @ pre @ vers @ grps @ sigs @ suites @ p1 @ p2"
    by (simp add: pre(1) vers(1) grps(1) sigs(1) suites(1) p1(1) p2(1))
  moreover have "\<forall>e \<in> set (p1 @ p2). \<not> policy_call (ev_call e)" using p1(2) p2(2) by auto
  moreover have "caps_tls13_available caps = tls13" "caps_tls_groups caps = gs" "caps_cipher_suites caps = st"
    by (simp_all add: caps Let_def)
  moreover have "\<exists>c0. caps = c0\<lparr>caps_profiles := map (evaluate_profile c0) reg\<rparr>"
    unfolding caps Let_def by (rule exI) (rule refl)
  ultimately show thesis
    by (intro that [of pre vers grps sigs suites "p1 @ p2"] pre(2) vers(3) grps(3) quiet_sigs suites(3))
      (simp_all only: vers(2) grps(2) suites(2))
qed

lemma detection_facts:
  assumes "detect E vt reg tr = (Inr caps, tr')"
  shows "\<exists>es. tr' = tr @ es \<and>
    (caps_tls13_available caps \<longleftrightarrow> Ev (Ctx (SSL_CTX_set_min_proto_version kTls13Version)) (RInt 1) \<in> set es \<and>
       Ev (Ctx (SSL_CTX_set_max_proto_version kTls13Version)) (RInt 1) \<in> set es) \<and>
    set (caps_tls_groups caps) = probed (\<lambda>n. Ctx (SSL_CTX_set1_groups_list n)) kCandidateGroups es \<and>
    set (caps_cipher_suites caps) = probed (\<lambda>n. Ctx (SSL_CTX_set_ciphersuites n)) kCandidateCipherSuites es \<and>
    list_all2 (\<lambda>p a. pa_profile_id a = profile_id p \<and> (pa_usable a \<longleftrightarrow> provides caps p)) reg (caps_profiles caps)"
proof -
  obtain pre vers grps sigs suites post where tr': "tr' = tr @ pre @ vers @ grps @ sigs @ suites @ post"
    and q: "\<forall>e \<in> set pre. \<not> policy_call (ev_call e)" "\<forall>e \<in> set post. \<not> policy_call (ev_call e)"
      "\<forall>e \<in> set sigs. \<not> policy_call (ev_call e)"
    and v: "\<forall>e \<in> set vers. ev_call e \<in> {Sys ERR_queue, Ctx (SSL_CTX_set_min_proto_version kTls13Version),
       Ctx (SSL_CTX_set_max_proto_version kTls13Version)}"
    and g: "\<forall>e \<in> set grps. policy_call (ev_call e) \<longrightarrow> ev_call e \<in> range (\<lambda>n. Ctx (SSL_CTX_set1_groups_list n))"
    and s: "\<forall>e \<in> set suites. policy_call (ev_call e) \<longrightarrow> ev_call e \<in> range (\<lambda>n. Ctx (SSL_CTX_set_ciphersuites n))"
    and t: "caps_tls13_available caps \<longleftrightarrow> Ev (Ctx (SSL_CTX_set_min_proto_version kTls13Version)) (RInt 1) \<in> set vers \<and>
       Ev (Ctx (SSL_CTX_set_max_proto_version kTls13Version)) (RInt 1) \<in> set vers"
    and gs: "set (caps_tls_groups caps) = probed (\<lambda>n. Ctx (SSL_CTX_set1_groups_list n)) kCandidateGroups grps"
    and ss: "set (caps_cipher_suites caps) = probed (\<lambda>n. Ctx (SSL_CTX_set_ciphersuites n)) kCandidateCipherSuites suites"
    and c0: "\<exists>c0. caps = c0\<lparr>caps_profiles := map (evaluate_profile c0) reg\<rparr>"
    using assms by (rule detect_probes)
  let ?es = "pre @ vers @ grps @ sigs @ suites @ post"
  have quiet: "Ev c x \<notin> set pre" "Ev c x \<notin> set sigs" "Ev c x \<notin> set post" if "policy_call c" for c x
    using q that by force+
  have groups_only: "Ev c x \<notin> set grps" if "policy_call c" "\<And>n. c \<noteq> Ctx (SSL_CTX_set1_groups_list n)" for c x
    using g that by force
  have suites_only: "Ev c x \<notin> set suites" if "policy_call c" "\<And>n. c \<noteq> Ctx (SSL_CTX_set_ciphersuites n)" for c x
    using s that by force
  have versions_only: "Ev (Ctx (SSL_CTX_set1_groups_list n)) x \<notin> set vers" "Ev (Ctx (SSL_CTX_set_ciphersuites n)) x \<notin> set vers" for n x
    using v by force+
  note none = quiet groups_only suites_only versions_only
  have "probed (\<lambda>n. Ctx (SSL_CTX_set1_groups_list n)) kCandidateGroups ?es =
      probed (\<lambda>n. Ctx (SSL_CTX_set1_groups_list n)) kCandidateGroups grps"
    by (rule probed_cong) (simp add: none)
  moreover have "probed (\<lambda>n. Ctx (SSL_CTX_set_ciphersuites n)) kCandidateCipherSuites ?es =
      probed (\<lambda>n. Ctx (SSL_CTX_set_ciphersuites n)) kCandidateCipherSuites suites"
    by (rule probed_cong) (simp add: none)
  moreover have "Ev (Ctx (SSL_CTX_set_min_proto_version kTls13Version)) (RInt 1) \<in> set ?es \<longleftrightarrow>
      Ev (Ctx (SSL_CTX_set_min_proto_version kTls13Version)) (RInt 1) \<in> set vers" by (simp add: none)
  moreover have "Ev (Ctx (SSL_CTX_set_max_proto_version kTls13Version)) (RInt 1) \<in> set ?es \<longleftrightarrow>
      Ev (Ctx (SSL_CTX_set_max_proto_version kTls13Version)) (RInt 1) \<in> set vers" by (simp add: none)
  moreover have "list_all2 (\<lambda>p a. pa_profile_id a = profile_id p \<and> (pa_usable a \<longleftrightarrow> provides caps p)) reg (caps_profiles caps)"
    using c0 evaluate_profile_exact by (auto simp: list_all2_conv_all_nth)
  ultimately show ?thesis using tr' t gs ss by blast
qed


lemma succeeded: "\<not> isl (fst x) \<Longrightarrow> \<exists>y es. x = (Inr y, es)"
  by (cases x; cases "fst x") simp_all

lemma good_detect: "\<not> isl (fst (detect good_env ''OpenSSL'' [hybrid_profile] []))"
  by code_simp

lemma good_detection:
  obtains caps es where "detect good_env ''OpenSSL'' [hybrid_profile] [] = (Inr caps, es)"
  using succeeded [OF good_detect] by blast


text \<open>
  The verdict rests on a fixed list of thirteen group names: a profile that names any other group
  is reported unusable, whatever OpenSSL supports.
\<close>

theorem unprobed_group_unusable:
  assumes "detect E vt reg tr = (Inr caps, tr')" and "p \<in> set reg" and "g \<in> set (profile_groups p)"
    and "\<not> list_ex (\<lambda>known. iequals known g) kCandidateGroups"
  shows "\<exists>a \<in> set (caps_profiles caps). pa_profile_id a = profile_id p \<and> \<not> pa_usable a"
proof -
  obtain es where es: "set (caps_tls_groups caps) = probed (\<lambda>n. Ctx (SSL_CTX_set1_groups_list n)) kCandidateGroups es"
    and l: "list_all2 (\<lambda>p a. pa_profile_id a = profile_id p \<and> (pa_usable a \<longleftrightarrow> provides caps p)) reg (caps_profiles caps)"
    using detection_facts [OF assms(1)] by blast
  have "\<not> has_group caps g" using assms(4) es by (auto simp: has_group_def capabilities_iequals_eq list_ex_iff probed_def)
  then have "\<not> provides caps p" using assms(3) by (auto simp: provides_def list_all_iff)
  moreover obtain i where "i < length reg" "p = reg ! i" using assms(2) by (metis in_set_conv_nth)
  ultimately show ?thesis using l by (auto simp: list_all2_conv_all_nth intro!: bexI [of _ "caps_profiles caps ! i"])
qed

definition brainpool_profile :: SecurityProfile where
  "brainpool_profile = mk_SecurityProfile (with_defaults (hybrid_definition\<lparr>d_groups := [''brainpoolP256r1tls13'']\<rparr>))"

theorem unprobed_group_unusable_witness:
  "\<exists>caps es. detect good_env ''OpenSSL'' [brainpool_profile] [] = (Inr caps, es) \<and>
     (\<exists>a \<in> set (caps_profiles caps). pa_profile_id a = profile_id brainpool_profile \<and> \<not> pa_usable a)"
proof -
  have ok: "\<not> isl (fst (detect good_env ''OpenSSL'' [brainpool_profile] [])) \<and>
      ''brainpoolP256r1tls13'' \<in> set (profile_groups brainpool_profile) \<and>
      \<not> list_ex (\<lambda>known. iequals known ''brainpoolP256r1tls13'') kCandidateGroups" by code_simp
  then obtain caps es where d: "detect good_env ''OpenSSL'' [brainpool_profile] [] = (Inr caps, es)"
    using succeeded by blast
  show ?thesis using d unprobed_group_unusable [OF d, of brainpool_profile "''brainpoolP256r1tls13''"] ok by auto
qed

end
