(* ===== verification/Benchmark.thy ===== *)
theory Benchmark
  imports Metrics "HOL-Library.Code_Target_Nat"
begin

text \<open>
  The benchmark of \<open>src/client/client.cpp\<close>: \<open>BenchmarkSummary\<close> and
  \<open>run_benchmark\<close>.  Worker threads claim connections from two atomic counters and add their
  results to a shared summary.  A worker is at one of the control points below; \<open>bench_step\<close> is
  one atomic action of one thread: a load, a compare-and-exchange, an exchange, the return of a call
  on the thread's own client, or the critical section under \<open>summary_mutex\<close>.  What a call on the
  client returns or throws is left open.  The counters of completed and lost runs are ghost state.
\<close>

record BenchmarkSummary =
  bs_profile_id :: string
  bs_requested_connections :: u32
  bs_successful :: u32
  bs_failed :: u32
  bs_handshake_ns :: "int list"
  bs_connection_ns :: "int list"
  bs_failure_categories :: "string list"

definition summary_fields :: "('j, 'z) json_api_scheme \<Rightarrow> BenchmarkSummary \<Rightarrow> (string \<times> 'j) list" where
  "summary_fields J s =
     [(''profile'', j_of_string J (bs_profile_id s)),
      (''requested_connections'', j_of_int J (uint (bs_requested_connections s))),
      (''successful'', j_of_int J (uint (bs_successful s))),
      (''failed'', j_of_int J (uint (bs_failed s))),
      (''success_rate'', if bs_requested_connections s = 0 then j_of_ratio J 0 1
         else j_of_ratio J (unat (bs_successful s)) (unat (bs_requested_connections s))),
      (''handshake_ms_samples'', j_of_int J (int (length (bs_handshake_ns s)))),
      (''connection_ms_samples'', j_of_int J (int (length (bs_connection_ns s)))),
      (''failure_categories'', j_of_array J (map (j_of_string J) (bs_failure_categories s))),
      (''note'', j_of_string J ''Raw per-connection records are in the metrics file. Use scripts/analyze-results.py for summary statistics.'')]"

definition summary_to_json :: "('j, 'z) json_api_scheme \<Rightarrow> BenchmarkSummary \<Rightarrow> 'j" where
  "summary_to_json J s = fold (\<lambda>(k, v) doc. j_set J doc k v) (summary_fields J s) (j_null J)"

section \<open>Threads\<close>

text \<open>
  \<open>Warm_cas c\<close> and \<open>Cas c\<close>: inside \<open>claim\<close> with \<open>current = c\<close>.  \<open>Recording ok m\<close>:
  \<open>run_once\<close> returned, the summary is not yet updated.  \<open>Abandon n w\<close>: the client could not be
  set up for reason \<open>w\<close> and \<open>n\<close> connections were taken out.  \<open>Ended e\<close>: the thread is over,
  because there was nothing left to claim, because its client could not be set up, or because an
  exception left the worker.
\<close>

datatype ending = Finished | Setup_error | Crashed

datatype bench_pc = Setup | Setup_failed string | Abandon u32 string | Request
  | Warm_load | Warm_cas u32 | Warm_run | Load | Cas u32 | Run | Recording bool ConnectionMetrics | Ended ending

record bench =
  b_remaining :: u32
  b_warmup :: u32
  b_summary :: BenchmarkSummary
  b_threads :: "bench_pc list"
  b_runs :: nat
  b_lost :: nat
  b_abandoned :: nat
  b_warm_runs :: nat
  b_warm_lost :: nat

definition bench_init :: "string \<Rightarrow> u32 \<Rightarrow> u32 \<Rightarrow> u32 \<Rightarrow> bench" where
  "bench_init profile connections concurrency warmup =
     \<lparr>b_remaining = connections, b_warmup = warmup,
      b_summary = \<lparr>bs_profile_id = profile, bs_requested_connections = connections, bs_successful = 0, bs_failed = 0,
        bs_handshake_ns = [], bs_connection_ns = [], bs_failure_categories = []\<rparr>,
      b_threads = replicate (unat (min concurrency connections)) Setup,
      b_runs = 0, b_lost = 0, b_abandoned = 0, b_warm_runs = 0, b_warm_lost = 0\<rparr>"

definition goto :: "nat \<Rightarrow> bench_pc \<Rightarrow> bench \<Rightarrow> bench" where
  "goto i pc s = s\<lparr>b_threads := (b_threads s)[i := pc]\<rparr>"

definition at :: "bench \<Rightarrow> nat \<Rightarrow> bench_pc \<Rightarrow> bool" where
  "at s i pc \<longleftrightarrow> i < length (b_threads s) \<and> b_threads s ! i = pc"

definition record_result :: "bool \<Rightarrow> ConnectionMetrics \<Rightarrow> BenchmarkSummary \<Rightarrow> BenchmarkSummary" where
  "record_result ok m s =
     (if ok then s\<lparr>bs_successful := bs_successful s + 1, bs_handshake_ns := bs_handshake_ns s @ [cm_handshake_ns m],
        bs_connection_ns := bs_connection_ns s @ [cm_connection_ns m]\<rparr>
      else s\<lparr>bs_failed := bs_failed s + 1,
        bs_failure_categories := bs_failure_categories s @ [to_string_ErrorCategory (cm_error_category m)]\<rparr>)"

definition record_abandoned :: "u32 \<Rightarrow> string \<Rightarrow> BenchmarkSummary \<Rightarrow> BenchmarkSummary" where
  "record_abandoned n w s = s\<lparr>bs_failed := bs_failed s + n,
     bs_failure_categories := bs_failure_categories s @ [''client-setup: '' @ w]\<rparr>"

inductive bench_step :: "bench \<Rightarrow> bench \<Rightarrow> bool" where
  setup_ok: "at s i Setup \<Longrightarrow> bench_step s (goto i Request s)"
| setup_fails: "at s i Setup \<Longrightarrow> bench_step s (goto i (Setup_failed w) s)"
| abandon: "at s i (Setup_failed w) \<Longrightarrow> bench_step s (goto i (Abandon (b_remaining s) w) (s\<lparr>b_remaining := 0\<rparr>))"
| abandoned: "at s i (Abandon n w) \<Longrightarrow>
    bench_step s (goto i (Ended Setup_error) (s\<lparr>b_summary := record_abandoned n w (b_summary s),
      b_abandoned := b_abandoned s + unat n\<rparr>))"
| request_ok: "at s i Request \<Longrightarrow> bench_step s (goto i Warm_load s)"
| request_throws: "at s i Request \<Longrightarrow> bench_step s (goto i (Ended Crashed) s)"
| warm_load: "at s i Warm_load \<Longrightarrow> bench_step s (goto i (Warm_cas (b_warmup s)) s)"
| warm_empty: "at s i (Warm_cas 0) \<Longrightarrow> bench_step s (goto i Load s)"
| warm_claim: "at s i (Warm_cas c) \<Longrightarrow> 0 < c \<Longrightarrow> b_warmup s = c \<Longrightarrow>
    bench_step s (goto i Warm_run (s\<lparr>b_warmup := c - 1\<rparr>))"
| warm_retry: "at s i (Warm_cas c) \<Longrightarrow> 0 < c \<Longrightarrow> bench_step s (goto i (Warm_cas (b_warmup s)) s)"
| warm_run: "at s i Warm_run \<Longrightarrow> bench_step s (goto i Warm_load (s\<lparr>b_warm_runs := b_warm_runs s + 1\<rparr>))"
| warm_throws: "at s i Warm_run \<Longrightarrow> bench_step s (goto i (Ended Crashed) (s\<lparr>b_warm_lost := b_warm_lost s + 1\<rparr>))"
| load: "at s i Load \<Longrightarrow> bench_step s (goto i (Cas (b_remaining s)) s)"
| empty: "at s i (Cas 0) \<Longrightarrow> bench_step s (goto i (Ended Finished) s)"
| claim: "at s i (Cas c) \<Longrightarrow> 0 < c \<Longrightarrow> b_remaining s = c \<Longrightarrow>
    bench_step s (goto i Run (s\<lparr>b_remaining := c - 1\<rparr>))"
| retry: "at s i (Cas c) \<Longrightarrow> 0 < c \<Longrightarrow> bench_step s (goto i (Cas (b_remaining s)) s)"
| run: "at s i Run \<Longrightarrow> bench_step s (goto i (Recording ok m) (s\<lparr>b_runs := b_runs s + 1\<rparr>))"
| throws: "at s i Run \<Longrightarrow> bench_step s (goto i (Ended Crashed) (s\<lparr>b_lost := b_lost s + 1\<rparr>))"
| recorded: "at s i (Recording ok m) \<Longrightarrow>
    bench_step s (goto i Load (s\<lparr>b_summary := record_result ok m (b_summary s)\<rparr>))"

definition bench_reachable :: "bench \<Rightarrow> bench \<Rightarrow> bool" where
  "bench_reachable s0 s \<longleftrightarrow> bench_step\<^sup>*\<^sup>* s0 s"

text \<open>\<open>run_benchmark\<close> returns the summary once every thread has been joined.\<close>

fun is_ended :: "bench_pc \<Rightarrow> bool" where
  "is_ended (Ended e) = True"
| "is_ended _ = False"

definition joined :: "bench \<Rightarrow> bool" where
  "joined s \<longleftrightarrow> list_all is_ended (b_threads s)"

section \<open>Accounting\<close>

fun held :: "bench_pc \<Rightarrow> nat" where
  "held Run = 1"
| "held (Recording ok m) = 1"
| "held (Abandon n w) = unat n"
| "held _ = 0"

fun warming :: "bench_pc \<Rightarrow> nat" where
  "warming Warm_run = 1"
| "warming _ = 0"

fun recording :: "bench_pc \<Rightarrow> nat" where
  "recording (Recording ok m) = 1"
| "recording _ = 0"

definition thread_sum :: "(bench_pc \<Rightarrow> nat) \<Rightarrow> bench_pc list \<Rightarrow> nat" where
  "thread_sum f ts = sum_list (map f ts)"

lemma sum_list_update:
  "i < length xs \<Longrightarrow> sum_list (map f (xs[i := x])) + f (xs ! i) = sum_list (map f xs) + (f x :: nat)"
proof (induction xs arbitrary: i)
  case (Cons y ys)
  then show ?case by (cases i) auto
qed simp

lemma thread_sum_goto:
  "at s i pc \<Longrightarrow> thread_sum f ((b_threads s)[i := pc']) + f pc = thread_sum f (b_threads s) + f pc'"
  using sum_list_update [of i "b_threads s" f pc'] by (simp add: thread_sum_def at_def)

lemma thread_sum_le: "at s i pc \<Longrightarrow> f pc \<le> thread_sum f (b_threads s)"
  unfolding thread_sum_def at_def by (metis elem_le_sum_list length_map nth_map)

lemma thread_sum_upd:
  "at s i pc \<Longrightarrow> thread_sum f ((b_threads s)[i := pc']) = thread_sum f (b_threads s) - f pc + f pc'"
  using thread_sum_goto [of s i pc f pc'] thread_sum_le [of s i pc f] by linarith

lemma goto_simps [simp]:
  "b_remaining (goto i pc s) = b_remaining s" "b_warmup (goto i pc s) = b_warmup s"
  "b_summary (goto i pc s) = b_summary s" "b_runs (goto i pc s) = b_runs s" "b_lost (goto i pc s) = b_lost s"
  "b_abandoned (goto i pc s) = b_abandoned s" "b_warm_runs (goto i pc s) = b_warm_runs s" "b_warm_lost (goto i pc s) = b_warm_lost s"
  "b_threads (goto i pc s) = (b_threads s)[i := pc]"
  by (simp_all add: goto_def)

fun crashed :: "bench_pc \<Rightarrow> nat" where
  "crashed (Ended Crashed) = 1"
| "crashed _ = 0"

text \<open>
  Every requested connection is in exactly one place: still to be claimed, in the hands of a thread,
  counted as a success or a failure, or lost to an exception.  Likewise every warm-up, and every
  completed measurement.
\<close>

definition connections_accounted :: "bench \<Rightarrow> bool" where
  "connections_accounted s \<longleftrightarrow>
     unat (bs_successful (b_summary s)) + unat (bs_failed (b_summary s)) + thread_sum held (b_threads s) + b_lost s + unat (b_remaining s) =
       unat (bs_requested_connections (b_summary s))"

definition warm_accounted :: "nat \<Rightarrow> bench \<Rightarrow> bool" where
  "warm_accounted w s \<longleftrightarrow> b_warm_runs s + thread_sum warming (b_threads s) + b_warm_lost s + unat (b_warmup s) = w"

definition runs_accounted :: "bench \<Rightarrow> bool" where
  "runs_accounted s \<longleftrightarrow>
     b_runs s + b_abandoned s = unat (bs_successful (b_summary s)) + unat (bs_failed (b_summary s)) + thread_sum recording (b_threads s) \<and>
     length (bs_handshake_ns (b_summary s)) = unat (bs_successful (b_summary s)) \<and>
     b_lost s + b_warm_lost s \<le> thread_sum crashed (b_threads s)"

text \<open>Once a thread found a pool empty, or emptied it, it stays empty.\<close>

fun saw_empty :: "u32 \<Rightarrow> u32 \<Rightarrow> bench_pc \<Rightarrow> bool" where
  "saw_empty r w (Ended Finished) = (r = 0 \<and> w = 0)"
| "saw_empty r w (Ended Setup_error) = (r = 0)"
| "saw_empty r w (Abandon n x) = (r = 0)"
| "saw_empty r w (Cas c) = ((c = 0 \<longrightarrow> r = 0) \<and> w = 0)"
| "saw_empty r w Load = (w = 0)"
| "saw_empty r w Run = (w = 0)"
| "saw_empty r w (Recording ok m) = (w = 0)"
| "saw_empty r w (Warm_cas c) = (c = 0 \<longrightarrow> w = 0)"
| "saw_empty r w pc = True"

definition drained :: "bench \<Rightarrow> bool" where
  "drained s \<longleftrightarrow> list_all (saw_empty (b_remaining s) (b_warmup s)) (b_threads s) \<and>
     (b_abandoned s = 0 \<or> Ended Setup_error \<in> set (b_threads s))"

lemma unat_plus:
  fixes a b c :: u32
  assumes "unat a + unat b \<le> unat c"
  shows "unat (a + b) = unat a + unat b"
proof -
  have "unat c < 2 ^ 32" using unsigned_less [of c, where 'a = nat] by simp
  then show ?thesis using assms by (simp add: unat_word_ariths)
qed

lemma unat_pred: "0 < c \<Longrightarrow> unat (c - 1 :: u32) = unat c - 1"
  by (simp add: unat_minus_one word_gt_0)

lemma record_simps [simp]:
  "bs_successful (record_result ok m s) = (if ok then bs_successful s + 1 else bs_successful s)"
  "bs_failed (record_result ok m s) = (if ok then bs_failed s else bs_failed s + 1)"
  "length (bs_handshake_ns (record_result ok m s)) = length (bs_handshake_ns s) + (if ok then 1 else 0)"
  "bs_requested_connections (record_result ok m s) = bs_requested_connections s"
  "bs_successful (record_abandoned n w s) = bs_successful s" "bs_failed (record_abandoned n w s) = bs_failed s + n"
  "bs_handshake_ns (record_abandoned n w s) = bs_handshake_ns s"
  "bs_requested_connections (record_abandoned n w s) = bs_requested_connections s"
  by (simp_all add: record_result_def record_abandoned_def)

text \<open>Counting a connection that a thread holds does not wrap.\<close>

lemma counting_exact:
  assumes "connections_accounted s" and "at s i pc" and "unat n \<le> held pc"
  shows "unat (bs_successful (b_summary s) + n) = unat (bs_successful (b_summary s)) + unat n"
    and "unat (bs_failed (b_summary s) + n) = unat (bs_failed (b_summary s)) + unat n"
proof -
  have "unat n \<le> thread_sum held (b_threads s)" using thread_sum_le [OF assms(2), of held] assms(3) by simp
  then show "unat (bs_successful (b_summary s) + n) = unat (bs_successful (b_summary s)) + unat n"
    "unat (bs_failed (b_summary s) + n) = unat (bs_failed (b_summary s)) + unat n"
    using assms(1) by (auto intro!: unat_plus [of _ _ "bs_requested_connections (b_summary s)"] simp: connections_accounted_def)
qed

lemma connections_step:
  assumes "bench_step s s'" and acc: "connections_accounted s"
  shows "connections_accounted s'"
  using assms(1)
proof (cases rule: bench_step.cases)
  case (recorded i ok m)
  show ?thesis using acc counting_exact [OF acc recorded(2), of 1] thread_sum_goto [OF recorded(2), of held Load]
    unfolding recorded(1) connections_accounted_def by simp
next
  case (abandoned i n w)
  show ?thesis using acc counting_exact [OF acc abandoned(2), of n] thread_sum_goto [OF abandoned(2), of held "Ended Setup_error"]
    unfolding abandoned(1) connections_accounted_def by simp
qed (use acc in \<open>auto simp: connections_accounted_def unat_pred word_less_nat_alt thread_sum_upd dest: thread_sum_le [where f = held]\<close>)

lemma warm_accounted_step: "bench_step s s' \<Longrightarrow> warm_accounted w s \<Longrightarrow> warm_accounted w s'"
  by (erule bench_step.cases)
    (auto simp: warm_accounted_def unat_pred word_less_nat_alt thread_sum_upd dest: thread_sum_le [where f = warming])

lemma runs_accounted_step:
  assumes "bench_step s s'" and acc: "connections_accounted s" and runs: "runs_accounted s"
  shows "runs_accounted s'"
  using assms(1)
proof (cases rule: bench_step.cases)
  case (recorded i ok m)
  show ?thesis using runs counting_exact [OF acc recorded(2), of 1] thread_sum_goto [OF recorded(2), of recording Load]
    thread_sum_goto [OF recorded(2), of crashed Load]
    unfolding recorded(1) runs_accounted_def by simp
next
  case (abandoned i n w)
  show ?thesis using runs counting_exact [OF acc abandoned(2), of n]
    thread_sum_goto [OF abandoned(2), of recording "Ended Setup_error"] thread_sum_goto [OF abandoned(2), of crashed "Ended Setup_error"]
    unfolding abandoned(1) runs_accounted_def by simp
qed (use runs in \<open>auto simp: runs_accounted_def thread_sum_upd dest: thread_sum_le [where f = recording] thread_sum_le [where f = crashed]\<close>)

lemma saw_empty_mono: "saw_empty r w pc \<Longrightarrow> r' \<le> r \<Longrightarrow> w' \<le> w \<Longrightarrow> saw_empty r' w' pc"
  by (cases "(r, w, pc)" rule: saw_empty.cases) auto

lemma drained_goto:
  assumes "drained s" and "at s i pc" and "saw_empty (b_remaining u) (b_warmup u) pc'"
    and "b_threads u = b_threads s" and "b_remaining u \<le> b_remaining s" and "b_warmup u \<le> b_warmup s"
    and "pc \<noteq> Ended Setup_error" and "b_abandoned u = b_abandoned s \<or> pc' = Ended Setup_error"
  shows "drained (goto i pc' u)"
proof -
  have i: "i < length (b_threads s)" "b_threads s ! i = pc" using assms(2) by (simp_all add: at_def)
  have "list_all (saw_empty (b_remaining u) (b_warmup u)) (b_threads s)"
    using assms(1,5,6) saw_empty_mono unfolding drained_def list_all_iff by blast
  then have "list_all (saw_empty (b_remaining u) (b_warmup u)) ((b_threads s)[i := pc'])"
    using assms(3) set_update_subset_insert [of "b_threads s" i pc'] unfolding list_all_iff by blast
  moreover have "Ended Setup_error \<in> set ((b_threads s)[i := pc'])" if mem: "Ended Setup_error \<in> set (b_threads s)"
  proof -
    obtain j where j: "j < length (b_threads s)" "b_threads s ! j = Ended Setup_error" using mem by (auto simp: in_set_conv_nth)
    then have "j \<noteq> i" using i(2) assms(7) by auto
    then show ?thesis using j by (auto simp: in_set_conv_nth intro!: exI [of _ j])
  qed
  moreover have "pc' \<in> set ((b_threads s)[i := pc'])" using i(1) by (simp add: set_update_memI)
  ultimately show ?thesis using assms(1,4,8) unfolding drained_def by auto
qed

lemma drained_at: "drained s \<Longrightarrow> at s i pc \<Longrightarrow> saw_empty (b_remaining s) (b_warmup s) pc"
  unfolding drained_def at_def list_all_iff by (metis nth_mem)

lemma pred_le: "0 < c \<Longrightarrow> c - 1 \<le> (c :: u32)"
  by (simp add: word_le_nat_alt unat_pred)

lemma drained_step: "bench_step s s' \<Longrightarrow> drained s \<Longrightarrow> drained s'"
  by (erule bench_step.cases)
    (auto intro!: drained_goto pred_le dest: drained_at)

section \<open>Termination\<close>

text \<open>
  The budget of the two counters, then the distance of each thread from its end; a compare-and-exchange
  that can only fail because \<open>current\<close> is out of date counts one more.
\<close>

definition budget :: "bench \<Rightarrow> nat" where
  "budget s = unat (b_remaining s) + unat (b_warmup s)"

fun distance :: "u32 \<Rightarrow> u32 \<Rightarrow> bench_pc \<Rightarrow> nat" where
  "distance r w Setup = 20"
| "distance r w Request = 19"
| "distance r w (Setup_failed x) = 19"
| "distance r w (Abandon n x) = 1"
| "distance r w Warm_run = 18"
| "distance r w Warm_load = 17"
| "distance r w (Warm_cas c) = (if c = w then 15 else 16)"
| "distance r w Run = 14"
| "distance r w (Recording ok m) = 13"
| "distance r w Load = 12"
| "distance r w (Cas c) = (if c = r then 10 else 11)"
| "distance r w (Ended e) = 0"

definition rank :: "bench \<Rightarrow> nat \<times> nat" where
  "rank s = (budget s, thread_sum (distance (b_remaining s) (b_warmup s)) (b_threads s))"

lemma goto_same: "at s i pc \<Longrightarrow> goto i pc s = s"
  by (cases s) (auto simp: goto_def at_def)

lemma rank_goto:
  assumes "at s i pc" and "b_threads u = b_threads s" and "b_remaining u = b_remaining s" and "b_warmup u = b_warmup s"
    and "distance (b_remaining s) (b_warmup s) pc' < distance (b_remaining s) (b_warmup s) pc"
  shows "(rank (goto i pc' u), rank s) \<in> less_than <*lex*> less_than"
  using assms thread_sum_goto [OF assms(1), of "distance (b_remaining s) (b_warmup s)" pc']
  by (simp add: rank_def budget_def)

lemma rank_budget: "budget u < budget s \<Longrightarrow> (rank (goto i pc' u), rank s) \<in> less_than <*lex*> less_than"
  by (simp add: rank_def budget_def)

lemma rank_decreases: "bench_step s s' \<Longrightarrow> s' = s \<or> (rank s', rank s) \<in> less_than <*lex*> less_than"
proof (induction rule: bench_step.induct)
  case (warm_retry s i c)
  then show ?case using rank_goto [OF warm_retry(1), of s "Warm_cas (b_warmup s)"]
    by (cases "b_warmup s = c") (auto simp: goto_same)
next
  case (retry s i c)
  then show ?case using rank_goto [OF retry(1), of s "Cas (b_remaining s)"]
    by (cases "b_remaining s = c") (auto simp: goto_same)
next
  case (abandon s i w)
  show ?case
  proof (cases "b_remaining s = 0")
    case True
    then show ?thesis using rank_goto [OF abandon] by simp
  next
    case False
    then have "budget (s\<lparr>b_remaining := 0\<rparr>) < budget s" by (simp add: budget_def unat_gt_0)
    then show ?thesis by (blast intro: rank_budget)
  qed
next
  case (warm_claim s i c)
  then have "budget (s\<lparr>b_warmup := c - 1\<rparr>) < budget s" by (simp add: budget_def unat_pred word_less_nat_alt)
  then show ?case by (blast intro: rank_budget)
next
  case (claim s i c)
  then have "budget (s\<lparr>b_remaining := c - 1\<rparr>) < budget s" by (simp add: budget_def unat_pred word_less_nat_alt)
  then show ?case by (blast intro: rank_budget)
qed (rule disjI2, erule rank_goto, simp_all)+

section \<open>Properties\<close>

lemma reachable_invariants:
  assumes "bench_reachable (bench_init profile n c w) s"
  shows "connections_accounted s \<and> warm_accounted (unat w) s \<and> runs_accounted s \<and> drained s \<and>
    bs_requested_connections (b_summary s) = n"
  using assms unfolding bench_reachable_def
proof (induction rule: rtranclp_induct)
  case base
  have zero: "thread_sum f (replicate k Setup) = 0" if "f Setup = 0" for f k
    using that by (induction k) (simp_all add: thread_sum_def)
  show ?case by (simp add: bench_init_def connections_accounted_def warm_accounted_def runs_accounted_def drained_def zero list_all_iff)
next
  case (step s s')
  have "bs_requested_connections (b_summary s') = bs_requested_connections (b_summary s)"
    using step(2) by cases auto
  then show ?case using step connections_step warm_accounted_step runs_accounted_step drained_step by blast
qed

lemma joined_sums: "joined s \<Longrightarrow> thread_sum held (b_threads s) = 0 \<and> thread_sum recording (b_threads s) = 0 \<and> thread_sum warming (b_threads s) = 0"
proof -
  have "list_all is_ended ts \<Longrightarrow> thread_sum held ts = 0 \<and> thread_sum recording ts = 0 \<and> thread_sum warming ts = 0" for ts
    by (induction ts) (auto simp: thread_sum_def elim: is_ended.elims)
  then show "joined s \<Longrightarrow> ?thesis" by (simp add: joined_def)
qed

lemma crashed_0: "pc \<noteq> Ended Crashed \<Longrightarrow> crashed pc = 0"
  by (cases pc rule: crashed.cases) auto

lemma no_crash_sum: "Ended Crashed \<notin> set ts \<Longrightarrow> thread_sum crashed ts = 0"
  by (induction ts) (auto simp: thread_sum_def crashed_0)

text \<open>
  C22. A benchmark accounts for its connections under every interleaving of the workers: when all threads
  have been joined, successes, failures, connections lost to an exception that left a worker, and
  connections nobody claimed add up to the number requested, with no counter wrapped; there is one
  latency sample per success; and if no worker was ended by an exception, successes and failures alone
  add up to the number requested, also when clients could not be set up.
\<close>

theorem benchmark_accounts:
  assumes "bench_reachable (bench_init profile n c w) s" and "joined s"
  shows "unat (bs_successful (b_summary s)) + unat (bs_failed (b_summary s)) + b_lost s + unat (b_remaining s) = unat n \<and>
    length (bs_handshake_ns (b_summary s)) = unat (bs_successful (b_summary s)) \<and>
    (b_threads s \<noteq> [] \<and> Ended Crashed \<notin> set (b_threads s) \<longrightarrow>
       unat (bs_successful (b_summary s)) + unat (bs_failed (b_summary s)) = unat n)"
proof -
  note inv = reachable_invariants [OF assms(1)]
  have sum: "unat (bs_successful (b_summary s)) + unat (bs_failed (b_summary s)) + b_lost s + unat (b_remaining s) = unat n"
    using inv joined_sums [OF assms(2)] by (simp add: connections_accounted_def)
  have "b_lost s = 0 \<and> b_remaining s = 0" if ne: "b_threads s \<noteq> []" and nc: "Ended Crashed \<notin> set (b_threads s)"
  proof
    show "b_lost s = 0" using inv no_crash_sum [OF nc] by (simp add: runs_accounted_def)
    obtain e where e: "hd (b_threads s) = Ended e" "Ended e \<in> set (b_threads s)"
      using assms(2) ne unfolding joined_def list_all_iff by (metis hd_in_set is_ended.elims(2))
    then have "e \<noteq> Crashed" using nc by blast
    moreover have "saw_empty (b_remaining s) (b_warmup s) (Ended e)" using inv e by (simp add: drained_def list_all_iff)
    ultimately show "b_remaining s = 0" by (cases e) auto
  qed
  then show ?thesis using sum inv by (auto simp: runs_accounted_def)
qed

text \<open>One worker alone, whose calls all succeed: an executable schedule.\<close>

definition solo :: "bench \<Rightarrow> bench" where
  "solo s = (case b_threads s ! 0 of
      Setup \<Rightarrow> goto 0 Request s
    | Request \<Rightarrow> goto 0 Warm_load s
    | Warm_load \<Rightarrow> goto 0 (Warm_cas (b_warmup s)) s
    | Warm_cas c \<Rightarrow> if c = 0 then goto 0 Load s
        else if b_warmup s = c then goto 0 Warm_run (s\<lparr>b_warmup := c - 1\<rparr>) else s
    | Warm_run \<Rightarrow> goto 0 Warm_load (s\<lparr>b_warm_runs := b_warm_runs s + 1\<rparr>)
    | Load \<Rightarrow> goto 0 (Cas (b_remaining s)) s
    | Cas c \<Rightarrow> if c = 0 then goto 0 (Ended Finished) s
        else if b_remaining s = c then goto 0 Run (s\<lparr>b_remaining := c - 1\<rparr>) else s
    | Run \<Rightarrow> goto 0 (Recording True ConnectionMetrics_default) (s\<lparr>b_runs := b_runs s + 1\<rparr>)
    | Recording ok m \<Rightarrow> goto 0 Load (s\<lparr>b_summary := record_result ok m (b_summary s)\<rparr>)
    | _ \<Rightarrow> s)"

lemma solo_step: "b_threads s \<noteq> [] \<Longrightarrow> bench_step\<^sup>*\<^sup>* s (solo s) \<and> b_threads (solo s) \<noteq> []"
  unfolding solo_def
  by (auto simp: at_def word_gt_0 simp del: add_Suc_right One_nat_def intro!: r_into_rtranclp
      intro: bench_step.intros warm_run [unfolded Suc_eq_plus1] split: bench_pc.split)

lemma solo_reachable: "b_threads s \<noteq> [] \<Longrightarrow> bench_step\<^sup>*\<^sup>* s ((solo ^^ k) s)"
proof -
  assume ne: "b_threads s \<noteq> []"
  have "bench_step\<^sup>*\<^sup>* s ((solo ^^ k) s) \<and> b_threads ((solo ^^ k) s) \<noteq> []"
    by (induction k) (auto simp: ne dest: solo_step intro: rtranclp_trans)
  then show ?thesis ..
qed

definition one_run :: bench where
  "one_run = (solo ^^ 13) (bench_init ''p'' 1 1 1)"

lemma one_run_reachable: "bench_reachable (bench_init ''p'' 1 1 1) one_run"
  unfolding bench_reachable_def one_run_def by (rule solo_reachable) (simp add: bench_init_def)

lemma one_run_threads: "b_threads one_run = [Ended Finished]"
  by (simp add: one_run_def bench_init_def solo_def goto_def record_result_def eval_nat_numeral)

theorem benchmark_accounts_witness:
  "unat (bs_successful (b_summary one_run)) + unat (bs_failed (b_summary one_run)) = 1"
  using benchmark_accounts [OF one_run_reachable] by (simp add: joined_def one_run_threads)

text \<open>
  Warm-up connections are run by the same client with the same metrics writer: when every worker
  finished normally, \<open>run_once\<close> completed as many warm-ups as were configured besides the
  measured connections, and each of these runs writes its metrics record; nothing in the run
  distinguishes the two kinds.
\<close>

theorem warmups_are_run_like_measurements:
  assumes "bench_reachable (bench_init profile n c w) s" and "b_threads s \<noteq> []" and "set (b_threads s) \<subseteq> {Ended Finished}"
  shows "b_runs s + b_warm_runs s = unat n + unat w"
proof -
  note inv = reachable_invariants [OF assms(1)]
  have j: "joined s" using assms(3) by (auto simp: joined_def list_all_iff)
  have e: "Ended Finished \<in> set (b_threads s)" using assms(2,3) by (metis hd_in_set singletonD subsetD)
  have nc: "Ended Crashed \<notin> set (b_threads s)" "Ended Setup_error \<notin> set (b_threads s)" using assms(3) by auto
  have "b_remaining s = 0" "b_warmup s = 0" using inv e by (auto simp: drained_def list_all_iff)
  moreover have "b_abandoned s = 0" using inv nc(2) by (simp add: drained_def)
  moreover have "b_lost s = 0" "b_warm_lost s = 0" using inv no_crash_sum [OF nc(1)] by (simp_all add: runs_accounted_def)
  ultimately show ?thesis using inv joined_sums [OF j]
    by (simp add: connections_accounted_def warm_accounted_def runs_accounted_def)
qed

theorem warmups_are_run_like_measurements_witness: "b_runs one_run + b_warm_runs one_run = 2"
  using warmups_are_run_like_measurements [OF one_run_reachable] by (simp add: one_run_threads)

lemma worker_progress:
  assumes "at s i pc" and "\<not> is_ended pc"
  shows "\<exists>s'. bench_step s s' \<and> s' \<noteq> s"
proof -
  have go: "\<exists>s'. bench_step s s' \<and> s' \<noteq> s"
    if "bench_step s (goto i pc' u)" "pc' \<noteq> pc" "b_threads u = b_threads s" for pc' u
  proof -
    have "b_threads (goto i pc' u) ! i = pc'" using assms(1) that(3) by (simp add: at_def)
    then have "goto i pc' u \<noteq> s" using assms(1) that(2) by (auto simp: at_def)
    with that(1) show ?thesis by blast
  qed
  show ?thesis
  proof (cases pc)
    case (Warm_cas c)
    then show ?thesis
      using assms(1) go [OF warm_empty] go [OF warm_claim] go [OF warm_retry] by (cases "c = 0"; cases "b_warmup s = c") (auto simp: word_gt_0)
  next
    case (Cas c)
    then show ?thesis
      using assms(1) go [OF empty] go [OF claim] go [OF retry] by (cases "c = 0"; cases "b_remaining s = c") (auto simp: word_gt_0)
  qed (use assms go [OF setup_ok] go [OF abandon] go [OF abandoned] go [OF request_ok] go [OF warm_load] go [OF warm_run]
      go [OF load] go [OF run] go [OF recorded] in auto)
qed

text \<open>
  C23. The benchmark ends: every step of a worker changes the state only by making progress towards the
  end (a compare-and-exchange that fails spuriously leaves the state as it is), so no run makes
  infinitely many effective steps; and as long as a thread has not ended an effective step is possible.
\<close>

theorem benchmark_terminates:
  "wfp (\<lambda>s' s. bench_step s s' \<and> s' \<noteq> s) \<and> (joined s \<or> (\<exists>s'. bench_step s s' \<and> s' \<noteq> s))"
proof
  have "wfp (\<lambda>s' s. (rank s', rank s) \<in> less_than <*lex*> less_than)"
    unfolding wfp_def using wf_inv_image [OF wf_lex_prod [OF wf_less_than wf_less_than], of rank]
    by (simp add: inv_image_def)
  then show "wfp (\<lambda>s' s. bench_step s s' \<and> s' \<noteq> s)"
    by (rule wfp_subset) (use rank_decreases in blast)
  show "joined s \<or> (\<exists>s'. bench_step s s' \<and> s' \<noteq> s)"
  proof (cases "joined s")
    case False
    then obtain i where "i < length (b_threads s)" "\<not> is_ended (b_threads s ! i)"
      by (auto simp: joined_def list_all_length)
    then show ?thesis using worker_progress [of s i] by (simp add: at_def)
  qed simp
qed

end
