(* ===== verification/Programs.thy ===== *)
theory Programs
  imports Cli Capabilities Benchmark Client Server
begin

text \<open>
  The two programs: \<open>src/client/main.cpp\<close> and \<open>src/server/main.cpp\<close> from the command line to
  the exit status.  Standard output and standard error are calls with the text written; what one
  function writes in several pieces is one call.  \<open>build\<close> is what the build generates
  (\<open>build_info.hpp\<close>, \<open>OPENSSL_VERSION_TEXT\<close>); \<open>b_ms\<close> is how the stream prints a duration in
  milliseconds.  The threads of \<open>run_benchmark\<close> and of \<open>PqTlsServer::run\<close> are modelled in
  Benchmark and ServerPool; here they are arguments, actions that may do anything their callers allow.
  The warnings of the configuration files and all logging are left out.
\<close>

record build =
  kVersion :: string
  kGitCommit :: string
  kBuildType :: string
  kCompilerId :: string
  kCompilerVersion :: string
  kOpensslText :: string
  b_ms :: "int \<Rightarrow> string"

definition version_banner :: "build \<Rightarrow> string" where
  "version_banner B = ''pqtls-lab '' @ kVersion B @ '' (commit '' @ kGitCommit B @ '', '' @ kBuildType B @ '', '' @
     kCompilerId B @ '' '' @ kCompilerVersion B @ '')''"

definition out :: "'e env_scheme \<Rightarrow> string \<Rightarrow> unit io" where
  "out E text0 = call_IO E (Sys (Stdout text0))"

definition err :: "'e env_scheme \<Rightarrow> string \<Rightarrow> unit io" where
  "err E text0 = call_IO E (Sys (Stderr text0))"

definition text_lines :: "string list \<Rightarrow> string" where
  "text_lines ls = concat (map (\<lambda>l. l @ newline) ls)"

definition client_usage :: "string list" where
  "client_usage =
     [''pqtls-client - TLS 1.3 research client with selectable key-establishment profiles'',
      '''',
      ''USAGE'',
      ''  pqtls-client connect [options]'',
      ''  pqtls-client benchmark [options]'',
      ''  pqtls-client capabilities [--json]'',
      ''  pqtls-client --version'',
      ''  pqtls-client --help'',
      '''',
      ''COMMANDS'',
      ''  connect        Open one connection, send a message, print the response.'',
      ''  benchmark      Open many connections and append one JSONL record per connection.'',
      ''  capabilities   Report what this OpenSSL build can actually do, and which'',
      ''                 project profiles are usable as a result.'',
      '''',
      ''CONNECTION OPTIONS'',
      ''  --host <host>              Destination host (default localhost)'',
      ''  --port <n>                 Destination port (default 8443)'',
      ''  --server-name <name>       SNI and hostname-verification name (defaults to --host)'',
      ''  --profile <id>             Security profile (default classical-x25519)'',
      ''  --profiles-file <path>     YAML file extending the built-in profile catalogue'',
      ''  --ca-certificate <path>    CA bundle used to verify the server certificate'',
      ''  --certificate <path>       Client certificate for mutual TLS'',
      ''  --private-key <path>       Client private key for mutual TLS'',
      ''  --message <json>           Inline JSON message body'',
      ''  --message-file <path>      Read the JSON message body from a file'',
      ''  --metrics <path>           Append one JSONL record per connection'',
      ''  --experiment-id <id>       Value recorded in the experiment_id metric field'',
      ''  --max-frame-size <bytes>   Maximum accepted application frame (default 1048576)'',
      ''  --handshake-timeout <ms>   Handshake deadline (default 10000)'',
      ''  --io-timeout <ms>          Per-read/write deadline (default 30000)'',
      ''  --config <path>            YAML configuration file; flags override it'',
      ''  --log-level <level>        trace|debug|info|warn|error|off (default info)'',
      ''  --json                     Machine-readable output on stdout'',
      '''',
      ''BENCHMARK OPTIONS'',
      ''  --connections <n>          Total connections to open (default 1)'',
      ''  --concurrency <n>          Connections in flight at once (default 1)'',
      ''  --warmup <n>               Discarded warm-up connections (default 0)'',
      ''  --messages-per-connection <n>  Messages per connection (default 1)'',
      ''  --reuse-session            Attempt TLS session resumption'',
      ''  --output <path>            Metrics destination for this run'',
      '''',
      ''DEVELOPMENT-ONLY OPTIONS'',
      ''  --insecure-development-mode  Disable peer verification. Prints a warning and is'',
      ''                               refused when PQTLS_ENV=production.'',
      ''  --keylog-file <path>         Write TLS secrets for Wireshark. Same restrictions.'',
      '''',
      ''EXIT CODES'',
      ''  0 success   2 configuration   3 capability   4 certificate   5 tls-policy'',
      ''  6 handshake 7 network         8 protocol     9 timeout      70 internal'']"

definition server_usage :: "string list" where
  "server_usage =
     [''pqtls-server - TLS 1.3 research server with selectable key-establishment profiles'',
      '''',
      ''USAGE'',
      ''  pqtls-server serve [options]'',
      ''  pqtls-server capabilities [--json]'',
      ''  pqtls-server validate-config --config <file>'',
      ''  pqtls-server --version'',
      ''  pqtls-server --help'',
      '''',
      ''COMMANDS'',
      ''  serve             Listen for TLS 1.3 connections and answer framed JSON messages.'',
      ''  capabilities      Report what this OpenSSL build can actually do, and which'',
      ''                    project profiles are usable as a result.'',
      ''  validate-config   Parse and validate a configuration file without listening.'',
      '''',
      ''SERVE OPTIONS'',
      ''  --listen <addr>            Bind address (default 0.0.0.0)'',
      ''  --port <n>                 Bind port (default 8443; 0 lets the kernel choose)'',
      ''  --profile <id>             Security profile (default classical-x25519)'',
      ''  --profiles-file <path>     YAML file extending the built-in profile catalogue'',
      ''  --certificate <path>       Server certificate chain, PEM (required)'',
      ''  --private-key <path>       Server private key, PEM (required)'',
      ''  --ca-certificate <path>    CA bundle used to verify client certificates'',
      ''  --require-client-cert      Require a client certificate (mutual TLS)'',
      ''  --metrics <path>           Append one JSONL record per connection'',
      ''  --experiment-id <id>       Value recorded in the experiment_id metric field'',
      ''  --max-connections <n>      Worker pool size and accept-queue bound (default 256)'',
      ''  --backlog <n>              TCP listen backlog (default 128)'',
      ''  --max-frame-size <bytes>   Maximum accepted application frame (default 1048576)'',
      ''  --handshake-timeout <ms>   Handshake deadline (default 10000)'',
      ''  --io-timeout <ms>          Per-read/write deadline (default 30000)'',
      ''  --max-messages <n>         Messages accepted per connection (default 1024)'',
      ''  --config <path>            YAML configuration file; flags override it'',
      ''  --log-level <level>        trace|debug|info|warn|error|off (default info)'',
      ''  --json                     Machine-readable output on stdout'',
      '''',
      ''DEVELOPMENT-ONLY OPTIONS'',
      ''  --insecure-development-mode  Disable peer verification. Prints a warning and is'',
      ''                               refused when PQTLS_ENV=production.'',
      ''  --keylog-file <path>         Write TLS secrets for Wireshark. Same restrictions.'',
      '''',
      ''EXIT CODES'',
      ''  0 success   2 configuration   3 capability   4 certificate   5 tls-policy'',
      ''  6 handshake 7 network         8 protocol     9 timeout      70 internal'']"

definition insecure_banner :: "string list" where
  "insecure_banner =
     ['''',
      ''  ############################################################'',
      ''  #  WARNING: INSECURE DEVELOPMENT MODE                       #'',
      ''  #                                                          #'',
      ''  #  Certificate and hostname verification are DISABLED.     #'',
      ''  #  This connection is NOT authenticated and offers NO      #'',
      ''  #  protection against an active man-in-the-middle.         #'',
      ''  #                                                          #'',
      ''  #  Never use this outside local development.               #'',
      ''  ############################################################'',
      '''']"

definition print_usage :: "'e env_scheme \<Rightarrow> string list \<Rightarrow> unit io" where
  "print_usage E usage = out E (text_lines usage)"

definition print_insecure_mode_banner :: "'e env_scheme \<Rightarrow> unit io" where
  "print_insecure_mode_banner E = err E (text_lines insecure_banner)"

text \<open>\<open>std::cout << doc.dump(2) << '\n'\<close>.\<close>

definition print_json_doc :: "('j, 'z) json_api_scheme \<Rightarrow> 'e env_scheme \<Rightarrow> 'j \<Rightarrow> unit io" where
  "print_json_doc J E doc = (case j_pretty J doc of Inl w \<Rightarrow> liftE (Inl (Std w)) | Inr s \<Rightarrow> out E (s @ newline))"

section \<open>The message of the client\<close>

text \<open>The reply of \<open>Read_file\<close> is the contents, or nothing when the file cannot be opened.\<close>

definition message_body :: "'e env_scheme \<Rightarrow> ClientConfig \<Rightarrow> string io" where
  "message_body E config =
     (if cl_message_file config = '''' then returnIO (cl_message config)
      else bindIO (ext_str E (Sys (Read_file (cl_message_file config)))) (\<lambda>r.
        case r of
          None \<Rightarrow> throwIO Configuration (''cannot read the message file '' @ quoted (cl_message_file config)) []
        | Some body \<Rightarrow> returnIO body))"

text \<open>\<open>if (!doc.contains(key)) doc[key] = value\<close>.\<close>

definition fill_in :: "('j, 'z) json_api_scheme \<Rightarrow> string \<Rightarrow> 'j io \<Rightarrow> 'j \<Rightarrow> 'j io" where
  "fill_in J key action doc =
     (if j_find J doc key = None then bindIO action (\<lambda>v. returnIO (j_set J doc key v)) else returnIO doc)"

definition build_message :: "('j, 'z) json_api_scheme \<Rightarrow> 'e env_scheme \<Rightarrow> ClientConfig \<Rightarrow> 'j Message io" where
  "build_message J E config =
     bindIO (message_body E config) (\<lambda>body.
     if body = '''' then make_request J E Ping (j_null J)
     else case j_parse J body of
       Inl what \<Rightarrow> throwIO Configuration (''--message is not valid JSON: '' @ what) []
     | Inr doc \<Rightarrow>
         if \<not> j_is_object J doc then throwIO Configuration ''--message must be a JSON object'' []
         else
           bindIO (fill_in J ''protocol_version'' (returnIO (j_of_int J kProtocolVersion)) doc) (\<lambda>doc.
           bindIO (fill_in J ''message_id'' (bindIO (generate_uuid_v4 E) (\<lambda>u. returnIO (j_of_string J u))) doc) (\<lambda>doc.
           bindIO (fill_in J ''timestamp'' (bindIO (iso8601_now E) (\<lambda>t. returnIO (j_of_string J t))) doc) (\<lambda>doc.
           case j_dump J doc of Inl w \<Rightarrow> liftE (Inl (Std w)) | Inr s \<Rightarrow> parse J E s))))"

section \<open>Reporting a connection\<close>

definition result_to_json :: "('j, 'z) json_api_scheme \<Rightarrow> 'j ClientResult \<Rightarrow> 'j" where
  "result_to_json J result =
     j_set J (j_set J (j_null J) ''metrics'' (metrics_to_json J (r_metrics result)))
       ''responses'' (j_of_array J (map (to_json J) (r_responses result)))"

definition yes_no :: "bool \<Rightarrow> string" where
  "yes_no b = (if b then ''yes'' else ''no'')"

definition result_text :: "build \<Rightarrow> 'j ClientResult \<Rightarrow> string list" where
  "result_text B result =
     (let m = r_metrics result in
      [''connection '' @ (if r_ok result then ''succeeded'' else ''FAILED''),
       ''  peer              : '' @ cm_peer_address m,
       ''  requested profile : '' @ cm_requested_profile m,
       ''  TLS version       : '' @ cm_tls_version m,
       ''  negotiated group  : '' @ cm_negotiated_group m,
       ''  cipher suite      : '' @ cm_cipher_suite m,
       ''  authentication    : '' @ cm_authentication m,
       ''  session reused    : '' @ yes_no (cm_session_reused m),
       ''  handshake         : '' @ b_ms B (cm_handshake_ns m) @ '' ms'',
       ''  connection        : '' @ b_ms B (cm_connection_ns m) @ '' ms'',
       ''  bytes sent/recv   : '' @ dec_nat (unat (cm_application_bytes_sent m)) @ '' / '' @
         dec_nat (unat (cm_application_bytes_received m)),
       ''  PQ key establishment : '' @ yes_no (cm_pq_key_establishment m) @
         (if cm_pq_key_establishment m
          then (if cm_hybrid_key_establishment m then '' (hybrid)'' else '' (pure ML-KEM)'') else ''''),
       ''  PQ authentication    : '' @ yes_no (cm_pq_authentication m)] @
      (if cm_pq_key_establishment m \<and> \<not> cm_pq_authentication m
       then [''  note: the key exchange is post-quantum but the server authenticated with a'',
             ''        classical signature. This connection is not end-to-end quantum-safe.''] else []) @
      (if \<not> r_ok result
       then [''  error category    : '' @ to_string_ErrorCategory (cm_error_category m)] @
            (case cm_error_message m of Some t \<Rightarrow> [''  error             : '' @ t] | None \<Rightarrow> []) else []))"

fun print_responses :: "('j, 'z) json_api_scheme \<Rightarrow> 'e env_scheme \<Rightarrow> 'j Message list \<Rightarrow> unit io" where
  "print_responses J E [] = returnIO ()"
| "print_responses J E (m # ms) = bindIO (liftE (serialize J m)) (\<lambda>s.
     bindIO (out E (''  response          : '' @ s @ newline)) (\<lambda>_. print_responses J E ms))"

definition print_connection_result ::
  "('j, 'z) json_api_scheme \<Rightarrow> 'e env_scheme \<Rightarrow> build \<Rightarrow> 'j ClientResult \<Rightarrow> ClientConfig \<Rightarrow> unit io" where
  "print_connection_result J E B result config =
     (if cc_output_format (cl_common config) = Json_format then print_json_doc J E (result_to_json J result)
      else bindIO (out E (text_lines (result_text B result))) (\<lambda>_. print_responses J E (r_responses result)))"

section \<open>Commands of the client\<close>

definition command_capabilities ::
  "('j, 'z) json_api_scheme \<Rightarrow> ('n, 'y) yaml_api_scheme \<Rightarrow> 'e env_scheme \<Rightarrow> build \<Rightarrow> Arguments \<Rightarrow> int io" where
  "command_capabilities J Y E B args =
     bindIO (liftE (load_registry Y (case option_value args ''profiles-file'' of Some f \<Rightarrow> f | None \<Rightarrow> ''''))) (\<lambda>registry.
     bindIO (detect E (kOpensslText B) registry) (\<lambda>capabilities.
     bindIO (if has_option args ''json'' then print_json_doc J E (capabilities_to_json J capabilities)
             else out E (to_human_readable capabilities)) (\<lambda>_.
     returnIO (exit_value Success))))"

text \<open>\<open>client.run_once\<close>, for a client that has no cached session yet.\<close>

definition first_run ::
  "('j, 'z) json_api_scheme \<Rightarrow> 'e env_scheme \<Rightarrow> ClientConfig \<Rightarrow> SecurityProfile \<Rightarrow> bool \<Rightarrow> 'j Message list \<Rightarrow> 'j ClientResult io" where
  "first_run J E cfg profile has_writer messages tr =
     (case run_once J E cfg profile has_writer None messages tr of ((r, cached), tr') \<Rightarrow> (r, tr'))"

definition open_writer :: "'e env_scheme \<Rightarrow> string \<Rightarrow> bool io" where
  "open_writer E path =
     (if path \<noteq> '''' then bindIO (MetricsWriter E path) (\<lambda>_. returnIO True) else returnIO False)"

definition command_connect ::
  "('j, 'z) json_api_scheme \<Rightarrow> ('n, 'y) yaml_api_scheme \<Rightarrow> 'e env_scheme \<Rightarrow> build \<Rightarrow> Arguments \<Rightarrow> int io" where
  "command_connect J Y E B args =
     bindIO (liftE (build_client_config Y args)) (\<lambda>config.
     bindIO (liftE (validate_client (e_getenv E) config)) (\<lambda>_.
     bindIO (if cc_insecure_development_mode (cl_common config) then print_insecure_mode_banner E else returnIO ()) (\<lambda>_.
     bindIO (liftE (load_registry Y (cc_profiles_file (cl_common config)))) (\<lambda>registry.
     bindIO (build_message J E config) (\<lambda>message.
     bindIO (open_writer E (cc_metrics_file (cl_common config))) (\<lambda>has_writer.
     bindIO (PqTlsClient E config registry) (\<lambda>client.
     bindIO (first_run J E config client has_writer (replicate (unat (cl_messages_per_connection config)) message)) (\<lambda>result.
     bindIO (print_connection_result J E B result config) (\<lambda>_.
     returnIO (exit_value (if r_ok result then Success else exit_code_for (cm_error_category (r_metrics result)))))))))))))"

definition benchmark_text :: "ClientConfig \<Rightarrow> BenchmarkSummary \<Rightarrow> string list" where
  "benchmark_text config summary =
     [''benchmark complete'',
      ''  profile     : '' @ bs_profile_id summary,
      ''  requested   : '' @ dec_nat (unat (bs_requested_connections summary)),
      ''  successful  : '' @ dec_nat (unat (bs_successful summary)),
      ''  failed      : '' @ dec_nat (unat (bs_failed summary)),
      ''  raw records : '' @ cc_metrics_file (cl_common config),
      '''',
      ''Summary statistics are computed from the raw records:'',
      ''  python3 scripts/analyze-results.py '' @ cc_metrics_file (cl_common config)]"

definition command_benchmark ::
  "('j, 'z) json_api_scheme \<Rightarrow> ('n, 'y) yaml_api_scheme \<Rightarrow> 'e env_scheme \<Rightarrow>
     (ClientConfig \<Rightarrow> ProfileRegistry \<Rightarrow> BenchmarkSummary io) \<Rightarrow> Arguments \<Rightarrow> int io" where
  "command_benchmark J Y E run_benchmark args =
     bindIO (liftE (build_client_config Y args)) (\<lambda>config0.
     let config = (if cl_connections config0 < 1 then config0\<lparr>cl_connections := 1\<rparr> else config0) in
     bindIO (liftE (validate_client (e_getenv E) config)) (\<lambda>_.
     if cc_metrics_file (cl_common config) = ''''
     then throwIO Configuration ''benchmark requires --output (or --metrics) so that raw per-connection measurements are preserved. Summary statistics without the underlying data are not reproducible.'' []
     else
     bindIO (liftE (load_registry Y (cc_profiles_file (cl_common config)))) (\<lambda>registry.
     bindIO (MetricsWriter E (cc_metrics_file (cl_common config))) (\<lambda>_.
     bindIO (run_benchmark config registry) (\<lambda>summary.
     bindIO (metrics_flush E) (\<lambda>_.
     bindIO (if cc_output_format (cl_common config) = Json_format then print_json_doc J E (summary_to_json J summary)
             else out E (text_lines (benchmark_text config summary))) (\<lambda>_.
     returnIO (exit_value (if bs_successful summary = 0 then HandshakeError_code else Success)))))))))"

section \<open>Commands of the server\<close>

definition validation_json :: "('j, 'z) json_api_scheme \<Rightarrow> string \<Rightarrow> string \<Rightarrow> ProfileAvailability option \<Rightarrow> 'j" where
  "validation_json J config_file profile availability =
     (let usable = (case availability of Some a \<Rightarrow> pa_usable a | None \<Rightarrow> False);
          doc = fold (\<lambda>(k, v) doc. j_set J doc k v)
            [(''config'', j_of_string J config_file), (''valid'', j_of_bool J True), (''profile'', j_of_string J profile),
             (''profile_usable'', j_of_bool J usable)] (j_null J)
      in case availability of
           Some a \<Rightarrow> if \<not> pa_usable a then j_set J doc ''blocking_reason'' (j_of_string J (pa_blocking_reason a)) else doc
         | None \<Rightarrow> doc)"

definition validation_text :: "string \<Rightarrow> SecurityProfile \<Rightarrow> ProfileAvailability option \<Rightarrow> string list" where
  "validation_text config_file profile availability =
     [''configuration '' @ quoted config_file @ '' is valid'',
      ''  profile      : '' @ profile_id profile,
      ''  description  : '' @ d_description (def_of profile),
      ''  groups       : '' @ openssl_groups_list profile,
      ''  cipher suites: '' @ openssl_ciphersuites_list profile,
      ''  usable here  : '' @ (case availability of Some a \<Rightarrow> if pa_usable a then ''yes'' else ''NO'' | None \<Rightarrow> ''NO'')] @
     (case availability of
        Some a \<Rightarrow> if \<not> pa_usable a then [''  reason       : '' @ pa_blocking_reason a] else []
      | None \<Rightarrow> [])"

text \<open>The server's own \<open>load_registry\<close> and \<open>command_capabilities\<close>, which say the same as the client's.\<close>

definition server_load_registry :: "('n, 'z) yaml_api_scheme \<Rightarrow> string \<Rightarrow> ProfileRegistry result" where
  "server_load_registry Y profiles_file = (if profiles_file = '''' then builtin else from_yaml_file Y profiles_file)"

definition server_command_capabilities ::
  "('j, 'z) json_api_scheme \<Rightarrow> ('n, 'y) yaml_api_scheme \<Rightarrow> 'e env_scheme \<Rightarrow> build \<Rightarrow> Arguments \<Rightarrow> int io" where
  "server_command_capabilities J Y E B args =
     bindIO (liftE (server_load_registry Y (case option_value args ''profiles-file'' of Some f \<Rightarrow> f | None \<Rightarrow> ''''))) (\<lambda>registry.
     bindIO (detect E (kOpensslText B) registry) (\<lambda>capabilities.
     bindIO (if has_option args ''json'' then print_json_doc J E (capabilities_to_json J capabilities)
             else out E (to_human_readable capabilities)) (\<lambda>_.
     returnIO (exit_value Success))))"

definition command_validate_config ::
  "('j, 'z) json_api_scheme \<Rightarrow> ('n, 'y) yaml_api_scheme \<Rightarrow> 'e env_scheme \<Rightarrow> build \<Rightarrow> Arguments \<Rightarrow> int io" where
  "command_validate_config J Y E B args =
     (case option_value args ''config'' of
        None \<Rightarrow> throwIO Configuration ''validate-config requires --config <file>'' []
      | Some config_file \<Rightarrow>
          bindIO (liftE (build_server_config Y args)) (\<lambda>config.
          bindIO (liftE (validate_server (e_getenv E) config)) (\<lambda>_.
          bindIO (liftE (server_load_registry Y (cc_profiles_file (sv_common config)))) (\<lambda>registry.
          bindIO (liftE (get_profile registry (cc_profile_id (sv_common config)))) (\<lambda>profile.
          bindIO (detect E (kOpensslText B) registry) (\<lambda>capabilities.
          let availability = profile_availability capabilities (profile_id profile) in
          bindIO (if has_option args ''json'' then print_json_doc J E (validation_json J config_file (profile_id profile) availability)
                  else out E (text_lines (validation_text config_file profile availability))) (\<lambda>_.
          returnIO (exit_value (case availability of
              Some a \<Rightarrow> if pa_usable a then Success else CapabilityError_code
            | None \<Rightarrow> CapabilityError_code)))))))))"

text \<open>The check before binding: \<open>availability != nullptr && !availability->usable\<close> refuses.\<close>

definition refuse_unusable :: "string \<Rightarrow> ProfileAvailability option \<Rightarrow> unit result" where
  "refuse_unusable pid availability =
     (case availability of
        Some a \<Rightarrow> if \<not> pa_usable a
          then throw_sub Capability (''profile '' @ quoted pid @ '' cannot be used on this host: '' @ pa_blocking_reason a)
            [''run '' @ quoted ''pqtls-server capabilities'' @ '' for the full picture'']
          else Inr ()
      | None \<Rightarrow> Inr ())"

definition command_serve ::
  "('n, 'y) yaml_api_scheme \<Rightarrow> 'e env_scheme \<Rightarrow> build \<Rightarrow>
     (ServerConfig \<Rightarrow> SecurityProfile \<Rightarrow> bool \<Rightarrow> unit io) \<Rightarrow> Arguments \<Rightarrow> int io" where
  "command_serve Y E B run args =
     bindIO (liftE (build_server_config Y args)) (\<lambda>config.
     bindIO (liftE (validate_server (e_getenv E) config)) (\<lambda>_.
     bindIO (if cc_insecure_development_mode (sv_common config) then print_insecure_mode_banner E else returnIO ()) (\<lambda>_.
     bindIO (liftE (server_load_registry Y (cc_profiles_file (sv_common config)))) (\<lambda>registry.
     bindIO (detect E (kOpensslText B) registry) (\<lambda>capabilities.
     bindIO (liftE (refuse_unusable (cc_profile_id (sv_common config))
               (profile_availability capabilities (cc_profile_id (sv_common config))))) (\<lambda>_.
     bindIO (open_writer E (cc_metrics_file (sv_common config))) (\<lambda>has_writer.
     bindIO (PqTlsServer E config registry) (\<lambda>server.
     bindIO (call_IO E (Sys Install_signal_handlers)) (\<lambda>_.
     bindIO (run config server has_writer) (\<lambda>_.
     returnIO (exit_value Success)))))))))))"

section \<open>The entry points\<close>

text \<open>
  What both \<open>main\<close> functions do around their commands: help and version, the refusal of unknown
  options, the log level, and the handlers that turn an exception into an exit status.
\<close>

definition main_body ::
  "'e env_scheme \<Rightarrow> build \<Rightarrow> string list \<Rightarrow> string list \<Rightarrow> string list \<Rightarrow> (Arguments \<Rightarrow> int io) \<Rightarrow> string list \<Rightarrow> int io" where
  "main_body E B flags accepted usage dispatch argv =
     bindIO (liftE (parse_arguments flags argv)) (\<lambda>args.
     if has_option args ''help'' \<or> a_command args = ''help'' \<or> a_command args = ''''
     then bindIO (print_usage E usage) (\<lambda>_.
       returnIO (exit_value (if a_command args = '''' \<and> \<not> has_option args ''help'' then ConfigurationError_code else Success)))
     else if has_option args ''version''
     then bindIO (out E (version_banner B @ newline)) (\<lambda>_. returnIO (exit_value Success))
     else
       bindIO (liftE (reject_unknown_options args accepted)) (\<lambda>_.
       bindIO (liftE (configure_logging (apply_string args ''log-level'' ''info''))) (\<lambda>_.
       dispatch args)))"

fun report_exn :: "exn \<Rightarrow> string" where
  "report_exn (Err d e) = format_Error e"
| "report_exn (Std w) = ''error(internal): '' @ w"
| "report_exn (UB w) = w"

definition main_handlers :: "'e env_scheme \<Rightarrow> int io \<Rightarrow> int io" where
  "main_handlers E body =
     catchIO body (\<lambda>_. True) (\<lambda>e. bindIO (err E (report_exn e @ newline)) (\<lambda>_.
       returnIO (exit_value (exit_code_for (exn_category e)))))"

definition client_dispatch ::
  "('j, 'z) json_api_scheme \<Rightarrow> ('n, 'y) yaml_api_scheme \<Rightarrow> 'e env_scheme \<Rightarrow> build \<Rightarrow>
     (ClientConfig \<Rightarrow> ProfileRegistry \<Rightarrow> BenchmarkSummary io) \<Rightarrow> Arguments \<Rightarrow> int io" where
  "client_dispatch J Y E B run_benchmark args =
     (if a_command args = ''capabilities'' then command_capabilities J Y E B args
      else if a_command args = ''connect'' then command_connect J Y E B args
      else if a_command args = ''benchmark'' then command_benchmark J Y E run_benchmark args
      else throwIO Configuration (''unknown command '' @ quoted (a_command args) @
        ''. Expected connect, benchmark or capabilities.'') [])"

definition server_dispatch ::
  "('j, 'z) json_api_scheme \<Rightarrow> ('n, 'y) yaml_api_scheme \<Rightarrow> 'e env_scheme \<Rightarrow> build \<Rightarrow>
     (ServerConfig \<Rightarrow> SecurityProfile \<Rightarrow> bool \<Rightarrow> unit io) \<Rightarrow> Arguments \<Rightarrow> int io" where
  "server_dispatch J Y E B run args =
     (if a_command args = ''capabilities'' then server_command_capabilities J Y E B args
      else if a_command args = ''validate-config'' then command_validate_config J Y E B args
      else if a_command args = ''serve'' then command_serve Y E B run args
      else throwIO Configuration (''unknown command '' @ quoted (a_command args) @
        ''. Expected serve, capabilities or validate-config.'') [])"

definition client_main ::
  "('j, 'z) json_api_scheme \<Rightarrow> ('n, 'y) yaml_api_scheme \<Rightarrow> 'e env_scheme \<Rightarrow> build \<Rightarrow>
     (ClientConfig \<Rightarrow> ProfileRegistry \<Rightarrow> BenchmarkSummary io) \<Rightarrow> string list \<Rightarrow> int io" where
  "client_main J Y E B run_benchmark argv =
     main_handlers E (main_body E B kClientFlags kClientOptions client_usage (client_dispatch J Y E B run_benchmark) argv)"

definition server_main ::
  "('j, 'z) json_api_scheme \<Rightarrow> ('n, 'y) yaml_api_scheme \<Rightarrow> 'e env_scheme \<Rightarrow> build \<Rightarrow>
     (ServerConfig \<Rightarrow> SecurityProfile \<Rightarrow> bool \<Rightarrow> unit io) \<Rightarrow> string list \<Rightarrow> int io" where
  "server_main J Y E B run argv =
     main_handlers E (main_body E B kServerFlags kServerOptions server_usage (server_dispatch J Y E B run) argv)"

section \<open>Refusals\<close>

lemmas main_defs = main_handlers_def main_body_def bindIO_def liftE_def returnIO_def catchIO_def

text \<open>An exception of category \<open>Configuration\<close> before any command has run: exit status 2, one line on standard error.\<close>

lemma main_refuses:
  assumes "parse_arguments flags argv = Inr args" and "a_command args \<noteq> ''''" and "a_command args \<noteq> ''help''"
    and "\<not> has_option args ''help''" and "\<not> has_option args ''version''"
    and "throws Configuration (reject_unknown_options args accepted) \<or>
      (\<exists>e. dispatch args tr = (Inl (Err (Some Configuration) e), tr) \<and> e_category e = Configuration)"
  shows "\<exists>message. main_handlers E (main_body E B flags accepted usage dispatch argv) tr =
    (Inr 2, tr @ [Ev (Sys (Stderr message)) RVoid])"
proof -
  have "\<exists>e. main_body E B flags accepted usage dispatch argv tr = (Inl (Err (Some Configuration) e), tr) \<and> e_category e = Configuration"
    using assms by (auto simp: main_body_def bindIO_def liftE_def throws_def reject_unknown_options_def configure_logging_def
        throw_sub_def mk_Error_def split: option.splits)
  then show ?thesis by (auto simp: main_handlers_def catchIO_def bindIO_def err_def call_IO_def returnIO_def)
qed

text \<open>
  C5. A mistyped option cannot leave a different policy in effect: in either program, whatever its
  commands do, an option name outside the accepted list (with a command given, and neither help nor
  version asked for) makes the program exit with the configuration status 2 after one line on standard
  error, with no other call made.
\<close>

theorem unknown_option_refused:
  assumes "parse_arguments flags argv = Inr args" and "a_command args \<noteq> ''''" and "a_command args \<noteq> ''help''"
    and "\<not> has_option args ''help''" and "\<not> has_option args ''version''"
    and "(name, v) \<in> set (a_options args)" and "name \<notin> set accepted"
  shows "\<exists>message. main_handlers E (main_body E B flags accepted usage dispatch argv) tr =
    (Inr 2, tr @ [Ev (Sys (Stderr message)) RVoid])"
proof (rule main_refuses [OF assms(1-5)], rule disjI1)
  have "find (\<lambda>(name, v). name \<notin> set accepted) (a_options args) \<noteq> None"
    using assms(6,7) by (auto simp: find_eq_None_iff)
  then show "throws Configuration (reject_unknown_options args accepted)"
    by (auto simp: reject_unknown_options_def)
qed

definition typo_arguments :: Arguments where
  "typo_arguments = \<lparr>a_command = ''connect'', a_options = [(''profil'', ''x'')], a_positional = []\<rparr>"

lemma typo_parsed: "parse_arguments kClientFlags [''connect'', ''--profil=x''] = Inr typo_arguments"
  by (simp add: parse_arguments_def starts_with_def put_option_def Arguments_default_def typo_arguments_def)

theorem unknown_option_refused_witness:
  "\<forall>B run_benchmark. \<exists>message. client_main (json_reference []) (yaml_reference ''c'' sample_config) good_env B run_benchmark
     [''connect'', ''--profil=x''] [] = (Inr 2, [Ev (Sys (Stderr message)) RVoid])"
proof (intro allI)
  fix B run_benchmark
  show "\<exists>message. client_main (json_reference []) (yaml_reference ''c'' sample_config) good_env B run_benchmark
     [''connect'', ''--profil=x''] [] = (Inr 2, [Ev (Sys (Stderr message)) RVoid])"
    using unknown_option_refused [OF typo_parsed, of "''profil''" "''x''" kClientOptions good_env B client_usage
        "client_dispatch (json_reference []) (yaml_reference ''c'' sample_config) good_env B run_benchmark" "[]"]
    by (simp add: client_main_def typo_arguments_def has_option_def kClientOptions_def)
qed

text \<open>
  Asking only for the version is answered with the usage text and the configuration error status,
  by both programs.
\<close>

theorem version_flag_alone:
  "client_main J Y E B run_benchmark [''--version''] tr = (Inr 2, tr @ [Ev (Sys (Stdout (text_lines client_usage))) RVoid]) \<and>
   server_main J Y E B run [''--version''] tr = (Inr 2, tr @ [Ev (Sys (Stdout (text_lines server_usage))) RVoid])"
  by (simp add: client_main_def server_main_def main_defs parse_arguments_def starts_with_def put_option_def
      Arguments_default_def has_option_def kClientFlags_def kServerFlags_def print_usage_def out_def call_IO_def)

section \<open>Exit statuses\<close>

definition returns_status :: "int io \<Rightarrow> bool" where
  "returns_status m \<longleftrightarrow> (\<forall>tr n tr'. m tr = (Inr n, tr') \<longrightarrow> (\<exists>c. n = exit_value c))"

lemma returns_status_bindIO: "(\<And>x. returns_status (f x)) \<Longrightarrow> returns_status (bindIO n f)"
  unfolding returns_status_def by (blast elim: bindIO_InrE)

lemma returns_status_basic:
  "returns_status (returnIO (exit_value c))" "returns_status (throwIO k m ds)"
  "returns_status m1 \<Longrightarrow> returns_status m2 \<Longrightarrow> returns_status (if b then m1 else m2)"
  "returns_status m1 \<Longrightarrow> (\<And>x. returns_status (g x)) \<Longrightarrow> returns_status (case y of None \<Rightarrow> m1 | Some x \<Rightarrow> g x)"
  by (auto simp: returns_status_def returnIO_eq throwIO_eq split: option.splits)

lemmas returns_status_intros = returns_status_bindIO returns_status_basic

lemma commands_return_status:
  "returns_status (client_dispatch J Y E B run_benchmark args)" "returns_status (server_dispatch J Y E B run args)"
  unfolding client_dispatch_def server_dispatch_def command_capabilities_def command_connect_def command_benchmark_def
    command_validate_config_def command_serve_def server_command_capabilities_def Let_def by (intro returns_status_intros)+

lemma main_status:
  assumes "\<And>args. returns_status (dispatch args)"
  shows "(\<exists>c. fst (main_handlers E (main_body E B flags accepted usage dispatch argv) tr) = Inr (exit_value c)) \<or>
    (\<exists>w. fst (main_handlers E (main_body E B flags accepted usage dispatch argv) tr) = Inl (UB w))"
proof -
  have body: "returns_status (main_body E B flags accepted usage dispatch argv)"
    unfolding main_body_def by (intro returns_status_intros assms)
  obtain r tr' where r: "main_body E B flags accepted usage dispatch argv tr = (r, tr')"
    by (cases "main_body E B flags accepted usage dispatch argv tr")
  show ?thesis
  proof (cases r)
    case (Inl e)
    have "fst (main_handlers E (main_body E B flags accepted usage dispatch argv) tr) =
        (if catchable e then Inr (exit_value (exit_code_for (exn_category e))) else Inl e)"
      using Inl r by (simp add: main_handlers_def catchIO_def bindIO_def err_def call_IO_def returnIO_def)
    moreover have "catchable e \<or> (\<exists>w. e = UB w)" by (cases e) auto
    ultimately show ?thesis by metis
  next
    case (Inr n)
    then show ?thesis using r body by (auto simp: main_handlers_def catchIO_def returns_status_def)
  qed
qed


section \<open>Gates before the network\<close>

lemma validate_throws:
  "\<not> client_ok getenv c \<Longrightarrow> throws Configuration (validate_client getenv c)"
  "\<not> server_ok getenv s \<Longrightarrow> throws Configuration (validate_server getenv s)"
  using validate_only_throws(1) [of getenv c] validate_only_throws(2) [of getenv s]
    validate_client_eq [of getenv c] validate_server_eq [of getenv s] by (auto simp: only_throws_def)

lemma throwsE: "throws c r \<Longrightarrow> \<exists>e. r = Inl (Err (Some c) e) \<and> e_category e = c"
  by (auto simp: throws_def throw_sub_def mk_Error_def)

lemma connect_refuses:
  assumes "build_client_config Y args = Inr cfg" and "\<not> client_ok (e_getenv E) cfg"
  shows "\<exists>e. command_connect J Y E B args tr = (Inl (Err (Some Configuration) e), tr) \<and> e_category e = Configuration"
  using throwsE [OF validate_throws(1) [OF assms(2)]] assms(1)
  by (auto simp: command_connect_def bindIO_def liftE_def)

lemma serve_refuses:
  assumes "build_server_config Y args = Inr cfg" and "\<not> server_ok (e_getenv E) cfg"
  shows "\<exists>e. command_serve Y E B run args tr = (Inl (Err (Some Configuration) e), tr) \<and> e_category e = Configuration"
  using throwsE [OF validate_throws(2) [OF assms(2)]] assms(1)
  by (auto simp: command_serve_def bindIO_def liftE_def)

lemma availability_of_profile:
  assumes "detect E vt reg tr = (Inr caps, tr')" and "find_profile reg pid = Some p"
  shows "\<exists>a. profile_availability caps pid = Some a \<and> (pa_usable a \<longleftrightarrow> provides caps p)"
proof -
  obtain c0 where c0: "caps = c0\<lparr>caps_profiles := map (evaluate_profile c0) reg\<rparr>"
    by (rule detect_probes [OF assms(1)]) blast
  have "find (\<lambda>a. pa_profile_id a = pid) (map (evaluate_profile c0) reg) = map_option (evaluate_profile c0) (find_profile reg pid)"
    unfolding find_profile_def by (induction reg) (simp_all add: evaluate_profile_exact)
  then have "profile_availability caps pid = Some (evaluate_profile c0 p)"
    using assms(2) by (simp add: profile_availability_def c0)
  then show ?thesis using evaluate_profile_exact [of c0 p] by (simp add: c0)
qed


text \<open>
  C6. In a production environment the client makes no connection with a development-only option: when
  the configuration a \<open>connect\<close> command line amounts to, by option or by file, disables
  verification or names a key log, the program exits with status 2 after one line on standard error
  and makes no other call.
\<close>

theorem production_refuses_development_options:
  assumes "e_getenv E ''PQTLS_ENV'' = Some ''production''"
    and "parse_arguments kClientFlags argv = Inr args" and "a_command args = ''connect''"
    and "\<not> has_option args ''help''" and "\<not> has_option args ''version''"
    and "build_client_config Y args = Inr cfg"
    and "cc_insecure_development_mode (cl_common cfg) \<or> cc_keylog_file (cl_common cfg) \<noteq> ''''"
  shows "\<exists>message. client_main J Y E B run_benchmark argv tr = (Inr 2, tr @ [Ev (Sys (Stderr message)) RVoid])"
proof -
  have "\<not> client_ok (e_getenv E) cfg" using assms(1,7) by (auto simp: client_ok_def dev_options_ok_def)
  then obtain e where "command_connect J Y E B args tr = (Inl (Err (Some Configuration) e), tr)" "e_category e = Configuration"
    using connect_refuses [OF assms(6)] by blast
  then show ?thesis unfolding client_main_def
    using assms(2-5) by (intro main_refuses [of _ _ args]) (auto simp: client_dispatch_def)
qed

text \<open>The same for \<open>serve\<close>.\<close>

lemma production_refuses_serve:
  assumes "e_getenv E ''PQTLS_ENV'' = Some ''production''"
    and "parse_arguments kServerFlags argv = Inr args" and "a_command args = ''serve''"
    and "\<not> has_option args ''help''" and "\<not> has_option args ''version''"
    and "build_server_config Y args = Inr cfg"
    and "cc_insecure_development_mode (sv_common cfg) \<or> cc_keylog_file (sv_common cfg) \<noteq> ''''"
  shows "\<exists>message. server_main J Y E B run argv tr = (Inr 2, tr @ [Ev (Sys (Stderr message)) RVoid])"
proof -
  have "\<not> server_ok (e_getenv E) cfg" using assms(1,7) by (auto simp: server_ok_def dev_options_ok_def)
  then obtain e where "command_serve Y E B run args tr = (Inl (Err (Some Configuration) e), tr)" "e_category e = Configuration"
    using serve_refuses [OF assms(6)] by blast
  then show ?thesis unfolding server_main_def
    using assms(2-5) by (intro main_refuses [of _ _ args]) (auto simp: server_dispatch_def)
qed

definition certified_arguments :: Arguments where
  "certified_arguments = \<lparr>a_command = ''serve'', a_options = [(''certificate'', ''c.pem''), (''private-key'', ''k.pem'')], a_positional = []\<rparr>"

definition certified_config :: ServerConfig where
  "certified_config = ServerConfig_default\<lparr>sv_common := CommonConfig_default\<lparr>cc_certificate_file := ''c.pem'',
     cc_private_key_file := ''k.pem''\<rparr>\<rparr>"

lemma certified_config_built: "build_server_config Y certified_arguments = Inr certified_config"
  by (simp add: build_server_config_def server_statements_def run_statements_def string_option_def bool_option_def word_option_def
      apply_string_def apply_bool_def apply_integer_def option_value_def has_option_def in_common_server_def certified_arguments_def
      certified_config_def ServerConfig_default_def CommonConfig_default_def)

text \<open>An OpenSSL that knows none of the groups.\<close>

definition groupless_env :: env where
  "groupless_env = good_env\<lparr>e_int := (\<lambda>tr c. case c of Ctx (SSL_CTX_set1_groups_list s) \<Rightarrow> 0 | _ \<Rightarrow> 1)\<rparr>"

lemma groupless_detection:
  "(case builtin of Inl e \<Rightarrow> False | Inr reg \<Rightarrow>
     (case find_profile reg ''classical-x25519'' of None \<Rightarrow> False | Some p \<Rightarrow>
       (case fst (detect groupless_env ''OpenSSL'' reg []) of Inl e \<Rightarrow> False | Inr caps \<Rightarrow> \<not> provides caps p)))"
  by code_simp

definition plain_build :: build where
  "plain_build = \<lparr>kVersion = ''1.0.0'', kGitCommit = ''unknown'', kBuildType = ''Release'', kCompilerId = ''GNU'',
     kCompilerVersion = ''13'', kOpensslText = ''OpenSSL'', b_ms = dec_int\<rparr>"


definition insecure_arguments :: Arguments where
  "insecure_arguments = \<lparr>a_command = ''connect'', a_options = [(''insecure-development-mode'', ''true'')], a_positional = []\<rparr>"

lemma insecure_parsed: "parse_arguments kClientFlags [''connect'', ''--insecure-development-mode''] = Inr insecure_arguments"
  by (simp add: parse_arguments_def starts_with_def put_option_def Arguments_default_def insecure_arguments_def kClientFlags_def)

lemma insecure_config_built:
  "build_client_config Y insecure_arguments =
     Inr (ClientConfig_default\<lparr>cl_common := CommonConfig_default\<lparr>cc_insecure_development_mode := True\<rparr>\<rparr>)"
  by (simp add: build_client_config_def client_statements_def run_statements_def string_option_def bool_option_def word_option_def
      apply_string_def apply_bool_def apply_integer_def option_value_def has_option_def in_common_client_def insecure_arguments_def
      client_finish_def ClientConfig_default_def CommonConfig_default_def)

definition production_env :: env where
  "production_env = good_env\<lparr>e_getenv := (\<lambda>_. Some ''production'')\<rparr>"

theorem production_refuses_development_options_witness:
  "\<forall>run_benchmark. \<exists>message. client_main (json_reference []) (yaml_reference ''c'' sample_config) production_env plain_build
     run_benchmark [''connect'', ''--insecure-development-mode''] [] = (Inr 2, [Ev (Sys (Stderr message)) RVoid])"
proof
  fix run_benchmark
  show "\<exists>message. client_main (json_reference []) (yaml_reference ''c'' sample_config) production_env plain_build
     run_benchmark [''connect'', ''--insecure-development-mode''] [] = (Inr 2, [Ev (Sys (Stderr message)) RVoid])"
    using production_refuses_development_options [OF _ insecure_parsed _ _ _ insecure_config_built [of "yaml_reference ''c'' sample_config"],
        of production_env "json_reference []" plain_build run_benchmark "[]"]
    by (simp add: production_env_def insecure_arguments_def has_option_def)
qed

end
