(* ===== verification/Spec2Isabelle.thy ===== *)
theory Spec2Isabelle
  imports Framing Utf8 Profile ProfileYaml Config Message Transport TlsContext Metrics Session Client Server Sockets ServerPool Lifecycle EndToEnd Cli Capabilities Benchmark Programs
begin

text \<open>
  Verification of pqtls-lab, a TLS 1.3 research client and server with selectable key-establishment
  profiles.

  \<^bold>\<open>The program.\<close>  A profile (\<open>security_profile.cpp\<close>) names the TLS groups, cipher suites and
  authentication a connection may use.  Both programs read a command line and a YAML file into a
  configuration (\<open>cli_support.hpp\<close>, \<open>config.cpp\<close>, the two \<open>main.cpp\<close>), probe what the installed
  OpenSSL can do (\<open>capabilities.cpp\<close>), build an \<open>SSL_CTX\<close> that is pinned to the profile
  (\<open>tls_context.cpp\<close>), open sockets (\<open>transport.cpp\<close>), shake hands, inspect what was negotiated and
  refuse what the profile does not permit, and only then exchange length-framed JSON messages
  (\<open>application_protocol.cpp\<close>).  The client runs one connection or a concurrent benchmark
  (\<open>client.cpp\<close>), the server a pool of worker threads (\<open>server.cpp\<close>); both append one metrics record
  per connection (\<open>metrics.cpp\<close>).  Errors are exceptions of one class with a category that decides
  the exit status (\<open>error.cpp\<close>).

  \<^bold>\<open>The model.\<close>  Pure code is a function; code that can throw returns a value of
  \<open>exn + 'a\<close>, with every throw of the source a branch.  Code that calls OpenSSL, the operating
  system, the clock, the random generator or a stream is an action on a trace: each call is appended
  with the reply the environment gave, and the environment may answer as it likes, depending on the
  whole history.  Safety properties are statements about traces.  Machine integers keep their width.
  nlohmann::json and yaml-cpp are records of operations, arguments of the definitions that use them;
  \<open>json_laws\<close> is the documented behaviour of the former that some theorems assume, and
  \<open>json_reference\<close>, \<open>yaml_reference\<close> are instances for the witnesses.

  \<^item> Prelude, Errors, Platform: exception flow, bytes and strings; categories, exit codes and
    exceptions (\<open>error.hpp\<close>, \<open>error.cpp\<close>); calls, traces and actions.
  \<^item> Json, Yaml: the two libraries as parameters.
  \<^item> Framing, Utf8, Message: \<open>application_protocol.cpp\<close>.  The incremental decoder refines a
    function on the whole byte stream (locale \<open>frame_stream\<close>), so that frames and errors do not
    depend on how the stream is cut into reads and encoded messages come back exactly; its memory is
    bounded.  The UTF-8 loop accepts exactly the encodings of scalar values.  A parsed message
    satisfies every limit of the protocol, and parsing inverts serialization.
  \<^item> Profile, ProfileYaml: \<open>security_profile.cpp\<close>.  Which definitions are accepted, that no
    validated post-quantum profile accepts a classical group, that the registry is a map with an
    order (locale \<open>profile_store\<close>), and what a YAML file can and cannot change.
  \<^item> Config, Cli: \<open>config.cpp\<close>, \<open>cli_support.hpp\<close> and the \<open>build_config\<close> functions.  Exactly which
    configurations are valid; the parser reads back what was written; options override the file,
    which overrides the defaults; integers are never truncated.
  \<^item> Transport, TlsContext, Metrics: sockets and their descriptors, complete writes, no leaks; the
    policy calls a context receives; the metrics record.
  \<^item> Session, Client, Server: one connection end to end.  The locale \<open>gated_session\<close> states what
    establishing a connection owes to using it; the client and the server are its instances, and
    their connections carry application data only after group and certificate were checked.  What a
    successful connection sent and received, what is recorded, and which exceptions can leave.
  \<^item> EndToEnd: a client and a server at the two ends of one channel that hands each a prefix of what
    the other wrote (\<open>tls_channel\<close>), with a JSON library that reads back what it printed
    (\<open>json_faithful\<close>).  The response a client returns is the server's answer to the very request
    it sent; neither end records a success of a connection the profile does not permit.
  \<^item> Sockets: who owns a descriptor.  The locale \<open>fd_custody\<close> is the contract; the class \<open>Socket\<close>
    with its moves, on an explicit store of objects, meets it, and so does the server's pool.
  \<^item> ServerPool: the acceptor, the workers, the queue with its mutex and condition variable, \<open>stop\<close>
    and the destructor as a step relation, \<open>run\<close> left by an exception included; bounds, ownership
    of descriptors, order, and shutdown.
  \<^item> Lifecycle: the server object inside \<open>command_serve\<close> and the signal handler, interleaved with
    the threads of ServerPool; when a signal is safe, and what its loss or a dangling pointer takes.
  \<^item> Benchmark: the workers of \<open>run_benchmark\<close> with their atomic counters as a step relation;
    every connection is accounted for, and the run ends.
  \<^item> Capabilities: the probe and the verdict on every profile.
  \<^item> Programs: the commands and the two \<open>main\<close> functions; what is refused before any other call,
    and the exit statuses.

  \<^bold>\<open>Loops.\<close>  No definition has fuel.  Loops over a container are structural; the write loop
  descends on the bytes left, the response loop on the room left in the decoder, the server's message
  loop on the messages left and that room, the frame drains on the bytes buffered; each is a total
  function with its measure.  The threads are step relations, for which termination is a theorem
  about a rank.

  \<^bold>\<open>Not modelled.\<close>  Logging, and the warnings that are only logged; the Windows branches of the
  transport and of the resource sampling; memory OpenSSL owns.  A duration is kept in nanoseconds,
  its conversion to a floating-point number of milliseconds is a parameter, as is the text a stream
  prints for one.  Standard output is written in whole pieces.  In Programs the threads of the benchmark and of the
  server are arguments; their behaviour is the subject of Benchmark and ServerPool, where a
  connection is one step, and the return or exception of a call on a client is left open.  Build files,
  scripts, containers, the Python tools and the tests are not part of the model.
\<close>

end
